theory Spec2Isabelle
  imports Complex_Main
begin

section \<open>Carlyzer: post-detection analysis of VehicleAnalyzer.tsx\<close>

text \<open>
  The component \<^verbatim>\<open>src/components/VehicleAnalyzer.tsx\<close> is embedded function by
  function. JavaScript numbers are modelled as \<^typ>\<open>real\<close> (the colour
  taxonomy is given a second time with the rounding of double arithmetic as a
  parameter), the bytes of an \<^verbatim>\<open>ImageData\<close> buffer as \<^typ>\<open>nat\<close>, colour names
  as \<^typ>\<open>string\<close>, a JavaScript object used as a histogram as an association list in
  insertion order (the order \<^verbatim>\<open>Object.entries\<close> reports), and an exception as the
  \<open>Inl\<close> branch of a sum.
\<close>

subsection \<open>Colour taxonomy\<close>

text \<open>\<^verbatim>\<open>rgbToHsl\<close>: the arguments are first divided by 255; the \<^verbatim>\<open>switch (max)\<close>
  takes the first of the cases \<open>r\<close>, \<open>g\<close>, \<open>b\<close> that equals \<open>max\<close>.\<close>

definition rgbToHsl :: "real \<Rightarrow> real \<Rightarrow> real \<Rightarrow> real \<times> real \<times> real" where
  "rgbToHsl r0 g0 b0 =
     (let r = r0 / 255; g = g0 / 255; b = b0 / 255;
          mx = max (max r g) b;
          mn = min (min r g) b;
          diff = mx - mn;
          l = (mx + mn) / 2
      in if diff \<noteq> 0 then
           (let s = (if l > 0.5 then diff / (2 - mx - mn) else diff / (mx + mn));
                h = (if mx = r then ((g - b) / diff + (if g < b then 6 else 0)) / 6
                     else if mx = g then ((b - r) / diff + 2) / 6
                     else ((r - g) / diff + 4) / 6)
            in (h * 360, s, l))
         else (0 * 360, 0, l))"

text \<open>The lightness ladder of the low-saturation band.\<close>

definition grayscaleName :: "real \<Rightarrow> string" where
  "grayscaleName l =
     (if l > 0.85 then ''Pearl White''
      else if l > 0.75 then ''Silver''
      else if l > 0.65 then ''Light Gray''
      else if l > 0.55 then ''Medium Gray''
      else if l > 0.45 then ''Gray''
      else if l > 0.35 then ''Dark Gray''
      else if l > 0.25 then ''Charcoal''
      else ''Black'')"

text \<open>The green, blue and purple blocks return only inside one of their sub-bands; when
  no sub-band matches control falls through to the blocks below, which \<open>None\<close> stands for.\<close>

definition greenBand :: "real \<Rightarrow> real \<Rightarrow> real \<Rightarrow> string option" where
  "greenBand h s l =
     (if h \<ge> 70 \<and> h < 170 \<and> s \<ge> 0.1 then
        (if h \<ge> 70 \<and> h < 90 then
           Some (if l > 0.7 then ''Lime'' else if l > 0.6 then ''Light Green''
                 else if l > 0.5 then ''Green'' else if l > 0.4 then ''Forest Green''
                 else ''Dark Green'')
         else if h \<ge> 90 \<and> h < 120 then
           Some (if l > 0.7 then ''Mint Green'' else if l > 0.6 then ''Light Green''
                 else if l > 0.5 then ''Green'' else if l > 0.4 then ''Emerald''
                 else ''Dark Green'')
         else if h \<ge> 120 \<and> h < 150 then
           Some (if l > 0.7 then ''Seafoam'' else if l > 0.6 then ''Light Green''
                 else if l > 0.5 then ''Teal'' else if l > 0.4 then ''Green''
                 else ''Dark Teal'')
         else if h \<ge> 150 \<and> h < 170 then
           Some (if l > 0.6 then ''Turquoise'' else if l > 0.5 then ''Cyan''
                 else if l > 0.4 then ''Teal'' else ''Dark Teal'')
         else None)
      else None)"

definition blueBand :: "real \<Rightarrow> real \<Rightarrow> real \<Rightarrow> string option" where
  "blueBand h s l =
     (if h \<ge> 170 \<and> h < 260 \<and> s \<ge> 0.15 then
        (if h \<ge> 170 \<and> h < 200 then
           Some (if l > 0.7 then ''Light Blue'' else if l > 0.6 then ''Sky Blue''
                 else if l > 0.5 then ''Blue'' else if l > 0.4 then ''Royal Blue''
                 else if l > 0.3 then ''Navy'' else ''Dark Navy'')
         else if h \<ge> 200 \<and> h < 230 then
           Some (if l > 0.7 then ''Light Blue'' else if l > 0.6 then ''Blue''
                 else if l > 0.5 then ''Cobalt'' else if l > 0.4 then ''Blue''
                 else if l > 0.3 then ''Navy'' else ''Midnight Blue'')
         else if h \<ge> 230 \<and> h < 260 then
           Some (if l > 0.7 then ''Periwinkle'' else if l > 0.6 then ''Light Blue''
                 else if l > 0.5 then ''Blue'' else if l > 0.4 then ''Indigo''
                 else ''Dark Blue'')
         else None)
      else None)"

definition purpleBand :: "real \<Rightarrow> real \<Rightarrow> real \<Rightarrow> string option" where
  "purpleBand h s l =
     (if h \<ge> 260 \<and> h < 300 \<and> s \<ge> 0.15 then
        (if h \<ge> 260 \<and> h < 280 then
           Some (if l > 0.7 then ''Lavender'' else if l > 0.6 then ''Light Purple''
                 else if l > 0.5 then ''Purple'' else if l > 0.4 then ''Violet''
                 else ''Dark Purple'')
         else if h \<ge> 280 \<and> h < 300 then
           Some (if l > 0.7 then ''Light Purple'' else if l > 0.6 then ''Purple''
                 else if l > 0.5 then ''Plum'' else if l > 0.4 then ''Purple''
                 else ''Dark Purple'')
         else None)
      else None)"

text \<open>The decision table of \<^verbatim>\<open>getAdvancedColorName\<close> on the triple that
  \<^verbatim>\<open>rgbToHsl\<close> returned, in the order of the source.\<close>

definition colorNameOfHsl :: "real \<Rightarrow> real \<Rightarrow> real \<Rightarrow> string" where
  "colorNameOfHsl h s l =
     (if l < 0.12 then ''Black''
      else if l > 0.88 \<and> s < 0.15 then ''White''
      else if s < 0.08 then grayscaleName l
      else if s \<ge> 0.08 \<and> s < 0.4 \<and> h \<ge> 15 \<and> h < 55 then
        (if l > 0.7 then ''Cream'' else if l > 0.6 then ''Beige''
         else if l > 0.5 then ''Tan'' else if l > 0.4 then ''Light Brown''
         else if l > 0.3 then ''Brown'' else if l > 0.2 then ''Dark Brown''
         else ''Chocolate'')
      else if (h \<ge> 340 \<or> h < 20) \<and> s \<ge> 0.12 then
        (if l > 0.75 then ''Light Pink'' else if l > 0.65 then ''Rose''
         else if l > 0.55 then ''Light Red'' else if l > 0.45 then ''Red''
         else if l > 0.35 then ''Crimson'' else if l > 0.25 then ''Dark Red''
         else ''Maroon'')
      else if h \<ge> 300 \<and> h < 340 \<and> s \<ge> 0.15 then
        (if l > 0.75 then ''Light Pink'' else if l > 0.65 then ''Pink''
         else if l > 0.55 then ''Hot Pink'' else if l > 0.45 then ''Fuchsia''
         else if l > 0.35 then ''Magenta'' else ''Deep Pink'')
      else if h \<ge> 10 \<and> h < 40 \<and> s \<ge> 0.2 then
        (if l > 0.75 then ''Peach'' else if l > 0.65 then ''Light Orange''
         else if l > 0.55 then ''Orange'' else if l > 0.45 then ''Burnt Orange''
         else if l > 0.35 then ''Dark Orange'' else ''Rust'')
      else if h \<ge> 40 \<and> h < 70 \<and> s \<ge> 0.2 then
        (if l > 0.8 then ''Cream'' else if l > 0.7 then ''Light Yellow''
         else if l > 0.6 then ''Yellow'' else if l > 0.5 then ''Gold''
         else if l > 0.4 then ''Mustard'' else ''Amber'')
      else (case greenBand h s l of Some n \<Rightarrow> n
            | None \<Rightarrow> (case blueBand h s l of Some n \<Rightarrow> n
            | None \<Rightarrow> (case purpleBand h s l of Some n \<Rightarrow> n
            | None \<Rightarrow> ''Mixed''))))"

definition getAdvancedColorName :: "real \<Rightarrow> real \<Rightarrow> real \<Rightarrow> string" where
  "getAdvancedColorName r g b = (case rgbToHsl r g b of (h, s, l) \<Rightarrow> colorNameOfHsl h s l)"

text \<open>\<^verbatim>\<open>getColorHex\<close>: the static table, with \<^verbatim>\<open>#808080\<close> for a name it does not hold.\<close>

definition colorHexTable :: "(string \<times> string) list" where
  "colorHexTable =
    [(''Pearl White'', ''#F8F8FF''), (''White'', ''#FFFFFF''), (''Silver'', ''#C0C0C0''),
     (''Light Gray'', ''#D3D3D3''), (''Medium Gray'', ''#A9A9A9''), (''Gray'', ''#808080''),
     (''Dark Gray'', ''#505050''), (''Charcoal'', ''#36454F''), (''Black'', ''#1C1C1C''),
     (''Cream'', ''#FFFDD0''), (''Beige'', ''#F5F5DC''), (''Tan'', ''#D2B48C''),
     (''Light Brown'', ''#CD853F''), (''Brown'', ''#8B4513''), (''Dark Brown'', ''#654321''),
     (''Chocolate'', ''#7B3F00''),
     (''Light Pink'', ''#FFB6C1''), (''Rose'', ''#FF69B4''), (''Light Red'', ''#FF6B6B''),
     (''Red'', ''#DC143C''), (''Crimson'', ''#DC143C''), (''Dark Red'', ''#8B0000''),
     (''Maroon'', ''#800000''),
     (''Pink'', ''#FFC0CB''), (''Hot Pink'', ''#FF1493''), (''Fuchsia'', ''#FF00FF''),
     (''Magenta'', ''#FF00FF''), (''Deep Pink'', ''#FF1493''),
     (''Peach'', ''#FFCBA4''), (''Light Orange'', ''#FFA500''), (''Orange'', ''#FF8C00''),
     (''Burnt Orange'', ''#CC5500''), (''Dark Orange'', ''#FF8C00''), (''Rust'', ''#B7410E''),
     (''Light Yellow'', ''#FFFFE0''), (''Yellow'', ''#FFD700''), (''Gold'', ''#FFD700''),
     (''Mustard'', ''#FFDB58''), (''Amber'', ''#FFBF00''),
     (''Lime'', ''#00FF00''), (''Mint Green'', ''#98FB98''), (''Light Green'', ''#90EE90''),
     (''Green'', ''#228B22''), (''Forest Green'', ''#228B22''), (''Emerald'', ''#50C878''),
     (''Seafoam'', ''#9FE2BF''), (''Teal'', ''#008080''), (''Dark Teal'', ''#003D3D''),
     (''Turquoise'', ''#40E0D0''), (''Cyan'', ''#00FFFF''), (''Dark Green'', ''#006400''),
     (''Sky Blue'', ''#87CEEB''), (''Light Blue'', ''#ADD8E6''), (''Blue'', ''#4169E1''),
     (''Royal Blue'', ''#4169E1''), (''Cobalt'', ''#0047AB''), (''Navy'', ''#000080''),
     (''Dark Navy'', ''#000080''), (''Midnight Blue'', ''#191970''),
     (''Periwinkle'', ''#CCCCFF''), (''Indigo'', ''#4B0082''), (''Dark Blue'', ''#00008B''),
     (''Lavender'', ''#E6E6FA''), (''Light Purple'', ''#DDA0DD''), (''Purple'', ''#800080''),
     (''Violet'', ''#8A2BE2''), (''Plum'', ''#DDA0DD''), (''Dark Purple'', ''#4B0082''),
     (''Mixed'', ''#808080'')]"

definition getColorHex :: "string \<Rightarrow> string" where
  "getColorHex colorName =
     (case map_of colorHexTable colorName of Some hex \<Rightarrow> hex | None \<Rightarrow> ''#808080'')"

subsection \<open>Colour taxonomy in rounded arithmetic\<close>

text \<open>The same functions with the rounding of their arithmetic made explicit: \<open>rd\<close>
  stands for the rounding of a number to a double. It is applied to the result of every
  arithmetic operation of \<^verbatim>\<open>rgbToHsl\<close> and to every decimal literal of the two
  functions; the whole numbers of the source are doubles as they stand, and
  \<^verbatim>\<open>Math.max\<close>, \<^verbatim>\<open>Math.min\<close> and the comparisons do not round. With the identity
  for \<open>rd\<close> these are the functions above.\<close>

definition rgbToHslRounded ::
  "(real \<Rightarrow> real) \<Rightarrow> real \<Rightarrow> real \<Rightarrow> real \<Rightarrow> real \<times> real \<times> real" where
  "rgbToHslRounded rd r0 g0 b0 =
     (let r = rd (r0 / 255); g = rd (g0 / 255); b = rd (b0 / 255);
          mx = max (max r g) b;
          mn = min (min r g) b;
          diff = rd (mx - mn);
          l = rd (rd (mx + mn) / 2)
      in if diff \<noteq> 0 then
           (let s = (if l > rd 0.5 then rd (diff / rd (rd (2 - mx) - mn))
                     else rd (diff / rd (mx + mn)));
                h = (if mx = r
                     then rd (rd (rd (rd (g - b) / diff) + (if g < b then 6 else 0)) / 6)
                     else if mx = g then rd (rd (rd (rd (b - r) / diff) + 2) / 6)
                     else rd (rd (rd (rd (r - g) / diff) + 4) / 6))
            in (rd (h * 360), s, l))
         else (rd (0 * 360), 0, l))"

definition grayscaleNameRounded :: "(real \<Rightarrow> real) \<Rightarrow> real \<Rightarrow> string" where
  "grayscaleNameRounded rd l =
     (if l > rd 0.85 then ''Pearl White''
      else if l > rd 0.75 then ''Silver''
      else if l > rd 0.65 then ''Light Gray''
      else if l > rd 0.55 then ''Medium Gray''
      else if l > rd 0.45 then ''Gray''
      else if l > rd 0.35 then ''Dark Gray''
      else if l > rd 0.25 then ''Charcoal''
      else ''Black'')"

definition greenBandRounded :: "(real \<Rightarrow> real) \<Rightarrow> real \<Rightarrow> real \<Rightarrow> real \<Rightarrow> string option" where
  "greenBandRounded rd h s l =
     (if h \<ge> 70 \<and> h < 170 \<and> s \<ge> rd 0.1 then
        (if h \<ge> 70 \<and> h < 90 then
           Some (if l > rd 0.7 then ''Lime'' else if l > rd 0.6 then ''Light Green''
                 else if l > rd 0.5 then ''Green'' else if l > rd 0.4 then ''Forest Green''
                 else ''Dark Green'')
         else if h \<ge> 90 \<and> h < 120 then
           Some (if l > rd 0.7 then ''Mint Green'' else if l > rd 0.6 then ''Light Green''
                 else if l > rd 0.5 then ''Green'' else if l > rd 0.4 then ''Emerald''
                 else ''Dark Green'')
         else if h \<ge> 120 \<and> h < 150 then
           Some (if l > rd 0.7 then ''Seafoam'' else if l > rd 0.6 then ''Light Green''
                 else if l > rd 0.5 then ''Teal'' else if l > rd 0.4 then ''Green''
                 else ''Dark Teal'')
         else if h \<ge> 150 \<and> h < 170 then
           Some (if l > rd 0.6 then ''Turquoise'' else if l > rd 0.5 then ''Cyan''
                 else if l > rd 0.4 then ''Teal'' else ''Dark Teal'')
         else None)
      else None)"

definition blueBandRounded :: "(real \<Rightarrow> real) \<Rightarrow> real \<Rightarrow> real \<Rightarrow> real \<Rightarrow> string option" where
  "blueBandRounded rd h s l =
     (if h \<ge> 170 \<and> h < 260 \<and> s \<ge> rd 0.15 then
        (if h \<ge> 170 \<and> h < 200 then
           Some (if l > rd 0.7 then ''Light Blue'' else if l > rd 0.6 then ''Sky Blue''
                 else if l > rd 0.5 then ''Blue'' else if l > rd 0.4 then ''Royal Blue''
                 else if l > rd 0.3 then ''Navy'' else ''Dark Navy'')
         else if h \<ge> 200 \<and> h < 230 then
           Some (if l > rd 0.7 then ''Light Blue'' else if l > rd 0.6 then ''Blue''
                 else if l > rd 0.5 then ''Cobalt'' else if l > rd 0.4 then ''Blue''
                 else if l > rd 0.3 then ''Navy'' else ''Midnight Blue'')
         else if h \<ge> 230 \<and> h < 260 then
           Some (if l > rd 0.7 then ''Periwinkle'' else if l > rd 0.6 then ''Light Blue''
                 else if l > rd 0.5 then ''Blue'' else if l > rd 0.4 then ''Indigo''
                 else ''Dark Blue'')
         else None)
      else None)"

definition purpleBandRounded :: "(real \<Rightarrow> real) \<Rightarrow> real \<Rightarrow> real \<Rightarrow> real \<Rightarrow> string option" where
  "purpleBandRounded rd h s l =
     (if h \<ge> 260 \<and> h < 300 \<and> s \<ge> rd 0.15 then
        (if h \<ge> 260 \<and> h < 280 then
           Some (if l > rd 0.7 then ''Lavender'' else if l > rd 0.6 then ''Light Purple''
                 else if l > rd 0.5 then ''Purple'' else if l > rd 0.4 then ''Violet''
                 else ''Dark Purple'')
         else if h \<ge> 280 \<and> h < 300 then
           Some (if l > rd 0.7 then ''Light Purple'' else if l > rd 0.6 then ''Purple''
                 else if l > rd 0.5 then ''Plum'' else if l > rd 0.4 then ''Purple''
                 else ''Dark Purple'')
         else None)
      else None)"

definition colorNameOfHslRounded :: "(real \<Rightarrow> real) \<Rightarrow> real \<Rightarrow> real \<Rightarrow> real \<Rightarrow> string" where
  "colorNameOfHslRounded rd h s l =
     (if l < rd 0.12 then ''Black''
      else if l > rd 0.88 \<and> s < rd 0.15 then ''White''
      else if s < rd 0.08 then grayscaleNameRounded rd l
      else if s \<ge> rd 0.08 \<and> s < rd 0.4 \<and> h \<ge> 15 \<and> h < 55 then
        (if l > rd 0.7 then ''Cream'' else if l > rd 0.6 then ''Beige''
         else if l > rd 0.5 then ''Tan'' else if l > rd 0.4 then ''Light Brown''
         else if l > rd 0.3 then ''Brown'' else if l > rd 0.2 then ''Dark Brown''
         else ''Chocolate'')
      else if (h \<ge> 340 \<or> h < 20) \<and> s \<ge> rd 0.12 then
        (if l > rd 0.75 then ''Light Pink'' else if l > rd 0.65 then ''Rose''
         else if l > rd 0.55 then ''Light Red'' else if l > rd 0.45 then ''Red''
         else if l > rd 0.35 then ''Crimson'' else if l > rd 0.25 then ''Dark Red''
         else ''Maroon'')
      else if h \<ge> 300 \<and> h < 340 \<and> s \<ge> rd 0.15 then
        (if l > rd 0.75 then ''Light Pink'' else if l > rd 0.65 then ''Pink''
         else if l > rd 0.55 then ''Hot Pink'' else if l > rd 0.45 then ''Fuchsia''
         else if l > rd 0.35 then ''Magenta'' else ''Deep Pink'')
      else if h \<ge> 10 \<and> h < 40 \<and> s \<ge> rd 0.2 then
        (if l > rd 0.75 then ''Peach'' else if l > rd 0.65 then ''Light Orange''
         else if l > rd 0.55 then ''Orange'' else if l > rd 0.45 then ''Burnt Orange''
         else if l > rd 0.35 then ''Dark Orange'' else ''Rust'')
      else if h \<ge> 40 \<and> h < 70 \<and> s \<ge> rd 0.2 then
        (if l > rd 0.8 then ''Cream'' else if l > rd 0.7 then ''Light Yellow''
         else if l > rd 0.6 then ''Yellow'' else if l > rd 0.5 then ''Gold''
         else if l > rd 0.4 then ''Mustard'' else ''Amber'')
      else (case greenBandRounded rd h s l of Some n \<Rightarrow> n
            | None \<Rightarrow> (case blueBandRounded rd h s l of Some n \<Rightarrow> n
            | None \<Rightarrow> (case purpleBandRounded rd h s l of Some n \<Rightarrow> n
            | None \<Rightarrow> ''Mixed''))))"

definition getAdvancedColorNameRounded ::
  "(real \<Rightarrow> real) \<Rightarrow> real \<Rightarrow> real \<Rightarrow> real \<Rightarrow> string" where
  "getAdvancedColorNameRounded rd r g b =
     (case rgbToHslRounded rd r g b of (h, s, l) \<Rightarrow> colorNameOfHslRounded rd h s l)"

text \<open>The lightness and the saturation of a byte triple in the HSL colour model, by its
  standard formulas: with \<open>max\<close> and \<open>min\<close> the largest and the smallest channel
  divided by 255, the lightness \<open>l\<close> is \<open>(max + min) / 2\<close>, and the saturation is
  \<open>(max - min) / (1 - \<bar>2 l - 1\<bar>)\<close>, or 0 when the three channels are equal.\<close>

definition hslLightness :: "nat \<Rightarrow> nat \<Rightarrow> nat \<Rightarrow> real" where
  "hslLightness r g b =
     (real (max (max r g) b) / 255 + real (min (min r g) b) / 255) / 2"

definition hslSaturation :: "nat \<Rightarrow> nat \<Rightarrow> nat \<Rightarrow> real" where
  "hslSaturation r g b =
     (let mx = real (max (max r g) b) / 255; mn = real (min (min r g) b) / 255
      in if mx = mn then 0 else (mx - mn) / (1 - \<bar>2 * hslLightness r g b - 1\<bar>))"

text \<open>A rounding that keeps zero and moves a number of absolute value at most 8 by at
  most \<open>1 / 2 ^ 50\<close>. The identity is one, and so is rounding to the nearest double
  (\<open>roundDouble\<close> below), which is exact at zero and has a relative error of at most
  \<open>1 / 2 ^ 53\<close>.\<close>

definition roundsNear :: "(real \<Rightarrow> real) \<Rightarrow> bool" where
  "roundsNear rd \<longleftrightarrow> rd 0 = 0 \<and> (\<forall>x. \<bar>x\<bar> \<le> 8 \<longrightarrow> \<bar>rd x - x\<bar> \<le> 1 / 2 ^ 50)"

text \<open>Rounding to the nearest double (IEEE 754 binary64, ties to even) of a number
  below the overflow threshold: a number of binary exponent \<open>e\<close> is rounded to a
  multiple of \<open>2 ^ (e - 52)\<close>, where \<open>e\<close> is at least \<open>-1022\<close>, the exponent of
  the subnormal doubles.\<close>


definition roundHalfEven :: "real \<Rightarrow> int" where
  "roundHalfEven y =
     (let f = \<lfloor>y\<rfloor>
      in if y - real_of_int f < 1 / 2 then f
         else if y - real_of_int f > 1 / 2 then f + 1
         else if even f then f else f + 1)"

definition roundDouble :: "real \<Rightarrow> real" where
  "roundDouble x =
     (if x = 0 then 0
      else (let e = max (- 1022) \<lfloor>log 2 \<bar>x\<bar>\<rfloor>;
                ulp = 2 powr (real_of_int e - 52)
            in real_of_int (roundHalfEven (x / ulp)) * ulp))"

subsection \<open>Pixel sampling and the histogram\<close>

text \<open>\<^verbatim>\<open>data[i]\<close> on a \<^verbatim>\<open>Uint8ClampedArray\<close>: the byte, or \<^verbatim>\<open>undefined\<close>
  (here \<open>None\<close>) past the end.\<close>

definition byteAt :: "nat list \<Rightarrow> nat \<Rightarrow> nat option" where
  "byteAt data i = (if i < length data then Some (data ! i) else None)"

text \<open>\<^verbatim>\<open>colorCounts[colorName] = (colorCounts[colorName] || 0) + 1\<close>: an existing key keeps
  its place, a new key is appended.\<close>

fun bump :: "(string \<times> nat) list \<Rightarrow> string \<Rightarrow> (string \<times> nat) list" where
  "bump [] k = [(k, 1)]"
| "bump ((k', n) # rest) k = (if k' = k then (k', n + 1) # rest else (k', n) # bump rest k)"

text \<open>The filter of the strategy loop:
  \<^verbatim>\<open>a > 50 && brightness > 2 && brightness < 255\<close> with
  \<^verbatim>\<open>brightness = (r + g + b) / 3\<close>.\<close>

definition strategyPixelValid :: "nat \<Rightarrow> nat \<Rightarrow> nat \<Rightarrow> nat \<Rightarrow> bool" where
  "strategyPixelValid r g b a =
     (let brightness = (real r + real g + real b) / 3
      in a > 50 \<and> brightness > 2 \<and> brightness < 255)"

text \<open>One round of the loop body at byte offset \<open>i\<close>. A channel that reads
  \<^verbatim>\<open>undefined\<close> makes each comparison false, so the pixel is not counted.\<close>

definition strategyVisit :: "nat list \<Rightarrow> nat \<Rightarrow> (string \<times> nat) list \<times> nat \<Rightarrow> (string \<times> nat) list \<times> nat" where
  "strategyVisit data i acc =
     (case (byteAt data i, byteAt data (i + 1), byteAt data (i + 2), byteAt data (i + 3)) of
        (Some r, Some g, Some b, Some a) \<Rightarrow>
          (if strategyPixelValid r g b a
           then (bump (fst acc) (getAdvancedColorName (real r) (real g) (real b)), snd acc + 1)
           else acc)
      | _ \<Rightarrow> acc)"

text \<open>\<^verbatim>\<open>for (let i = 0; i < data.length; i += 8)\<close>; the pair is
  \<^verbatim>\<open>(colorCounts, totalValidPixels)\<close>.\<close>

function strategyLoop :: "nat list \<Rightarrow> nat \<Rightarrow> (string \<times> nat) list \<times> nat \<Rightarrow> (string \<times> nat) list \<times> nat" where
  "strategyLoop data i acc =
     (if i < length data then strategyLoop data (i + 8) (strategyVisit data i acc) else acc)"
  by pat_completeness auto
termination
  by (relation "measure (\<lambda>(data, i, acc). length data - i)") auto

declare strategyLoop.simps [simp del]

text \<open>The byte offsets the loop reads a pixel at, in order.\<close>

function strategyOffsets :: "nat \<Rightarrow> nat \<Rightarrow> nat list" where
  "strategyOffsets len i = (if i < len then i # strategyOffsets len (i + 8) else [])"
  by pat_completeness auto
termination
  by (relation "measure (\<lambda>(len, i). len - i)") auto

declare strategyOffsets.simps [simp del]

text \<open>The sampler of the centre-crop fallback:
  \<^verbatim>\<open>for (let i = 0; i < data.length; i += 16)\<close> with the filter
  \<^verbatim>\<open>a > 30 && (r + g + b) / 3 > 1\<close>.\<close>

definition centerPixelValid :: "nat \<Rightarrow> nat \<Rightarrow> nat \<Rightarrow> nat \<Rightarrow> bool" where
  "centerPixelValid r g b a = (a > 30 \<and> (real r + real g + real b) / 3 > 1)"

definition centerVisit :: "nat list \<Rightarrow> nat \<Rightarrow> (string \<times> nat) list \<times> nat \<Rightarrow> (string \<times> nat) list \<times> nat" where
  "centerVisit data i acc =
     (case (byteAt data i, byteAt data (i + 1), byteAt data (i + 2), byteAt data (i + 3)) of
        (Some r, Some g, Some b, Some a) \<Rightarrow>
          (if centerPixelValid r g b a
           then (bump (fst acc) (getAdvancedColorName (real r) (real g) (real b)), snd acc + 1)
           else acc)
      | _ \<Rightarrow> acc)"

function centerLoop :: "nat list \<Rightarrow> nat \<Rightarrow> (string \<times> nat) list \<times> nat \<Rightarrow> (string \<times> nat) list \<times> nat" where
  "centerLoop data i acc =
     (if i < length data then centerLoop data (i + 16) (centerVisit data i acc) else acc)"
  by pat_completeness auto
termination
  by (relation "measure (\<lambda>(data, i, acc). length data - i)") auto

declare centerLoop.simps [simp del]

subsection \<open>Dominant colour of a histogram\<close>

text \<open>\<^verbatim>\<open>Object.entries(colorCounts).sort((a, b) => b[1] - a[1])\<close>: a stable sort by
  descending count, written as the insertion of each entry, last first, in front of the
  first entry whose count is not larger.\<close>

fun insertByCount :: "string \<times> nat \<Rightarrow> (string \<times> nat) list \<Rightarrow> (string \<times> nat) list" where
  "insertByCount e [] = [e]"
| "insertByCount e (e' # es) = (if snd e \<ge> snd e' then e # e' # es else e' # insertByCount e es)"

definition sortByCount :: "(string \<times> nat) list \<Rightarrow> (string \<times> nat) list" where
  "sortByCount entries = foldr insertByCount entries []"

definition blackColors :: "string list" where
  "blackColors = [''Black'', ''Dark Gray'', ''Charcoal'', ''Mixed'']"

definition coloredPixels :: "(string \<times> nat) list \<Rightarrow> (string \<times> nat) list" where
  "coloredPixels sortedColors = filter (\<lambda>e. fst e \<notin> set blackColors) sortedColors"

definition totalColoredPixels :: "(string \<times> nat) list \<Rightarrow> nat" where
  "totalColoredPixels sortedColors = sum_list (map snd (coloredPixels sortedColors))"

text \<open>The block "Find dominant color" of a strategy: the pair
  \<^verbatim>\<open>(dominantColor, maxCount)\<close> from the histogram and \<^verbatim>\<open>totalValidPixels\<close>.\<close>

definition dominantOfStrategy :: "(string \<times> nat) list \<Rightarrow> nat \<Rightarrow> string \<times> nat" where
  "dominantOfStrategy colorCounts totalValidPixels =
     (let sortedColors = sortByCount colorCounts in
      if length sortedColors > 0 then
        (let colored = coloredPixels sortedColors;
             top = (if real (totalColoredPixels sortedColors) > real totalValidPixels * 0.3
                       \<and> length colored > 0
                    then hd colored else hd sortedColors)
         in if fst top = ''Mixed'' \<and> length sortedColors > 1 then sortedColors ! 1 else top)
      else (''Unknown'', 0))"

text \<open>\<^verbatim>\<open>totalValidPixels > 50 ? Math.min(maxCount / totalValidPixels, 0.95) : 0.4\<close>\<close>

definition strategyConfidence :: "nat \<Rightarrow> nat \<Rightarrow> real" where
  "strategyConfidence maxCount totalValidPixels =
     (if totalValidPixels > 50 then min (real maxCount / real totalValidPixels) 0.95 else 0.4)"

text \<open>The same block of the centre-crop fallback, entered only when
  \<^verbatim>\<open>totalPixels > 5\<close>; it has no substitution for \<^verbatim>\<open>Mixed\<close>. With an empty
  histogram \<^verbatim>\<open>sortedColors[0][0]\<close> raises, which the fallback's \<^verbatim>\<open>catch\<close> takes:
  \<open>None\<close> here.\<close>

definition dominantOfCenter :: "(string \<times> nat) list \<Rightarrow> nat \<Rightarrow> (string \<times> nat) option" where
  "dominantOfCenter colorCounts totalPixels =
     (let sortedColors = sortByCount colorCounts;
          colored = coloredPixels sortedColors
      in if real (totalColoredPixels sortedColors) > real totalPixels * 0.3 \<and> length colored > 0
         then Some (hd colored)
         else (case sortedColors of [] \<Rightarrow> None | e # _ \<Rightarrow> Some e))"

subsection \<open>Text of numbers\<close>

definition digitChar :: "nat \<Rightarrow> char" where
  "digitChar d = ''0123456789'' ! d"

function showNat :: "nat \<Rightarrow> string" where
  "showNat n = (if n < 10 then [digitChar n] else showNat (n div 10) @ [digitChar (n mod 10)])"
  by pat_completeness auto
termination
  by (relation "measure id") auto

declare showNat.simps [simp del]

text \<open>\<^verbatim>\<open>Array.prototype.join\<close>\<close>

fun joinWith :: "string \<Rightarrow> string list \<Rightarrow> string" where
  "joinWith sep [] = []"
| "joinWith sep [x] = x"
| "joinWith sep (x # y # ys) = x @ sep @ joinWith sep (y # ys)"

text \<open>The text after "Top colors: ": the three most frequent entries as
  \<^verbatim>\<open>name(count)\<close>.\<close>

definition topColorsText :: "(string \<times> nat) list \<Rightarrow> string" where
  "topColorsText colorCounts =
     joinWith '', ''
       (map (\<lambda>e. fst e @ ''('' @ showNat (snd e) @ '')'') (take 3 (sortByCount colorCounts)))"

subsection \<open>Sampling regions\<close>

text \<open>A bounding box is the tuple \<^verbatim>\<open>[x, y, width, height]\<close>; a region is the source
  rectangle handed to \<^verbatim>\<open>drawImage\<close>.\<close>

type_synonym bbox = "real \<times> real \<times> real \<times> real"

record region =
  regionX :: real
  regionY :: real
  regionW :: real
  regionH :: real

definition strategies :: "bbox \<Rightarrow> (string \<times> region) list" where
  "strategies bbox =
     (case bbox of (x, y, width, height) \<Rightarrow>
        [(''Full Vehicle (Adjusted)'',
          \<lparr>regionX = x, regionY = max 0 (y - height * 0.3),
           regionW = width, regionH = height * 1.3\<rparr>),
         (''Upper Body Area'',
          \<lparr>regionX = x + width * 0.05, regionY = max 0 (y - height * 0.05),
           regionW = width * 0.9, regionH = height * 0.8\<rparr>),
         (''Main Body Panel'',
          \<lparr>regionX = x + width * 0.1, regionY = y,
           regionW = width * 0.8, regionH = height * 0.7\<rparr>)])"

text \<open>The rectangle of the centre-crop fallback
  (\<^verbatim>\<open>centerSampleX, centerSampleY, centerW, centerH\<close>).\<close>

definition centerRegion :: "bbox \<Rightarrow> region" where
  "centerRegion bbox =
     (case bbox of (x, y, width, height) \<Rightarrow>
        (let centerX = x + width / 2;
             centerY = y + height / 2;
             centerW = max 20 (real_of_int \<lfloor>width * 0.4\<rfloor>);
             centerH = max 20 (real_of_int \<lfloor>height * 0.3\<rfloor>)
         in \<lparr>regionX = centerX - centerW / 2, regionY = centerY - centerH / 2,
             regionW = centerW, regionH = centerH\<rparr>))"

subsection \<open>Colour extraction\<close>

text \<open>
  The media surface is what the function is given besides the box. \<open>createContext fr k\<close>
  is the outcome of \<^verbatim>\<open>document.createElement("canvas")\<close> and
  \<^verbatim>\<open>getContext("2d")\<close> for the \<open>k\<close>-th canvas the call creates (one for each of the
  three strategies, then one for the fallback): \<open>Inl\<close> when it raises, \<open>Inr False\<close> when
  the context is \<^verbatim>\<open>null\<close>. \<open>readRegion fr r\<close> is the outcome of drawing the source
  rectangle \<open>r\<close> and reading it back (\<^verbatim>\<open>drawImage\<close>, \<^verbatim>\<open>toDataURL\<close>,
  \<^verbatim>\<open>getImageData\<close>): \<open>Inl\<close> when one of them raises, else the RGBA bytes. The field
  \<^verbatim>\<open>debugImage\<close> of the result, a picture for display, is left out; the field
  \<open>methodUsed\<close> is the source's \<^verbatim>\<open>method\<close>.
\<close>

record frame =
  createContext :: "nat \<Rightarrow> string + bool"
  readRegion :: "region \<Rightarrow> string + nat list"

datatype colorMethod = ApiAi | PixelAnalysis | Fallback

record colorResult =
  color :: string
  colorHex :: string
  confidence :: real
  methodUsed :: colorMethod
  debugInfo :: "string option"

text \<open>\<^verbatim>\<open>String.prototype.toLowerCase\<close> and \<^verbatim>\<open>toUpperCase\<close> on the ASCII letters.\<close>

definition upperLetters :: string where
  "upperLetters = ''ABCDEFGHIJKLMNOPQRSTUVWXYZ''"

definition lowerLetters :: string where
  "lowerLetters = ''abcdefghijklmnopqrstuvwxyz''"

definition toLowerCaseChar :: "char \<Rightarrow> char" where
  "toLowerCaseChar c =
     (case map_of (zip upperLetters lowerLetters) c of Some d \<Rightarrow> d | None \<Rightarrow> c)"

definition toUpperCaseChar :: "char \<Rightarrow> char" where
  "toUpperCaseChar c =
     (case map_of (zip lowerLetters upperLetters) c of Some d \<Rightarrow> d | None \<Rightarrow> c)"

definition toLowerCase :: "string \<Rightarrow> string" where
  "toLowerCase s = map toLowerCaseChar s"

definition fallbackColorMap :: "(string \<times> string \<times> string) list" where
  "fallbackColorMap =
     [(''car'', ''Silver'', ''#C0C0C0''),
      (''truck'', ''White'', ''#FFFFFF''),
      (''bus'', ''Yellow'', ''#FFD700''),
      (''motorcycle'', ''Black'', ''#333333''),
      (''bicycle'', ''Blue'', ''#4169E1''),
      (''airplane'', ''White'', ''#F5F5F5''),
      (''boat'', ''White'', ''#FAFAFA''),
      (''train'', ''Gray'', ''#808080'')]"

text \<open>\<^verbatim>\<open>getFallbackColor\<close> returns no \<^verbatim>\<open>debugInfo\<close>; its callers add one. The
  lookup is that of the table's own eight keys (the callers pass a class of
  \<open>vehicleClasses\<close>). The source looks the lower-cased class up with
  \<^verbatim>\<open>colorMap[key]\<close>, which also finds the properties every JavaScript object
  inherits; the only such names that are their own lower case are those of
  \<open>inheritedKeys\<close>, for which the definition below does not describe the source.\<close>

definition inheritedKeys :: "string list" where
  "inheritedKeys = [''constructor'', ''__proto__'']"

definition getFallbackColor :: "string \<Rightarrow> colorResult" where
  "getFallbackColor vehicleType =
     (case (case map_of fallbackColorMap (toLowerCase vehicleType) of
              Some e \<Rightarrow> e | None \<Rightarrow> (''Gray'', ''#808080'')) of
        (c, hex) \<Rightarrow>
          \<lparr>color = c, colorHex = hex, confidence = 0.3, methodUsed = Fallback, debugInfo = None\<rparr>)"

text \<open>What one strategy computes from the bytes of its region, up to the candidate for
  \<^verbatim>\<open>bestResult\<close>.\<close>

definition strategyResult :: "string \<Rightarrow> nat list \<Rightarrow> colorResult" where
  "strategyResult name data =
     (case strategyLoop data 0 ([], 0) of (colorCounts, totalValidPixels) \<Rightarrow>
      (case dominantOfStrategy colorCounts totalValidPixels of (dominantColor, maxCount) \<Rightarrow>
        \<lparr>color = dominantColor,
         colorHex = getColorHex dominantColor,
         confidence = strategyConfidence maxCount totalValidPixels,
         methodUsed = PixelAnalysis,
         debugInfo = Some (''Strategy: '' @ name @ '', Pixels: '' @ showNat totalValidPixels
                           @ '', Top colors: '' @ topColorsText colorCounts)\<rparr>))"

text \<open>\<^verbatim>\<open>if (!bestResult || confidence > bestResult.confidence) bestResult = ...\<close>\<close>

definition keepBest :: "colorResult option \<Rightarrow> colorResult \<Rightarrow> colorResult option" where
  "keepBest bestResult r =
     (case bestResult of
        None \<Rightarrow> Some r
      | Some b \<Rightarrow> if confidence r > confidence b then Some r else Some b)"

text \<open>The \<^verbatim>\<open>for (const strategy of strategies)\<close> loop. Creating the canvas is outside
  the inner \<^verbatim>\<open>try\<close>, so its exception leaves the loop; a \<^verbatim>\<open>null\<close> context
  and an exception inside the \<^verbatim>\<open>try\<close> go on with the next strategy.\<close>

fun strategyPass :: "frame \<Rightarrow> nat \<Rightarrow> (string \<times> region) list \<Rightarrow> colorResult option
                     \<Rightarrow> string + colorResult option" where
  "strategyPass fr k [] bestResult = Inr bestResult"
| "strategyPass fr k (strategy # rest) bestResult =
     (case createContext fr k of
        Inl err \<Rightarrow> Inl err
      | Inr ctx \<Rightarrow>
          if \<not> ctx then strategyPass fr (k + 1) rest bestResult
          else (case readRegion fr (snd strategy) of
                  Inl err \<Rightarrow> strategyPass fr (k + 1) rest bestResult
                | Inr data \<Rightarrow>
                    strategyPass fr (k + 1) rest
                      (keepBest bestResult (strategyResult (fst strategy) data))))"

text \<open>The centre-crop fallback, all of it inside one \<^verbatim>\<open>try\<close>: \<open>None\<close> when it
  returns nothing (an exception, a \<^verbatim>\<open>null\<close> context, too few pixels).\<close>

definition centerFallback :: "frame \<Rightarrow> bbox \<Rightarrow> colorResult option" where
  "centerFallback fr bbox =
     (case createContext fr 3 of
        Inl err \<Rightarrow> None
      | Inr ctx \<Rightarrow>
          if \<not> ctx then None
          else (case readRegion fr (centerRegion bbox) of
                  Inl err \<Rightarrow> None
                | Inr data \<Rightarrow>
                   (case centerLoop data 0 ([], 0) of (colorCounts, totalPixels) \<Rightarrow>
                      if totalPixels > 5 then
                        (case dominantOfCenter colorCounts totalPixels of
                           None \<Rightarrow> None
                         | Some (dominantColor, maxCount) \<Rightarrow>
                             if dominantColor \<noteq> ''Unknown'' then
                               Some \<lparr>color = dominantColor,
                                     colorHex = getColorHex dominantColor,
                                     confidence = 0.3,
                                     methodUsed = PixelAnalysis,
                                     debugInfo = Some (''Fallback center sampling: '' @ dominantColor)\<rparr>
                             else None)
                      else None)))"

text \<open>The body of the outer \<^verbatim>\<open>try\<close>: \<open>Inl\<close> is an exception that reaches the outer
  \<^verbatim>\<open>catch\<close>.\<close>

definition finalFallback :: "frame \<Rightarrow> bbox \<Rightarrow> string \<Rightarrow> colorResult" where
  "finalFallback fr bbox vehicleType =
     (case centerFallback fr bbox of
        Some r \<Rightarrow> r
      | None \<Rightarrow> (getFallbackColor vehicleType)
                  \<lparr>debugInfo := Some ''All strategies failed, using fallback''\<rparr>)"

definition extractBody :: "frame \<Rightarrow> bbox \<Rightarrow> string \<Rightarrow> string + colorResult" where
  "extractBody fr bbox vehicleType =
     (case strategyPass fr 0 (strategies bbox) None of
        Inl err \<Rightarrow> Inl err
      | Inr bestResult \<Rightarrow>
          (case bestResult of
             Some b \<Rightarrow> if confidence b > 0.2 then Inr b
                       else Inr (finalFallback fr bbox vehicleType)
           | None \<Rightarrow> Inr (finalFallback fr bbox vehicleType)))"

definition extractDominantColorWithDebug :: "frame \<Rightarrow> bbox \<Rightarrow> string \<Rightarrow> colorResult" where
  "extractDominantColorWithDebug fr bbox vehicleType =
     (case extractBody fr bbox vehicleType of
        Inr r \<Rightarrow> r
      | Inl err \<Rightarrow> (getFallbackColor vehicleType) \<lparr>debugInfo := Some (''Error: '' @ err)\<rparr>)"

subsection \<open>Frame standardisation and coordinate rescaling\<close>

text \<open>
  An image element is given by its natural size; the model covers a loaded image, whose
  natural width and height are positive. \<^verbatim>\<open>HTMLCanvasElement.width\<close> and
  \<^verbatim>\<open>height\<close> are attributes of type \<^verbatim>\<open>unsigned long\<close> (the interface declares
  \<^verbatim>\<open>attribute unsigned long width\<close> and \<^verbatim>\<open>attribute unsigned long height\<close>): a
  number assigned to them is truncated to an integer, and reading them gives that integer
  (\<^verbatim>\<open>canvas.height = 560.8\<close> leaves \<^verbatim>\<open>canvas.height === 560\<close>). The canvas returned by
  \<^verbatim>\<open>standardizeImage\<close> therefore carries the truncated size, next to the size
  \<^verbatim>\<open>newWidth \<times> newHeight\<close> the image was drawn at by
  \<^verbatim>\<open>ctx.drawImage(imageElement, 0, 0, newWidth, newHeight)\<close>.
\<close>

record htmlImage =
  naturalWidth :: nat
  naturalHeight :: nat

record canvas =
  canvasWidth :: nat
  canvasHeight :: nat
  drawnSize :: "(real \<times> real) option"

definition toUnsignedLong :: "real \<Rightarrow> nat" where
  "toUnsignedLong v = nat \<lfloor>v\<rfloor> mod 2 ^ 32"

text \<open>\<open>ctx\<close> tells whether \<^verbatim>\<open>getContext("2d")\<close> gave a context; without one the
  fresh canvas, 300 by 150, is returned with nothing drawn.\<close>

definition standardizeImage :: "bool \<Rightarrow> htmlImage \<Rightarrow> real \<Rightarrow> real \<Rightarrow> canvas" where
  "standardizeImage ctx imageElement targetWidth targetHeight =
     (if \<not> ctx then \<lparr>canvasWidth = 300, canvasHeight = 150, drawnSize = None\<rparr>
      else
        (let aspectRatio = real (naturalWidth imageElement) / real (naturalHeight imageElement);
             newHeight = (if aspectRatio > targetWidth / targetHeight
                          then targetWidth / aspectRatio else targetHeight);
             newWidth = (if aspectRatio > targetWidth / targetHeight
                         then targetWidth else targetHeight * aspectRatio)
         in \<lparr>canvasWidth = toUnsignedLong newWidth,
             canvasHeight = toUnsignedLong newHeight,
             drawnSize = Some (newWidth, newHeight)\<rparr>))"

text \<open>Where a box of the original image lies on the standardised canvas: the image is
  drawn from the origin, scaled to \<^verbatim>\<open>newWidth \<times> newHeight\<close>.\<close>

definition drawnBox :: "htmlImage \<Rightarrow> real \<times> real \<Rightarrow> bbox \<Rightarrow> bbox" where
  "drawnBox imageElement drawn box =
     (case drawn of (newWidth, newHeight) \<Rightarrow>
      (case box of (x, y, width, height) \<Rightarrow>
        (x * newWidth / real (naturalWidth imageElement),
         y * newHeight / real (naturalHeight imageElement),
         width * newWidth / real (naturalWidth imageElement),
         height * newHeight / real (naturalHeight imageElement))))"

text \<open>The \<^verbatim>\<open>adjustedBbox\<close> of \<^verbatim>\<open>detectVehiclesInImage\<close>.\<close>

definition adjustBbox :: "htmlImage \<Rightarrow> canvas \<Rightarrow> bbox \<Rightarrow> bbox" where
  "adjustBbox imageElement standardizedCanvas box =
     (let scaleX = real (naturalWidth imageElement) / real (canvasWidth standardizedCanvas);
          scaleY = real (naturalHeight imageElement) / real (canvasHeight standardizedCanvas)
      in case box of (x, y, width, height) \<Rightarrow>
           (x * scaleX, y * scaleY, width * scaleX, height * scaleY))"

subsection \<open>Vehicle records\<close>

record detection =
  det_class :: string
  det_score :: real
  det_bbox :: bbox

record vehicleAnalysis =
  va_vehicleType :: string
  va_confidence :: int
  va_color :: string
  va_colorHex :: string
  va_colorConfidence :: int
  va_colorMethod :: colorMethod
  va_debugInfo :: "string option"

record detectedVehicle =
  dv_id :: nat
  dv_class :: string
  dv_score :: real
  dv_bbox :: bbox
  dv_color :: string
  dv_analysis :: vehicleAnalysis

text \<open>\<^verbatim>\<open>Math.round\<close>\<close>

definition mathRound :: "real \<Rightarrow> int" where
  "mathRound v = \<lfloor>v + 1 / 2\<rfloor>"

definition capitalize :: "string \<Rightarrow> string" where
  "capitalize s = (case s of [] \<Rightarrow> [] | c # cs \<Rightarrow> toUpperCaseChar c # cs)"

definition performVehicleAnalysis :: "frame \<Rightarrow> detection \<Rightarrow> vehicleAnalysis" where
  "performVehicleAnalysis fr d =
     (let vehicleType = capitalize (det_class d);
          colorData = extractDominantColorWithDebug fr (det_bbox d) (det_class d)
      in \<lparr>va_vehicleType = vehicleType,
          va_confidence = mathRound (det_score d * 100),
          va_color = color colorData,
          va_colorHex = colorHex colorData,
          va_colorConfidence = mathRound (confidence colorData * 100),
          va_colorMethod = methodUsed colorData,
          va_debugInfo = debugInfo colorData\<rparr>)"

definition vehicleClasses :: "string list" where
  "vehicleClasses =
     [''car'', ''truck'', ''bus'', ''motorcycle'', ''bicycle'', ''airplane'', ''boat'', ''train'']"

text \<open>The \<^verbatim>\<open>filter(...).map(async (detection, index) => ...)\<close> of the two passes; the
  still-image pass rescales each box first (and runs the extraction a second time, for the
  debug picture that is left out here).\<close>

definition vehicleOf :: "frame \<Rightarrow> nat \<Rightarrow> detection \<Rightarrow> bbox \<Rightarrow> detectedVehicle" where
  "vehicleOf fr index d box =
     (let analysis = performVehicleAnalysis fr (d\<lparr>det_bbox := box\<rparr>)
      in \<lparr>dv_id = index, dv_class = det_class d, dv_score = det_score d, dv_bbox = box,
          dv_color = va_colorHex analysis, dv_analysis = analysis\<rparr>)"

definition imageVehicles :: "frame \<Rightarrow> htmlImage \<Rightarrow> canvas \<Rightarrow> detection list \<Rightarrow> detectedVehicle list" where
  "imageVehicles fr imageElement standardizedCanvas predictions =
     map (\<lambda>(index, d). vehicleOf fr index d (adjustBbox imageElement standardizedCanvas (det_bbox d)))
         (enumerate 0 (filter (\<lambda>pred. det_class pred \<in> set vehicleClasses) predictions))"

definition videoVehicles :: "frame \<Rightarrow> detection list \<Rightarrow> detectedVehicle list" where
  "videoVehicles fr predictions =
     map (\<lambda>(index, d). vehicleOf fr index d (det_bbox d))
         (enumerate 0 (filter (\<lambda>pred. det_class pred \<in> set vehicleClasses) predictions))"

subsection \<open>Component state and detection passes\<close>

text \<open>
  The state of the component (its \<^verbatim>\<open>useState\<close> and \<^verbatim>\<open>useRef\<close> cells) together
  with what it reads from its host: whether the model is loaded and the media element
  mounted, the video element's \<^verbatim>\<open>paused\<close>, \<^verbatim>\<open>ended\<close> and
  \<^verbatim>\<open>currentTime\<close>, the frame callbacks that \<^verbatim>\<open>requestAnimationFrame\<close> has queued
  and that have neither run nor been cancelled, the number of handles given out so far,
  the number of calls of \<^verbatim>\<open>detectVehiclesInVideo\<close> suspended at their
  \<^verbatim>\<open>await\<close>, and whether a \<^verbatim>\<open>play()\<close> promise is pending. A handle is a positive
  integer; \<open>None\<close> in \<open>animationFrameRef\<close> is \<^verbatim>\<open>undefined\<close>. The call of the
  detector is a parameter of each pass: \<open>Inl\<close> when \<^verbatim>\<open>model.detect\<close> rejects, else
  its predictions.
\<close>

record component =
  hasModel :: bool
  hasMedia :: bool
  analyzing :: bool
  detectedVehicles :: "detectedVehicle list"
  isVideo :: bool
  currentFrame :: nat
  showAlert :: bool
  alertMessage :: string
  hasAttemptedDetection :: bool
  continuousDetection :: bool
  lastDetectionTimestamp :: "string option"
  animationFrameRef :: "nat option"
  continuousDetectionRef :: bool
  videoPaused :: bool
  videoEnded :: bool
  videoCurrentTime :: real
  pendingFrames :: "nat list"
  framesRequested :: nat
  awaitingDetector :: nat
  playRequested :: bool

definition padStart2 :: "string \<Rightarrow> string" where
  "padStart2 s = replicate (2 - length s) (CHR ''0'') @ s"

text \<open>\<^verbatim>\<open>formatVideoTime\<close>, for the non-negative times a video reports.\<close>

definition formatVideoTime :: "real \<Rightarrow> string" where
  "formatVideoTime seconds =
     (let hours = nat \<lfloor>seconds / 3600\<rfloor>;
          minutes = nat \<lfloor>(seconds - 3600 * real_of_int \<lfloor>seconds / 3600\<rfloor>) / 60\<rfloor>;
          secs = nat \<lfloor>seconds - 60 * real_of_int \<lfloor>seconds / 60\<rfloor>\<rfloor>;
          ms = nat \<lfloor>(seconds - real_of_int \<lfloor>seconds\<rfloor>) * 100\<rfloor>
      in if hours > 0
         then padStart2 (showNat hours) @ '':'' @ padStart2 (showNat minutes) @ '':''
              @ padStart2 (showNat secs) @ ''.'' @ padStart2 (showNat ms)
         else padStart2 (showNat minutes) @ '':'' @ padStart2 (showNat secs) @ ''.''
              @ padStart2 (showNat ms))"

text \<open>\<^verbatim>\<open>if (animationFrameRef.current)\<close>\<close>

definition truthy :: "nat option \<Rightarrow> bool" where
  "truthy r = (case r of None \<Rightarrow> False | Some h \<Rightarrow> h \<noteq> 0)"

definition cancelAnimationFrame :: "nat option \<Rightarrow> component \<Rightarrow> component" where
  "cancelAnimationFrame r st =
     (case r of None \<Rightarrow> st
      | Some h \<Rightarrow> st\<lparr>pendingFrames := removeAll h (pendingFrames st)\<rparr>)"

text \<open>\<^verbatim>\<open>animationFrameRef.current = requestAnimationFrame(detectVehiclesInVideo)\<close>\<close>

definition requestFrame :: "component \<Rightarrow> component" where
  "requestFrame st =
     (let h = Suc (framesRequested st)
      in st\<lparr>pendingFrames := pendingFrames st @ [h], framesRequested := h,
             animationFrameRef := Some h\<rparr>)"

text \<open>\<^verbatim>\<open>detectVehiclesInImage\<close>, with the outcome of \<^verbatim>\<open>getContext\<close> in
  \<^verbatim>\<open>standardizeImage\<close> and the outcome of the detector. Waiting for the image to load
  changes no state.\<close>

definition detectVehiclesInImage ::
    "frame \<Rightarrow> htmlImage \<Rightarrow> bool \<Rightarrow> string + detection list \<Rightarrow> component \<Rightarrow> component" where
  "detectVehiclesInImage fr imageElement ctx outcome st =
     (if \<not> hasModel st \<or> \<not> hasMedia st then st
      else
        (let st1 = st\<lparr>analyzing := True\<rparr>;
             standardizedCanvas = standardizeImage ctx imageElement 800 600;
             st2 = (case outcome of
                      Inl err \<Rightarrow>
                        st1\<lparr>alertMessage :=
                               ''An error occurred during detection. Please try another image.'',
                             showAlert := True\<rparr>
                    | Inr predictions \<Rightarrow>
                        (let vehicles = imageVehicles fr imageElement standardizedCanvas predictions;
                             st1' = (if length vehicles = 0
                                     then st1\<lparr>alertMessage := ''No vehicles detected in this image.'',
                                              showAlert := True\<rparr>
                                     else st1)
                         in st1'\<lparr>detectedVehicles := vehicles\<rparr>))
         in st2\<lparr>analyzing := False, hasAttemptedDetection := True\<rparr>))"

text \<open>\<^verbatim>\<open>detectCurrentVideoFrame\<close> up to its \<^verbatim>\<open>await model.detect\<close> (\<open>None\<close>: it
  returned at its guard), and from there on.\<close>

definition detectCurrentVideoFrame_begin :: "component \<Rightarrow> component option" where
  "detectCurrentVideoFrame_begin st =
     (if \<not> hasModel st \<or> \<not> hasMedia st \<or> \<not> isVideo st then None
      else Some (st\<lparr>lastDetectionTimestamp := Some (formatVideoTime (videoCurrentTime st))\<rparr>))"

definition detectCurrentVideoFrame_finish ::
    "frame \<Rightarrow> string + detection list \<Rightarrow> component \<Rightarrow> component" where
  "detectCurrentVideoFrame_finish fr outcome st =
     (case outcome of
        Inl err \<Rightarrow> st\<lparr>alertMessage := ''An error occurred during detection.'', showAlert := True\<rparr>
      | Inr predictions \<Rightarrow>
          (let vehicles = videoVehicles fr predictions;
               st' = (if length vehicles = 0
                      then st\<lparr>alertMessage := ''No vehicles detected in this frame.'',
                              showAlert := True\<rparr>
                      else st)
           in st'\<lparr>detectedVehicles := vehicles, hasAttemptedDetection := True\<rparr>))"

definition detectCurrentVideoFrame ::
    "frame \<Rightarrow> string + detection list \<Rightarrow> component \<Rightarrow> component" where
  "detectCurrentVideoFrame fr outcome st =
     (case detectCurrentVideoFrame_begin st of
        None \<Rightarrow> st
      | Some st1 \<Rightarrow> detectCurrentVideoFrame_finish fr outcome st1)"

definition handleDetectCurrentFrame ::
    "frame \<Rightarrow> string + detection list \<Rightarrow> component \<Rightarrow> component" where
  "handleDetectCurrentFrame fr outcome st =
     (if \<not> isVideo st \<or> \<not> hasMedia st then st
      else (detectCurrentVideoFrame fr outcome (st\<lparr>analyzing := True\<rparr>))\<lparr>analyzing := False\<rparr>)"

subsection \<open>Continuous detection\<close>

text \<open>The end of \<^verbatim>\<open>detectVehiclesInVideo\<close>: "Continue the loop".\<close>

definition detectVehiclesInVideo_continue :: "component \<Rightarrow> component" where
  "detectVehiclesInVideo_continue st =
     (if continuousDetectionRef st \<and> \<not> videoPaused st \<and> \<not> videoEnded st
         \<and> hasModel st \<and> hasMedia st
      then requestFrame st else st)"

text \<open>A call of \<^verbatim>\<open>detectVehiclesInVideo\<close> up to the detector's \<^verbatim>\<open>await\<close>, where it
  is suspended and counted in \<open>awaitingDetector\<close>.\<close>

definition detectVehiclesInVideo_begin :: "component \<Rightarrow> component" where
  "detectVehiclesInVideo_begin st =
     (if \<not> hasModel st \<or> \<not> hasMedia st \<or> \<not> isVideo st then st
      else if videoEnded st
        then st\<lparr>analyzing := False, continuousDetection := False,
                continuousDetectionRef := False\<rparr>
      else if \<not> continuousDetectionRef st then st\<lparr>analyzing := False\<rparr>
      else if videoPaused st then st\<lparr>analyzing := False\<rparr>
      else
        (let st1 = st\<lparr>currentFrame := currentFrame st + 1\<rparr>
         in case detectCurrentVideoFrame_begin st1 of
              None \<Rightarrow> detectVehiclesInVideo_continue st1
            | Some st2 \<Rightarrow> st2\<lparr>awaitingDetector := awaitingDetector st2 + 1\<rparr>))"

text \<open>A suspended call resumes when the detector settles (nothing happens when no call
  is suspended).\<close>

definition detectVehiclesInVideo_finish ::
    "frame \<Rightarrow> string + detection list \<Rightarrow> component \<Rightarrow> component" where
  "detectVehiclesInVideo_finish fr outcome st =
     (if awaitingDetector st = 0 then st
      else detectVehiclesInVideo_continue
             (detectCurrentVideoFrame_finish fr outcome
                (st\<lparr>awaitingDetector := awaitingDetector st - 1\<rparr>)))"

text \<open>The host runs the queued callback with handle \<open>h\<close>.\<close>

definition frameFires :: "nat \<Rightarrow> component \<Rightarrow> component" where
  "frameFires h st =
     (if h \<in> set (pendingFrames st)
      then detectVehiclesInVideo_begin (st\<lparr>pendingFrames := removeAll h (pendingFrames st)\<rparr>)
      else st)"

text \<open>\<^verbatim>\<open>toggleContinuousDetection\<close>: the first branch stops, the second starts. On a
  paused video the start calls \<^verbatim>\<open>play()\<close>, whose promise settles later
  (\<open>playFulfilled\<close>, \<open>playRejected\<close>).\<close>

definition toggleContinuousDetection :: "component \<Rightarrow> component" where
  "toggleContinuousDetection st =
     (if \<not> isVideo st \<or> \<not> hasMedia st then st
      else if continuousDetection st then
        (let st1 = st\<lparr>continuousDetection := False, continuousDetectionRef := False,
                      analyzing := False\<rparr>
         in if truthy (animationFrameRef st1)
            then (cancelAnimationFrame (animationFrameRef st1) st1)\<lparr>animationFrameRef := None\<rparr>
            else st1)
      else
        (let st1 = (if truthy (animationFrameRef st)
                    then (cancelAnimationFrame (animationFrameRef st) st)\<lparr>animationFrameRef := None\<rparr>
                    else st);
             st2 = st1\<lparr>continuousDetection := True, continuousDetectionRef := True,
                       analyzing := True, hasAttemptedDetection := True\<rparr>
         in if videoPaused st2 then st2\<lparr>playRequested := True\<rparr>
            else detectVehiclesInVideo_begin st2))"

definition playFulfilled :: "component \<Rightarrow> component" where
  "playFulfilled st =
     (if playRequested st then detectVehiclesInVideo_begin (st\<lparr>playRequested := False\<rparr>) else st)"

definition playRejected :: "component \<Rightarrow> component" where
  "playRejected st =
     (if playRequested st
      then st\<lparr>playRequested := False, continuousDetection := False,
              continuousDetectionRef := False, analyzing := False, showAlert := True,
              alertMessage := ''Could not start video playback for auto-detection. Try playing the video manually first.''\<rparr>
      else st)"

text \<open>The listeners for the video's \<^verbatim>\<open>pause\<close> and \<^verbatim>\<open>play\<close> events, and the
  events themselves.\<close>

definition handlePause :: "component \<Rightarrow> component" where
  "handlePause st =
     (if continuousDetection st then
        (if truthy (animationFrameRef st)
         then cancelAnimationFrame (animationFrameRef st) st else st)\<lparr>analyzing := False\<rparr>
      else st)"

definition handlePlay :: "component \<Rightarrow> component" where
  "handlePlay st =
     (if continuousDetection st then detectVehiclesInVideo_begin (st\<lparr>analyzing := True\<rparr>)
      else st)"

definition videoPauses :: "component \<Rightarrow> component" where
  "videoPauses st =
     (let st1 = st\<lparr>videoPaused := True\<rparr>
      in if isVideo st1 \<and> hasMedia st1 then handlePause st1 else st1)"

definition videoPlays :: "component \<Rightarrow> component" where
  "videoPlays st =
     (let st1 = st\<lparr>videoPaused := False\<rparr>
      in if isVideo st1 \<and> hasMedia st1 then handlePlay st1 else st1)"

subsection \<open>Sample inputs\<close>

text \<open>A buffer of twelve pixels, every second one (the ones the strategy loop skips)
  transparent black, the others of six different colours; ten copies of it; and a media
  surface that returns the ten copies for every region except a region of width 20, which
  it returns no pixels for.\<close>

definition spreadBlock :: "nat list" where
  "spreadBlock = [200, 30, 30, 255,  0, 0, 0, 0,   30, 30, 200, 255,  0, 0, 0, 0,
                  250, 250, 250, 255,  0, 0, 0, 0,  128, 128, 128, 255,  0, 0, 0, 0,
                  10, 10, 10, 255,  0, 0, 0, 0,   200, 200, 200, 255,  0, 0, 0, 0]"

definition spreadData :: "nat list" where
  "spreadData = concat (replicate 10 spreadBlock)"

definition spreadHistogram :: "nat \<Rightarrow> (string \<times> nat) list" where
  "spreadHistogram k =
     [(''Red'', k), (''Indigo'', k), (''White'', k), (''Gray'', k), (''Black'', k), (''Silver'', k)]"

definition spreadFrame :: frame where
  "spreadFrame = \<lparr>createContext = (\<lambda>k. Inr True),
                   readRegion = (\<lambda>r. if regionW r = 20 then Inr [] else Inr spreadData)\<rparr>"

text \<open>A media surface every region of which is four transparent black pixels.\<close>

definition blankFrame :: frame where
  "blankFrame = \<lparr>createContext = (\<lambda>k. Inr True),
                  readRegion = (\<lambda>r. Inr [0, 0, 0, 0,  0, 0, 0, 0,  0, 0, 0, 0,  0, 0, 0, 0])\<rparr>"

text \<open>A host in which creating a canvas raises, and a media surface whose pixels may not
  be read (each read raises).\<close>

definition raisingFrame :: frame where
  "raisingFrame = \<lparr>createContext = (\<lambda>k. Inl ''ReferenceError: document is not defined''),
                    readRegion = (\<lambda>r. Inr [])\<rparr>"

definition taintedFrame :: frame where
  "taintedFrame = \<lparr>createContext = (\<lambda>k. Inr True),
                    readRegion = (\<lambda>r. Inl ''SecurityError'')\<rparr>"

text \<open>A photograph of 1000 by 701 pixels.\<close>

definition photo :: htmlImage where
  "photo = \<lparr>naturalWidth = 1000, naturalHeight = 701\<rparr>"

text \<open>The component with the model loaded and a playing video mounted, before any
  detection; the same with a still image; and the video component after continuous
  detection was started and its first iteration has finished and scheduled the next.\<close>

definition idleVideo :: component where
  "idleVideo =
     \<lparr>hasModel = True, hasMedia = True, analyzing = False, detectedVehicles = [],
      isVideo = True, currentFrame = 0, showAlert = False, alertMessage = [],
      hasAttemptedDetection = False, continuousDetection = False,
      lastDetectionTimestamp = None, animationFrameRef = None,
      continuousDetectionRef = False, videoPaused = False, videoEnded = False,
      videoCurrentTime = 0, pendingFrames = [], framesRequested = 0, awaitingDetector = 0,
      playRequested = False\<rparr>"

definition idlePhoto :: component where
  "idlePhoto = idleVideo\<lparr>isVideo := False\<rparr>"

definition runningVideo :: component where
  "runningVideo = detectVehiclesInVideo_finish blankFrame (Inr []) (toggleContinuousDetection idleVideo)"

text \<open>The video component after this run: continuous detection is started and its first
  iteration waits for the detector; the video is paused and played again, so that the
  \<^verbatim>\<open>play\<close> listener starts a second iteration; then both iterations resume, each
  with no vehicle found.\<close>

definition doubleArmed :: component where
  "doubleArmed =
     detectVehiclesInVideo_finish blankFrame (Inr [])
       (detectVehiclesInVideo_finish blankFrame (Inr [])
          (videoPlays (videoPauses (toggleContinuousDetection idleVideo))))"

text \<open>A media surface whose every canvas is created, on which reading a region that
  starts at \<open>x = 100\<close> raises and every other region is sixteen zero bytes.\<close>

definition flakyFrame :: frame where
  "flakyFrame = \<lparr>createContext = (\<lambda>k. Inr True),
                  readRegion = (\<lambda>r. if regionX r = 100 then Inl ''SecurityError''
                                      else Inr [0, 0, 0, 0,  0, 0, 0, 0,  0, 0, 0, 0,  0, 0, 0, 0])\<rparr>"

text \<open>A media surface whose every canvas is created, on which a region that starts at
  \<open>x = 100\<close> reads as the sixty valid pixels of six colours of \<open>spreadData\<close> and every
  other region as sixteen zero bytes.\<close>

definition unevenFrame :: frame where
  "unevenFrame = \<lparr>createContext = (\<lambda>k. Inr True),
                   readRegion = (\<lambda>r. if regionX r = 100 then Inr spreadData
                                       else Inr [0, 0, 0, 0,  0, 0, 0, 0,  0, 0, 0, 0,  0, 0, 0, 0])\<rparr>"

text \<open>The detector's answer with one car, and the components after a still-image pass
  and after a manually requested pass that received it.\<close>

definition carDetection :: detection where
  "carDetection = \<lparr>det_class = ''car'', det_score = 0.91, det_bbox = (100, 100, 200, 150)\<rparr>"

definition analyzedPhoto :: component where
  "analyzedPhoto = detectVehiclesInImage blankFrame photo True (Inr [carDetection]) idlePhoto"

definition analyzedVideo :: component where
  "analyzedVideo = handleDetectCurrentFrame blankFrame (Inr [carDetection]) idleVideo"

text \<open>Rounding to 52 binary places.\<close>

definition roundToGrid :: "real \<Rightarrow> real" where
  "roundToGrid x = real_of_int \<lfloor>x * 2 ^ 52 + 1 / 2\<rfloor> / 2 ^ 52"

section \<open>Properties\<close>

subsection \<open>The head of the colour decision table\<close>

lemma roundsNearD:
  assumes "roundsNear rd" "\<bar>x\<bar> \<le> 8"
  shows "\<bar>rd x - x\<bar> \<le> 1 / 1125899906842624"
  using assms by (simp add: roundsNear_def)

lemma rd_byte:
  assumes "roundsNear rd" "n \<le> 255"
  shows "\<bar>rd (real n / 255) - real n / 255\<bar> \<le> 1 / 1125899906842624"
proof (rule roundsNearD [OF assms(1)])
  have "real n \<le> 255" using assms(2) by simp
  then show "\<bar>real n / 255\<bar> \<le> 8" by simp
qed

lemma rd_byte_mono:
  assumes "roundsNear rd" "a \<le> b" "b \<le> 255"
  shows "rd (real a / 255) \<le> rd (real b / 255)"
proof (cases "a = b")
  case True
  then show ?thesis by simp
next
  case False
  then have "a + 1 \<le> b" using assms(2) by simp
  then have "real (a + 1) \<le> real b" by (simp only: of_nat_le_iff)
  then have "real a / 255 + 1 / 255 \<le> real b / 255" by simp
  moreover have "a \<le> 255" using assms by simp
  note rd_byte [OF assms(1) this] rd_byte [OF assms(1) assms(3)]
  ultimately show ?thesis by linarith
qed

lemma rd_byte_max:
  assumes "roundsNear rd" "a \<le> 255" "b \<le> 255"
  shows "max (rd (real a / 255)) (rd (real b / 255)) = rd (real (max a b) / 255)"
  using rd_byte_mono [OF assms(1), of a b] rd_byte_mono [OF assms(1), of b a] assms
  by (auto simp: max_def)

lemma rd_byte_min:
  assumes "roundsNear rd" "a \<le> 255" "b \<le> 255"
  shows "min (rd (real a / 255)) (rd (real b / 255)) = rd (real (min a b) / 255)"
  using rd_byte_mono [OF assms(1), of a b] rd_byte_mono [OF assms(1), of b a] assms
  by (auto simp: min_def)

lemma rounded_values:
  fixes M m :: nat
  assumes R: "roundsNear rd" and mM: "m \<le> M" "M \<le> 255"
  defines "mx \<equiv> rd (real M / 255)" and "mn \<equiv> rd (real m / 255)"
  shows "\<bar>rd (mx - mn) - (real M / 255 - real m / 255)\<bar> \<le> 3 / 1125899906842624"
    and "\<bar>rd (mx + mn) - (real M / 255 + real m / 255)\<bar> \<le> 3 / 1125899906842624"
    and "\<bar>rd (rd (mx + mn) / 2) - (real M / 510 + real m / 510)\<bar> \<le> 3 / 1125899906842624"
    and "\<bar>rd (rd (2 - mx) - mn) - (2 - real M / 255 - real m / 255)\<bar>
           \<le> 4 / 1125899906842624"
proof -
  have m: "m \<le> 255" using mM by simp
  have bM: "0 \<le> real M" "real M \<le> 255" using mM by simp_all
  have bm: "0 \<le> real m" "real m \<le> 255" using m by simp_all
  have e1: "\<bar>mx - real M / 255\<bar> \<le> 1 / 1125899906842624"
    unfolding mx_def by (rule rd_byte [OF R mM(2)])
  have e2: "\<bar>mn - real m / 255\<bar> \<le> 1 / 1125899906842624"
    unfolding mn_def by (rule rd_byte [OF R m])
  have "\<bar>mx - mn\<bar> \<le> 8" using e1 e2 bM bm by linarith
  from roundsNearD [OF R this]
  show "\<bar>rd (mx - mn) - (real M / 255 - real m / 255)\<bar> \<le> 3 / 1125899906842624"
    using e1 e2 by linarith
  have "\<bar>mx + mn\<bar> \<le> 8" using e1 e2 bM bm by linarith
  from roundsNearD [OF R this]
  show s: "\<bar>rd (mx + mn) - (real M / 255 + real m / 255)\<bar> \<le> 3 / 1125899906842624"
    using e1 e2 by linarith
  have "\<bar>rd (mx + mn) / 2\<bar> \<le> 8" using s bM bm by linarith
  from roundsNearD [OF R this]
  show "\<bar>rd (rd (mx + mn) / 2) - (real M / 510 + real m / 510)\<bar> \<le> 3 / 1125899906842624"
    using s by linarith
  have "\<bar>2 - mx\<bar> \<le> 8" using e1 bM by linarith
  from roundsNearD [OF R this]
  have t: "\<bar>rd (2 - mx) - (2 - real M / 255)\<bar> \<le> 2 / 1125899906842624"
    using e1 by linarith
  have "\<bar>rd (2 - mx) - mn\<bar> \<le> 8" using t e2 bM bm by linarith
  from roundsNearD [OF R this]
  show "\<bar>rd (rd (2 - mx) - mn) - (2 - real M / 255 - real m / 255)\<bar>
          \<le> 4 / 1125899906842624"
    using t e2 by linarith
qed

lemma lightness_gap:
  fixes k p :: nat
  assumes "10 * k \<noteq> 51 * p"
  shows "real k / 510 + 1 / 5100 \<le> real p / 100 \<or> real p / 100 + 1 / 5100 \<le> real k / 510"
proof -
  from assms consider "10 * k + 1 \<le> 51 * p" | "51 * p + 1 \<le> 10 * k" by linarith
  then show ?thesis
  proof cases
    case 1
    then have "real (10 * k + 1) \<le> real (51 * p)" by (simp only: of_nat_le_iff)
    then have "10 * real k + 1 \<le> 51 * real p" by simp
    then have "real k / 510 + 1 / 5100 \<le> real p / 100" by linarith
    then show ?thesis ..
  next
    case 2
    then have "real (51 * p + 1) \<le> real (10 * k)" by (simp only: of_nat_le_iff)
    then have "51 * real p + 1 \<le> 10 * real k" by simp
    then have "real p / 100 + 1 / 5100 \<le> real k / 510" by linarith
    then show ?thesis ..
  qed
qed

lemma cmp_threshold:
  fixes k p :: nat
  assumes R: "roundsNear rd"
    and x: "\<bar>x - real k / 510\<bar> \<le> 3 / 1125899906842624"
    and ne: "10 * k \<noteq> 51 * p" and p: "p \<le> 100"
  shows "(x < rd (real p / 100)) = (real k / 510 < real p / 100)"
    and "(x > rd (real p / 100)) = (real k / 510 > real p / 100)"
proof -
  have "real p \<le> 100" using p by simp
  then have "\<bar>real p / 100\<bar> \<le> 8" by simp
  from roundsNearD [OF R this]
  have t: "\<bar>rd (real p / 100) - real p / 100\<bar> \<le> 1 / 1125899906842624" .
  from lightness_gap [OF ne]
  have "(x < rd (real p / 100) \<and> real k / 510 < real p / 100)
      \<or> (x > rd (real p / 100) \<and> real k / 510 > real p / 100)"
  proof
    assume g: "real k / 510 + 1 / 5100 \<le> real p / 100"
    have "x < rd (real p / 100)" using g x t by linarith
    moreover have "real k / 510 < real p / 100" using g by linarith
    ultimately show ?thesis by simp
  next
    assume g: "real p / 100 + 1 / 5100 \<le> real k / 510"
    have "x > rd (real p / 100)" using g x t by linarith
    moreover have "real k / 510 > real p / 100" using g by linarith
    ultimately show ?thesis by simp
  qed
  then show "(x < rd (real p / 100)) = (real k / 510 < real p / 100)"
    and "(x > rd (real p / 100)) = (real k / 510 > real p / 100)"
    by auto
qed

lemma quot_below:
  fixes t n d diff den :: real
  assumes t: "1 / 100 \<le> t" "t \<le> 1" and n: "1 / 255 \<le> n" "n \<le> 2" and d: "1 / 255 \<le> d"
    and gap: "d + 1 / 25500 \<le> t * n"
    and e1: "\<bar>diff - d\<bar> \<le> 3 / 1125899906842624"
    and e2: "\<bar>den - n\<bar> \<le> 4 / 1125899906842624"
  shows "diff / den < t - 2 / 1125899906842624" and "0 \<le> diff / den"
proof -
  have den: "0 < den" using e2 n by linarith
  have diff: "0 \<le> diff" using e1 d by linarith
  show "0 \<le> diff / den" using den diff by simp
  define c where "c = t - 2 / 1125899906842624"
  define tn where "tn = t * n"
  have c0: "0 \<le> c" using t by (simp add: c_def)
  have "n - 4 / 1125899906842624 \<le> den" using e2 by linarith
  from mult_left_mono [OF this c0]
  have "c * (n - 4 / 1125899906842624) \<le> c * den" .
  moreover have "c * (n - 4 / 1125899906842624)
      = tn - (2 / 1125899906842624) * n - (4 / 1125899906842624) * c"
    by (simp add: c_def tn_def algebra_simps)
  moreover have "c \<le> 1" using t by (simp add: c_def)
  moreover have "d + 1 / 25500 \<le> tn" using gap by (simp add: tn_def)
  ultimately have "diff < c * den" using e1 n by linarith
  then have "diff / den < c" using den by (simp add: pos_divide_less_eq)
  then show "diff / den < t - 2 / 1125899906842624" by (simp add: c_def)
qed


lemma sat_case:
  fixes D N p :: nat
  assumes R: "roundsNear rd" and p: "1 \<le> p" "p \<le> 100"
    and D: "1 \<le> D" and N: "1 \<le> N" "N \<le> 510"
    and S: "(real D / 255) / (real N / 255) < real p / 100"
    and e1: "\<bar>diff - real D / 255\<bar> \<le> 3 / 1125899906842624"
    and e2: "\<bar>den - real N / 255\<bar> \<le> 4 / 1125899906842624"
  shows "rd (diff / den) < rd (real p / 100)"
proof -
  have rp: "1 \<le> real p" "real p \<le> 100" using p by simp_all
  have rD: "1 \<le> real D" using D by simp
  have rN: "1 \<le> real N" "real N \<le> 510" using N by simp_all
  from S rN have "real D / real N < real p / 100" by simp
  then have "100 * real D < real p * real N" using rN by (simp add: field_simps)
  then have "real (100 * D) < real (p * N)" by simp
  then have "100 * D < p * N" by (simp only: of_nat_less_iff)
  then have "100 * D + 1 \<le> p * N" by simp
  then have "real (100 * D + 1) \<le> real (p * N)" by (simp only: of_nat_le_iff)
  then have i: "100 * real D + 1 \<le> real p * real N" by simp
  have "real p / 100 * (real N / 255) = (real p * real N) / 25500" by simp
  with i have gap: "real D / 255 + 1 / 25500 \<le> real p / 100 * (real N / 255)" by linarith
  have t1: "1 / 100 \<le> real p / 100" and t2: "real p / 100 \<le> 1" using rp by simp_all
  have n1: "1 / 255 \<le> real N / 255" and n2: "real N / 255 \<le> 2" using rN by simp_all
  have d1: "1 / 255 \<le> real D / 255" using rD by simp
  note q = quot_below [OF t1 t2 n1 n2 d1 gap e1 e2]
  have "\<bar>diff / den\<bar> \<le> 8" using q t2 by linarith
  from roundsNearD [OF R this]
  have a: "\<bar>rd (diff / den) - diff / den\<bar> \<le> 1 / 1125899906842624" .
  have "\<bar>real p / 100\<bar> \<le> 8" using t1 t2 by linarith
  from roundsNearD [OF R this]
  have b: "\<bar>rd (real p / 100) - real p / 100\<bar> \<le> 1 / 1125899906842624" .
  show ?thesis using a b q(1) by linarith
qed

lemma saturation_below:
  fixes M m p :: nat
  assumes R: "roundsNear rd" and mM: "m < M" "M \<le> 255" and p: "1 \<le> p" "p \<le> 100"
    and S: "(real M / 255 - real m / 255) / (1 - \<bar>real M / 255 + real m / 255 - 1\<bar>)
              < real p / 100"
  defines "mx \<equiv> rd (real M / 255)" and "mn \<equiv> rd (real m / 255)"
  shows "(if rd (rd (mx + mn) / 2) > rd (1 / 2) then rd (rd (mx - mn) / rd (rd (2 - mx) - mn))
          else rd (rd (mx - mn) / rd (mx + mn))) < rd (real p / 100)"
proof -
  have le: "m \<le> M" using mM by simp
  note v = rounded_values [OF R le mM(2), folded mx_def mn_def]
  have "\<bar>(1::real) / 2\<bar> \<le> 8" by simp
  from roundsNearD [OF R this]
  have h: "\<bar>rd (1 / 2) - 1 / 2\<bar> \<le> 1 / 1125899906842624" .
  have D: "1 \<le> M - m" using mM by simp
  have rD: "real (M - m) / 255 = real M / 255 - real m / 255"
    using le by (simp add: of_nat_diff diff_divide_distrib)
  have e1: "\<bar>rd (mx - mn) - real (M - m) / 255\<bar> \<le> 3 / 1125899906842624"
    using v(1) by (simp only: rD)
  show ?thesis
  proof (cases "rd (rd (mx + mn) / 2) > rd (1 / 2)")
    case True
    have "\<not> M + m \<le> 254"
    proof
      assume "M + m \<le> 254"
      then have "real (M + m) \<le> real 254" by (simp only: of_nat_le_iff)
      then have "real M + real m \<le> 254" by simp
      then show False using v(3) h True by linarith
    qed
    then have K: "255 \<le> M + m" by simp
    then have "real 255 \<le> real (M + m)" by (simp only: of_nat_le_iff)
    then have rK: "255 \<le> real M + real m" by simp
    have K2: "M + m \<le> 509" using mM by simp
    have N: "1 \<le> 510 - (M + m)" "510 - (M + m) \<le> 510" using K2 by simp_all
    have rN: "real (510 - (M + m)) / 255 = 2 - real M / 255 - real m / 255"
      using K2 by (simp add: of_nat_diff diff_divide_distrib add_divide_distrib)
    have "1 - \<bar>real M / 255 + real m / 255 - 1\<bar> = 2 - real M / 255 - real m / 255"
      using rK by simp
    with S have S': "(real (M - m) / 255) / (real (510 - (M + m)) / 255) < real p / 100"
      by (simp only: rD rN)
    have e2: "\<bar>rd (rd (2 - mx) - mn) - real (510 - (M + m)) / 255\<bar> \<le> 4 / 1125899906842624"
      using v(4) by (simp only: rN)
    from sat_case [OF R p D N S' e1 e2] True show ?thesis by simp
  next
    case False
    have "\<not> 256 \<le> M + m"
    proof
      assume "256 \<le> M + m"
      then have "real 256 \<le> real (M + m)" by (simp only: of_nat_le_iff)
      then have "256 \<le> real M + real m" by simp
      then show False using v(3) h False by linarith
    qed
    then have K: "M + m \<le> 255" by simp
    then have "real (M + m) \<le> real 255" by (simp only: of_nat_le_iff)
    then have rK: "real M + real m \<le> 255" by simp
    have N: "1 \<le> M + m" "M + m \<le> 510" using mM by simp_all
    have rN: "real (M + m) / 255 = real M / 255 + real m / 255"
      by (simp add: add_divide_distrib)
    have "1 - \<bar>real M / 255 + real m / 255 - 1\<bar> = real M / 255 + real m / 255"
      using rK by simp
    with S have S': "(real (M - m) / 255) / (real (M + m) / 255) < real p / 100"
      by (simp only: rD rN)
    have e2: "\<bar>rd (mx + mn) - real (M + m) / 255\<bar> \<le> 4 / 1125899906842624"
      using v(2) unfolding rN by linarith
    from sat_case [OF R p D N S' e1 e2] False show ?thesis by simp
  qed
qed


lemma cmp_lightness:
  fixes k p :: nat
  assumes R: "roundsNear rd"
    and x: "\<bar>x - L\<bar> \<le> 3 / 1125899906842624"
    and L: "L = real k / 510"
    and ne: "10 * k \<noteq> 51 * p" and p: "p \<le> 100"
  shows "(x < rd (real p / 100)) = (L < real p / 100)"
    and "(x > rd (real p / 100)) = (L > real p / 100)"
  using cmp_threshold [OF R x [unfolded L] ne p] unfolding L by blast+

lemma rgbToHslRounded_bytes:
  fixes r g b :: nat
  assumes R: "roundsNear rd" and bytes: "r \<le> 255" "g \<le> 255" "b \<le> 255"
  defines "M \<equiv> max (max r g) b" and "m \<equiv> min (min r g) b"
  defines "mx \<equiv> rd (real M / 255)" and "mn \<equiv> rd (real m / 255)"
  shows "\<exists>h. rgbToHslRounded rd (real r) (real g) (real b) =
           (h,
            (if M = m then 0
             else if rd (rd (mx + mn) / 2) > rd (1 / 2)
                  then rd (rd (mx - mn) / rd (rd (2 - mx) - mn))
                  else rd (rd (mx - mn) / rd (mx + mn))),
            rd (rd (mx + mn) / 2))"
proof -
  have rg: "max r g \<le> 255" "min r g \<le> 255" using bytes by simp_all
  have M: "M \<le> 255" and mM: "m \<le> M" using bytes by (auto simp: M_def m_def)
  have emx: "max (max (rd (real r / 255)) (rd (real g / 255))) (rd (real b / 255)) = mx"
    unfolding mx_def M_def
    by (simp only: rd_byte_max [OF R bytes(1) bytes(2)] rd_byte_max [OF R rg(1) bytes(3)])
  have emn: "min (min (rd (real r / 255)) (rd (real g / 255))) (rd (real b / 255)) = mn"
    unfolding mn_def m_def
    by (simp only: rd_byte_min [OF R bytes(1) bytes(2)] rd_byte_min [OF R rg(2) bytes(3)])
  have dz: "(rd (mx - mn) = 0) = (M = m)"
  proof (cases "M = m")
    case True
    then have "mx - mn = 0" by (simp add: mx_def mn_def)
    then show ?thesis using R True by (simp add: roundsNear_def)
  next
    case False
    then have "m + 1 \<le> M" using mM by simp
    then have "real (m + 1) \<le> real M" by (simp only: of_nat_le_iff)
    then have "real m / 255 + 1 / 255 \<le> real M / 255" by simp
    moreover note rounded_values(1) [OF R mM M, folded mx_def mn_def]
    ultimately have "0 < rd (mx - mn)" by linarith
    then show ?thesis using False by simp
  qed
  show ?thesis
    unfolding rgbToHslRounded_def Let_def emx emn dz
    by (cases "M = m") simp_all
qed

lemma hslLightness_twice:
  "2 * hslLightness r g b
     = real (max (max r g) b) / 255 + real (min (min r g) b) / 255"
  by (simp add: hslLightness_def)

lemma head_black:
  "l < rd 0.12 \<Longrightarrow> colorNameOfHslRounded rd h s l = ''Black''"
  by (simp add: colorNameOfHslRounded_def)

lemma head_white:
  "\<not> l < rd 0.12 \<Longrightarrow> l > rd 0.88 \<Longrightarrow> s < rd 0.15 \<Longrightarrow>
     colorNameOfHslRounded rd h s l = ''White''"
  by (simp add: colorNameOfHslRounded_def)

lemma head_gray:
  "\<not> l < rd 0.12 \<Longrightarrow> \<not> l > rd 0.88 \<Longrightarrow> s < rd 0.08 \<Longrightarrow>
     colorNameOfHslRounded rd h s l = grayscaleNameRounded rd l"
  by (simp add: colorNameOfHslRounded_def)

lemma roundToGrid_zero: "roundToGrid 0 = 0"
  by (simp add: roundToGrid_def)

lemma roundToGrid_near: "\<bar>roundToGrid x - x\<bar> \<le> 1 / 2 ^ 50"
proof -
  define z where "z = real_of_int \<lfloor>x * 4503599627370496 + 1 / 2\<rfloor>"
  have "z \<le> x * 4503599627370496 + 1 / 2" "x * 4503599627370496 + 1 / 2 < z + 1"
    unfolding z_def by linarith+
  moreover have "roundToGrid x = z / 4503599627370496"
    by (simp add: roundToGrid_def z_def)
  ultimately have "\<bar>roundToGrid x - x\<bar> \<le> 1 / 1125899906842624" by linarith
  then show ?thesis by simp
qed

lemma roundHalfEven_near: "\<bar>real_of_int (roundHalfEven y) - y\<bar> \<le> 1 / 2"
proof -
  have "real_of_int \<lfloor>y\<rfloor> \<le> y" "y < real_of_int \<lfloor>y\<rfloor> + 1" by linarith+
  then show ?thesis by (auto simp: roundHalfEven_def Let_def)
qed

lemma roundDouble_zero: "roundDouble 0 = 0"
  by (simp add: roundDouble_def)

lemma roundDouble_near:
  assumes "\<bar>x\<bar> \<le> 8"
  shows "\<bar>roundDouble x - x\<bar> \<le> 1 / 2 ^ 50"
proof (cases "x = 0")
  case True
  then show ?thesis by (simp add: roundDouble_def)
next
  case False
  define e where "e = max (- 1022) \<lfloor>log 2 \<bar>x\<bar>\<rfloor>"
  define u where "u = 2 powr (real_of_int e - 52)"
  define k where "k = roundHalfEven (x / u)"
  have pos: "0 < \<bar>x\<bar>" using False by simp
  have "log 2 \<bar>x\<bar> \<le> log 2 8" using pos assms by simp
  moreover have "log 2 8 = 3"
  proof -
    have "log 2 ((2::real) ^ 3) = real 3" by (rule log_pow_cancel) simp_all
    then show ?thesis by simp
  qed
  ultimately have "\<lfloor>log 2 \<bar>x\<bar>\<rfloor> \<le> 3" by (simp add: floor_le_iff)
  then have e3: "e \<le> 3" by (simp add: e_def)
  have u0: "0 < u" by (simp add: u_def)
  have "u \<le> 2 powr (- 49)"
    unfolding u_def using e3 by (intro powr_mono) simp_all
  also have "\<dots> = 1 / 2 ^ 49" by (simp add: powr_neg_numeral)
  finally have u1: "u \<le> 1 / 2 ^ 49" .
  have r: "roundDouble x = real_of_int k * u"
    using False by (simp add: roundDouble_def Let_def e_def u_def k_def)
  have "roundDouble x - x = (real_of_int k - x / u) * u"
    using u0 by (simp add: r field_simps)
  then have "\<bar>roundDouble x - x\<bar> = \<bar>real_of_int k - x / u\<bar> * u"
    using u0 by (simp add: abs_mult)
  also have "\<dots> \<le> (1 / 2) * u"
    using roundHalfEven_near [of "x / u"] u0 by (simp add: k_def mult_right_mono)
  also have "\<dots> \<le> (1 / 2) * (1 / 2 ^ 49)" using u1 by simp
  also have "\<dots> = 1 / 2 ^ 50" by simp
  finally show ?thesis .
qed

lemma grayscaleNameRounded_exact: "grayscaleNameRounded (\<lambda>x. x) l = grayscaleName l"
  by (simp only: grayscaleNameRounded_def grayscaleName_def)

lemma greenBandRounded_exact: "greenBandRounded (\<lambda>x. x) h s l = greenBand h s l"
  by (simp only: greenBandRounded_def greenBand_def)

lemma blueBandRounded_exact: "blueBandRounded (\<lambda>x. x) h s l = blueBand h s l"
  by (simp only: blueBandRounded_def blueBand_def)

lemma purpleBandRounded_exact: "purpleBandRounded (\<lambda>x. x) h s l = purpleBand h s l"
  by (simp only: purpleBandRounded_def purpleBand_def)

lemma colorNameOfHslRounded_exact:
  "colorNameOfHslRounded (\<lambda>x. x) h s l = colorNameOfHsl h s l"
  by (simp only: colorNameOfHslRounded_def colorNameOfHsl_def grayscaleNameRounded_exact
        greenBandRounded_exact blueBandRounded_exact purpleBandRounded_exact)

lemma rgbToHslRounded_exact: "rgbToHslRounded (\<lambda>x. x) r g b = rgbToHsl r g b"
  by (simp only: rgbToHslRounded_def rgbToHsl_def)

lemma getAdvancedColorNameRounded_exact:
  "getAdvancedColorNameRounded (\<lambda>x. x) r g b = getAdvancedColorName r g b"
  by (simp only: getAdvancedColorNameRounded_def getAdvancedColorName_def
        rgbToHslRounded_exact colorNameOfHslRounded_exact)

text \<open>
  C6. For every RGB triple of bytes, with \<open>l\<close> its lightness and \<open>s\<close> its saturation in
  the HSL colour model, the classification takes the first matching row of its table:
  lightness below 0.12 gives Black; otherwise lightness above 0.88 with saturation below
  0.15 gives White; otherwise saturation below 0.08 gives one of the eight grayscale
  names, chosen by the descending lightness thresholds 0.85, 0.75, 0.65, 0.55, 0.45,
  0.35, 0.25, from Pearl White down to Black. The code may compute with any rounding
  \<open>rd\<close> that keeps zero and moves a number of absolute value at most 8 by at most
  \<open>1 / 2 ^ 50\<close>, as the arithmetic of doubles does (\<open>roundDouble_near\<close>) and as
  exact arithmetic does.
\<close>

theorem decision_table_head:
  fixes r g b :: nat
  assumes "rd 0 = 0" and "\<And>x. \<bar>x\<bar> \<le> 8 \<Longrightarrow> \<bar>rd x - x\<bar> \<le> 1 / 2 ^ 50"
    and "r \<le> 255" and "g \<le> 255" and "b \<le> 255"
  shows "(let l = hslLightness r g b; s = hslSaturation r g b;
              name = getAdvancedColorNameRounded rd (real r) (real g) (real b)
          in (l < 0.12 \<longrightarrow> name = ''Black'')
           \<and> (\<not> l < 0.12 \<and> l > 0.88 \<and> s < 0.15 \<longrightarrow> name = ''White'')
           \<and> (\<not> l < 0.12 \<and> \<not> (l > 0.88 \<and> s < 0.15) \<and> s < 0.08 \<longrightarrow>
                name =
                  (if l > 0.85 then ''Pearl White''
                   else if l > 0.75 then ''Silver''
                   else if l > 0.65 then ''Light Gray''
                   else if l > 0.55 then ''Medium Gray''
                   else if l > 0.45 then ''Gray''
                   else if l > 0.35 then ''Dark Gray''
                   else if l > 0.25 then ''Charcoal''
                   else ''Black'')))"
proof -
  have R: "roundsNear rd" using assms(1,2) by (simp add: roundsNear_def)
  define M where "M = max (max r g) b"
  define m where "m = min (min r g) b"
  define mx where "mx = rd (real M / 255)"
  define mn where "mn = rd (real m / 255)"
  define L where "L = hslLightness r g b"
  define S where "S = hslSaturation r g b"
  define l where "l = rd (rd (mx + mn) / 2)"
  define s where "s = (if M = m then 0
             else if rd (rd (mx + mn) / 2) > rd (1 / 2)
                  then rd (rd (mx - mn) / rd (rd (2 - mx) - mn))
                  else rd (rd (mx - mn) / rd (mx + mn)))"
  have M: "M \<le> 255" and mM: "m \<le> M" using assms(3-5) by (auto simp: M_def m_def)
  from rgbToHslRounded_bytes [OF R assms(3-5)]
  obtain h where hsl: "rgbToHslRounded rd (real r) (real g) (real b) = (h, s, l)"
    unfolding M_def m_def mx_def mn_def l_def s_def by blast
  have name: "getAdvancedColorNameRounded rd (real r) (real g) (real b)
                = colorNameOfHslRounded rd h s l"
    by (simp add: getAdvancedColorNameRounded_def hsl)
  have Lk: "L = real (M + m) / 510"
    by (simp add: L_def hslLightness_def M_def m_def add_divide_distrib)
  have lx: "\<bar>l - L\<bar> \<le> 3 / 1125899906842624"
    using rounded_values(3) [OF R mM M, folded mx_def mn_def]
    by (simp add: l_def Lk add_divide_distrib)
  have sat: "s < rd (real p / 100)" if p: "1 \<le> p" "p \<le> 100" and Sp: "S < real p / 100" for p
  proof (cases "M = m")
    case True
    have "real p \<le> 100" "1 \<le> real p" using p by simp_all
    then have "\<bar>real p / 100\<bar> \<le> 8" "1 / 100 \<le> real p / 100" by simp_all
    from roundsNearD [OF R this(1)] this(2) have "0 < rd (real p / 100)" by linarith
    then show ?thesis using True by (simp add: s_def)
  next
    case False
    then have lt: "m < M" using mM by simp
    then have "real m < real M" by (simp only: of_nat_less_iff)
    then have "real M / 255 \<noteq> real m / 255" by simp
    then have "S = (real M / 255 - real m / 255)
                     / (1 - \<bar>real M / 255 + real m / 255 - 1\<bar>)"
      by (simp add: S_def hslSaturation_def hslLightness_twice Let_def M_def m_def)
    with Sp have "(real M / 255 - real m / 255) / (1 - \<bar>real M / 255 + real m / 255 - 1\<bar>)
                    < real p / 100" by simp
    from saturation_below [OF R lt M p this, folded mx_def mn_def]
    show ?thesis using False by (simp add: s_def)
  qed
  have s15: "S < 0.15 \<Longrightarrow> s < rd 0.15" using sat [of 15] by simp
  have s08: "S < 0.08 \<Longrightarrow> s < rd 0.08" using sat [of 8] by simp
  have ne: "10 * (M + m) \<noteq> 51 * 12" "10 * (M + m) \<noteq> 51 * 88" "10 * (M + m) \<noteq> 51 * 85"
    "10 * (M + m) \<noteq> 51 * 75" "10 * (M + m) \<noteq> 51 * 65" "10 * (M + m) \<noteq> 51 * 55"
    "10 * (M + m) \<noteq> 51 * 45" "10 * (M + m) \<noteq> 51 * 35" "10 * (M + m) \<noteq> 51 * 25"
    by presburger+
  have c12: "(l < rd 0.12) = (L < 0.12)"
    using cmp_lightness(1) [OF R lx Lk ne(1)] by simp
  have c88: "(l > rd 0.88) = (L > 0.88)"
    using cmp_lightness(2) [OF R lx Lk ne(2)] by simp
  have c85: "(l > rd 0.85) = (L > 0.85)"
    using cmp_lightness(2) [OF R lx Lk ne(3)] by simp
  have c75: "(l > rd 0.75) = (L > 0.75)"
    using cmp_lightness(2) [OF R lx Lk ne(4)] by simp
  have c65: "(l > rd 0.65) = (L > 0.65)"
    using cmp_lightness(2) [OF R lx Lk ne(5)] by simp
  have c55: "(l > rd 0.55) = (L > 0.55)"
    using cmp_lightness(2) [OF R lx Lk ne(6)] by simp
  have c45: "(l > rd 0.45) = (L > 0.45)"
    using cmp_lightness(2) [OF R lx Lk ne(7)] by simp
  have c35: "(l > rd 0.35) = (L > 0.35)"
    using cmp_lightness(2) [OF R lx Lk ne(8)] by simp
  have c25: "(l > rd 0.25) = (L > 0.25)"
    using cmp_lightness(2) [OF R lx Lk ne(9)] by simp
  have ladder: "grayscaleNameRounded rd l =
                  (if L > 0.85 then ''Pearl White''
                   else if L > 0.75 then ''Silver''
                   else if L > 0.65 then ''Light Gray''
                   else if L > 0.55 then ''Medium Gray''
                   else if L > 0.45 then ''Gray''
                   else if L > 0.35 then ''Dark Gray''
                   else if L > 0.25 then ''Charcoal''
                   else ''Black'')"
    unfolding grayscaleNameRounded_def c85 c75 c65 c55 c45 c35 c25 ..
  have row1: "L < 0.12 \<longrightarrow> colorNameOfHslRounded rd h s l = ''Black''"
    using head_black [of l rd h s] c12 by blast
  have row2: "\<not> L < 0.12 \<and> L > 0.88 \<and> S < 0.15 \<longrightarrow>
                colorNameOfHslRounded rd h s l = ''White''"
    using head_white [of l rd s h] c12 c88 s15 by blast
  have row3: "\<not> L < 0.12 \<and> \<not> (L > 0.88 \<and> S < 0.15) \<and> S < 0.08 \<longrightarrow>
                colorNameOfHslRounded rd h s l = grayscaleNameRounded rd l"
  proof (intro impI, elim conjE)
    assume a: "\<not> L < 0.12" "\<not> (L > 0.88 \<and> S < 0.15)" "S < 0.08"
    from a(3) have "S < 0.15" by simp
    with a(2) have "\<not> L > 0.88" by blast
    then have "\<not> l > rd 0.88" using c88 by blast
    moreover have "\<not> l < rd 0.12" using a(1) c12 by blast
    moreover have "s < rd 0.08" using a(3) s08 by blast
    ultimately show "colorNameOfHslRounded rd h s l = grayscaleNameRounded rd l"
      using head_gray by blast
  qed
  show ?thesis
    unfolding Let_def name L_def [symmetric] S_def [symmetric]
    using row1 row2 row3 unfolding ladder by blast
qed


text \<open>With exact arithmetic (the classification that the sampling loops use) a light
  pixel with a tint of green is White; with the arithmetic of doubles a bluish gray is
  Gray; with arithmetic rounded to 52 binary places a dark red is Black. None of the
  three has saturation 0.\<close>

theorem decision_table_head_witness:
  "getAdvancedColorName 240 241 240 = ''White''
   \<and> getAdvancedColorNameRounded roundDouble 120 125 130 = ''Gray''
   \<and> getAdvancedColorNameRounded roundToGrid 30 0 0 = ''Black''
   \<and> hslSaturation 240 241 240 = 1 / 29 \<and> hslSaturation 120 125 130 = 1 / 25
   \<and> hslSaturation 30 0 0 = 1"
  using decision_table_head [of "\<lambda>x. x" 240 241 240]
        decision_table_head [of roundDouble 120 125 130, OF roundDouble_zero roundDouble_near]
        decision_table_head [of roundToGrid 30 0 0, OF roundToGrid_zero roundToGrid_near]
  by (simp add: hslLightness_def hslSaturation_def Let_def getAdvancedColorNameRounded_exact)

text \<open>At a threshold the rounding decides, and the rows say nothing. The triple
  \<open>(115, 115, 135)\<close> has saturation 0.08, which is not below 0.08: with exact arithmetic
  the classification passes the grayscale row and ends in Mixed, while with arithmetic
  rounded to 52 binary places the computed saturation is below the rounded 0.08 and the
  grayscale row gives Gray.\<close>

lemma boundary_pixel:
  "hslSaturation 115 115 135 = 0.08
   \<and> getAdvancedColorNameRounded roundToGrid 115 115 135 = ''Gray''
   \<and> getAdvancedColorNameRounded (\<lambda>x. x) 115 115 135 = ''Mixed''"
  by (simp add: hslSaturation_def hslLightness_def getAdvancedColorNameRounded_def
        rgbToHslRounded_def
        colorNameOfHslRounded_def grayscaleNameRounded_def greenBandRounded_def
        blueBandRounded_def purpleBandRounded_def roundToGrid_def Let_def)

subsection \<open>Pixel sampling of a strategy\<close>

lemma strategyLoop_foldl:
  "strategyLoop data i acc =
     foldl (\<lambda>a j. strategyVisit data j a) acc (strategyOffsets (length data) i)"
proof (induction data i acc rule: strategyLoop.induct)
  case (1 data i acc)
  show ?case
  proof (cases "i < length data")
    case True
    then show ?thesis
      using "1.IH" [OF True]
      by (subst strategyLoop.simps, subst strategyOffsets.simps) simp
  next
    case False
    then show ?thesis
      by (subst strategyLoop.simps, subst strategyOffsets.simps) simp
  qed
qed

lemma strategyOffsets_set:
  "j \<in> set (strategyOffsets len i) \<longleftrightarrow> i \<le> j \<and> j < len \<and> (j - i) mod 8 = 0"
proof (induction len i rule: strategyOffsets.induct)
  case (1 len i)
  show ?case
  proof (cases "i < len")
    case True
    have "j \<in> set (strategyOffsets len i) \<longleftrightarrow> j = i \<or> j \<in> set (strategyOffsets len (i + 8))"
      using True by (subst strategyOffsets.simps) auto
    also have "\<dots> \<longleftrightarrow> j = i \<or> (i + 8 \<le> j \<and> j < len \<and> (j - (i + 8)) mod 8 = 0)"
      using "1.IH" [OF True] by simp
    also have "\<dots> \<longleftrightarrow> i \<le> j \<and> j < len \<and> (j - i) mod 8 = 0"
      using True by presburger
    finally show ?thesis .
  next
    case False
    then show ?thesis
      by (subst strategyOffsets.simps) auto
  qed
qed

lemma strategyOffsets_increasing: "sorted_wrt (<) (strategyOffsets len i)"
proof (induction len i rule: strategyOffsets.induct)
  case (1 len i)
  show ?case
  proof (cases "i < len")
    case True
    then show ?thesis
      using "1.IH" [OF True]
      by (subst strategyOffsets.simps) (auto simp: strategyOffsets_set)
  next
    case False
    then show ?thesis by (subst strategyOffsets.simps) simp
  qed
qed

lemma strategyVisit_in_range:
  assumes "i + 3 < length data"
  shows "strategyVisit data i (counts, n) =
           (if strategyPixelValid (data ! i) (data ! (i + 1)) (data ! (i + 2)) (data ! (i + 3))
            then (bump counts (getAdvancedColorName (real (data ! i)) (real (data ! (i + 1)))
                                 (real (data ! (i + 2)))), n + 1)
            else (counts, n))"
  using assms by (simp add: strategyVisit_def byteAt_def)

lemma red_pixel: "getAdvancedColorName 200 30 30 = ''Red''"
  by (simp add: getAdvancedColorName_def rgbToHsl_def colorNameOfHsl_def Let_def)

text \<open>
  C4, as the code has it. The strategy loop visits the byte offsets 0, 8, 16, ... below the
  length of the RGBA buffer, in this order: every second pixel, one RGBA quad skipped at
  each step (not every fourth pixel). A visited pixel is left out of the histogram exactly
  when its alpha is at most 50, its brightness \<open>(r + g + b) / 3\<close> is at most 2, or its
  brightness is at least 255; every other visited pixel is classified and counted, in the
  histogram and in the number of valid pixels.
\<close>

theorem strategy_sampling:
  "strategyLoop data 0 acc =
      foldl (\<lambda>a j. strategyVisit data j a) acc (strategyOffsets (length data) 0)
   \<and> sorted_wrt (<) (strategyOffsets (length data) 0)
   \<and> (j \<in> set (strategyOffsets (length data) 0) \<longleftrightarrow> j < length data \<and> j mod 8 = 0)
   \<and> (i + 3 < length data \<longrightarrow>
        strategyVisit data i (counts, n) =
          (if data ! (i + 3) \<le> 50
              \<or> (real (data ! i) + real (data ! (i + 1)) + real (data ! (i + 2))) / 3 \<le> 2
              \<or> (real (data ! i) + real (data ! (i + 1)) + real (data ! (i + 2))) / 3 \<ge> 255
           then (counts, n)
           else (bump counts (getAdvancedColorName (real (data ! i)) (real (data ! (i + 1)))
                                (real (data ! (i + 2)))), n + 1)))"
proof (intro conjI impI)
  show "strategyLoop data 0 acc =
          foldl (\<lambda>a j. strategyVisit data j a) acc (strategyOffsets (length data) 0)"
    by (rule strategyLoop_foldl)
  show "sorted_wrt (<) (strategyOffsets (length data) 0)"
    by (rule strategyOffsets_increasing)
  show "j \<in> set (strategyOffsets (length data) 0) \<longleftrightarrow> j < length data \<and> j mod 8 = 0"
    by (simp add: strategyOffsets_set)
next
  assume "i + 3 < length data"
  then show "strategyVisit data i (counts, n) =
          (if data ! (i + 3) \<le> 50
              \<or> (real (data ! i) + real (data ! (i + 1)) + real (data ! (i + 2))) / 3 \<le> 2
              \<or> (real (data ! i) + real (data ! (i + 1)) + real (data ! (i + 2))) / 3 \<ge> 255
           then (counts, n)
           else (bump counts (getAdvancedColorName (real (data ! i)) (real (data ! (i + 1)))
                                (real (data ! (i + 2)))), n + 1))"
    by (auto simp: strategyVisit_in_range strategyPixelValid_def Let_def)
qed

text \<open>Eight pixels: a red one, then (at the visited offsets 8, 16 and 24) one with alpha
  50, one with brightness 2 and a saturated white one; the pixels in between are skipped.\<close>

theorem strategy_sampling_witness:
  "strategyVisit [200, 30, 30, 255,  30, 200, 30, 255,  100, 100, 100, 50,  30, 200, 30, 255,
                  2, 2, 2, 255,  30, 200, 30, 255,  255, 255, 255, 255,  30, 200, 30, 255]
                 0 ([], 0) = ([(''Red'', 1)], 1)
   \<and> strategyVisit [200, 30, 30, 255,  30, 200, 30, 255,  100, 100, 100, 50,  30, 200, 30, 255,
                  2, 2, 2, 255,  30, 200, 30, 255,  255, 255, 255, 255,  30, 200, 30, 255]
                 8 ([(''Red'', 1)], 1) = ([(''Red'', 1)], 1)"
  using strategy_sampling
          [of "[200, 30, 30, 255,  30, 200, 30, 255,  100, 100, 100, 50,  30, 200, 30, 255,
                2, 2, 2, 255,  30, 200, 30, 255,  255, 255, 255, 255,  30, 200, 30, 255]"
              "([], 0)" 0 0 "[]" 0]
        strategy_sampling
          [of "[200, 30, 30, 255,  30, 200, 30, 255,  100, 100, 100, 50,  30, 200, 30, 255,
                2, 2, 2, 255,  30, 200, 30, 255,  255, 255, 255, 255,  30, 200, 30, 255]"
              "([], 0)" 0 8 "[(''Red'', 1)]" 1]
  by (simp add: red_pixel)

text \<open>C4 as the claim states it fails: an eight-pixel buffer is read at the offsets of
  the pixels 0, 2, 4 and 6, and a pixel is not left out exactly when its alpha is below 50,
  its brightness below 2 or its brightness 255 (take alpha 50 with brightness 100).\<close>

theorem strategy_sampling_claim_fails:
  "strategyOffsets 32 0 = [0, 8, 16, 24]
   \<and> \<not> (\<forall>r g b a. (\<not> strategyPixelValid r g b a) =
                     (a < 50 \<or> (real r + real g + real b) / 3 < 2
                      \<or> (real r + real g + real b) / 3 = 255))"
proof
  show "strategyOffsets 32 0 = [0, 8, 16, 24]"
    by (simp add: strategyOffsets.simps)
  show "\<not> (\<forall>r g b a. (\<not> strategyPixelValid r g b a) =
                     (a < 50 \<or> (real r + real g + real b) / 3 < 2
                      \<or> (real r + real g + real b) / 3 = 255))"
  proof
    assume "\<forall>r g b a. (\<not> strategyPixelValid r g b a) =
                     (a < 50 \<or> (real r + real g + real b) / 3 < 2
                      \<or> (real r + real g + real b) / 3 = 255)"
    then have "(\<not> strategyPixelValid 100 100 100 50) =
                 ((50::nat) < 50 \<or> (real 100 + real 100 + real 100) / 3 < 2
                      \<or> (real 100 + real 100 + real 100) / 3 = 255)"
      by blast
    then show False by (simp add: strategyPixelValid_def)
  qed
qed

subsection \<open>Dominant colour of a strategy's histogram\<close>

lemma set_insertByCount: "set (insertByCount e es) = insert e (set es)"
  by (induction es) auto

lemma length_insertByCount: "length (insertByCount e es) = Suc (length es)"
  by (induction es) auto

lemma sorted_insertByCount:
  "sorted_wrt (\<lambda>a b. snd a \<ge> snd b) es \<Longrightarrow> sorted_wrt (\<lambda>a b. snd a \<ge> snd b) (insertByCount e es)"
  by (induction es) (auto simp: set_insertByCount)

lemma set_sortByCount: "set (sortByCount es) = set es"
  by (induction es) (auto simp: sortByCount_def set_insertByCount)

lemma length_sortByCount: "length (sortByCount es) = length es"
  by (induction es) (auto simp: sortByCount_def length_insertByCount)

lemma sorted_sortByCount: "sorted_wrt (\<lambda>a b. snd a \<ge> snd b) (sortByCount es)"
  by (induction es) (auto simp: sortByCount_def sorted_insertByCount)

lemma hd_sorted_max:
  "sorted_wrt (\<lambda>a b. snd a \<ge> (snd b :: nat)) es \<Longrightarrow> e \<in> set es \<Longrightarrow> snd e \<le> snd (hd es)"
  by (cases es) auto

lemma set_coloredPixels:
  "set (coloredPixels (sortByCount es)) = {e \<in> set es. fst e \<notin> set blackColors}"
  by (auto simp: coloredPixels_def set_sortByCount)

lemma colored_nonempty:
  assumes "real (totalColoredPixels srt) > real n * 0.3"
  shows "coloredPixels srt \<noteq> []"
proof
  assume "coloredPixels srt = []"
  then have "totalColoredPixels srt = 0" by (simp add: totalColoredPixels_def)
  with assms show False by simp
qed

lemma insertByCount_front:
  "(\<forall>x \<in> set xs. snd x \<le> snd e) \<Longrightarrow> insertByCount e xs = e # xs"
  by (cases xs) auto

lemma filter_insertByCount:
  "sorted_wrt (\<lambda>a b. snd a \<ge> snd b) es \<Longrightarrow>
     filter P (insertByCount e es) = (if P e then insertByCount e (filter P es) else filter P es)"
proof (induction es)
  case Nil
  then show ?case by simp
next
  case (Cons e' es)
  show ?case
  proof (cases "snd e \<ge> snd e'")
    case True
    have "\<forall>x \<in> set (filter P (e' # es)). snd x \<le> snd e"
      using Cons.prems True by auto
    then have "insertByCount e (filter P (e' # es)) = e # filter P (e' # es)"
      by (rule insertByCount_front)
    then show ?thesis using True by simp
  next
    case False
    then show ?thesis using Cons by auto
  qed
qed

lemma filter_sortByCount: "filter P (sortByCount es) = sortByCount (filter P es)"
proof (induction es)
  case Nil
  then show ?case by (simp add: sortByCount_def)
next
  case (Cons e es)
  have "filter P (sortByCount (e # es)) = filter P (insertByCount e (sortByCount es))"
    by (simp add: sortByCount_def)
  also have "\<dots> = (if P e then insertByCount e (filter P (sortByCount es))
                     else filter P (sortByCount es))"
    by (rule filter_insertByCount) (rule sorted_sortByCount)
  also have "\<dots> = sortByCount (filter P (e # es))"
    using Cons.IH by (simp add: sortByCount_def)
  finally show ?case .
qed

lemma sum_insertByCount: "sum_list (map snd (insertByCount e es)) = snd e + sum_list (map snd es)"
  by (induction es) auto

lemma sum_sortByCount: "sum_list (map snd (sortByCount es)) = sum_list (map snd es)"
  by (induction es) (auto simp: sortByCount_def sum_insertByCount)

lemma hd_sortByCount_split:
  "es \<noteq> [] \<Longrightarrow> \<exists>pre post. es = pre @ hd (sortByCount es) # post
                    \<and> (\<forall>e \<in> set pre. snd e < snd (hd (sortByCount es)))"
proof (induction es)
  case Nil
  then show ?case by simp
next
  case (Cons e es)
  show ?case
  proof (cases "es = []")
    case True
    then have "e # es = [] @ hd (sortByCount (e # es)) # []" by (simp add: sortByCount_def)
    then show ?thesis by (metis empty_iff empty_set)
  next
    case False
    from Cons.IH [OF False] obtain pre post where
      split: "es = pre @ hd (sortByCount es) # post"
      and small: "\<forall>x \<in> set pre. snd x < snd (hd (sortByCount es))"
      by blast
    have ne: "sortByCount es \<noteq> []"
      using False length_sortByCount [of es] by auto
    then obtain t s' where s: "sortByCount es = t # s'" by (cases "sortByCount es") auto
    show ?thesis
    proof (cases "snd e \<ge> snd t")
      case True
      then have "hd (sortByCount (e # es)) = e" using s by (simp add: sortByCount_def)
      then have "e # es = [] @ hd (sortByCount (e # es)) # es" by simp
      then show ?thesis by (metis empty_iff empty_set)
    next
      case False
      then have hd: "hd (sortByCount (e # es)) = t" using s by (simp add: sortByCount_def)
      have "e # es = (e # pre) @ t # post" using split s by simp
      moreover have "\<forall>x \<in> set (e # pre). snd x < snd t" using small s False by auto
      ultimately show ?thesis using hd by metis
    qed
  qed
qed

lemma find_first_max:
  assumes "es \<noteq> []"
  shows "find (\<lambda>e. \<forall>e' \<in> set es. snd e' \<le> snd e) es = Some (hd (sortByCount es))"
proof -
  let ?t = "hd (sortByCount es)"
  from hd_sortByCount_split [OF assms] obtain pre post where
    split: "es = pre @ ?t # post" and small: "\<forall>e \<in> set pre. snd e < snd ?t"
    by blast
  have top_in: "?t \<in> set es" using split by (metis in_set_conv_decomp)
  have mx: "\<forall>e' \<in> set es. snd e' \<le> snd ?t"
    using hd_sorted_max [OF sorted_sortByCount] set_sortByCount by blast
  have pre_fail: "\<forall>e \<in> set pre. \<not> (\<forall>e' \<in> set es. snd e' \<le> snd e)"
    using small top_in by (meson not_less)
  have "find (\<lambda>e. \<forall>e' \<in> set es. snd e' \<le> snd e) (pre @ ?t # post) = Some ?t"
    using pre_fail mx by (induction pre) auto
  then show ?thesis using split by simp
qed

lemma tl_sortByCount:
  "es \<noteq> [] \<Longrightarrow> sortByCount (remove1 (hd (sortByCount es)) es) = tl (sortByCount es)"
proof (induction es)
  case Nil
  then show ?case by simp
next
  case (Cons e es)
  show ?case
  proof (cases "es = []")
    case True
    then show ?thesis by (simp add: sortByCount_def)
  next
    case False
    then have ne: "sortByCount es \<noteq> []"
      using length_sortByCount [of es] by auto
    then obtain t s' where s: "sortByCount es = t # s'" by (cases "sortByCount es") auto
    show ?thesis
    proof (cases "snd e \<ge> snd t")
      case True
      then show ?thesis using s by (simp add: sortByCount_def)
    next
      case False
      then have "e \<noteq> t" by auto
      moreover have "sortByCount (remove1 t es) = s'"
        using Cons.IH [OF \<open>es \<noteq> []\<close>] s by simp
      ultimately show ?thesis using s False
        by (simp add: sortByCount_def)
    qed
  qed
qed

lemma blackColors_set: "set blackColors = {''Black'', ''Dark Gray'', ''Charcoal'', ''Mixed''}"
  by (simp add: blackColors_def)

lemma coloredPixels_sorted_eq:
  "coloredPixels (sortByCount cc) =
     sortByCount (filter (\<lambda>e. fst e \<notin> {''Black'', ''Dark Gray'', ''Charcoal'', ''Mixed''}) cc)"
  by (simp add: coloredPixels_def filter_sortByCount blackColors_set)

lemma totalColoredPixels_eq:
  "totalColoredPixels (sortByCount cc) =
     sum_list (map snd (filter (\<lambda>e. fst e \<notin> {''Black'', ''Dark Gray'', ''Charcoal'', ''Mixed''}) cc))"
  by (simp add: totalColoredPixels_def coloredPixels_sorted_eq sum_sortByCount)

text \<open>
  C2. Let \<open>cc\<close> be the histogram of a strategy (the names with their counts, in the
  order in which the names were first counted) and \<open>n\<close> its number of valid pixels, and
  let \<open>nn\<close> be the entries of \<open>cc\<close> whose name is outside Black, Dark Gray, Charcoal,
  Mixed. If the counts of \<open>nn\<close> add up to more than 30 percent of \<open>n\<close>, the chosen entry
  is the most frequent entry of \<open>nn\<close>: the first one whose count no entry of \<open>nn\<close>
  exceeds. Otherwise, for a histogram that is not empty, let \<open>top\<close> be the most frequent
  entry of \<open>cc\<close>, the first one whose count no entry of \<open>cc\<close> exceeds: the chosen entry
  is \<open>top\<close>, unless its name is Mixed and \<open>cc\<close> has a second entry; then the chosen
  entry is the second-ranked one, the most frequent entry of \<open>cc\<close> without \<open>top\<close>. An
  empty histogram, which has no entry to choose, gives the name Unknown.
\<close>

theorem dominant_selection:
  "(let nn = filter (\<lambda>e. fst e \<notin> {''Black'', ''Dark Gray'', ''Charcoal'', ''Mixed''}) cc in
      (real (sum_list (map snd nn)) > 0.3 * real n \<longrightarrow>
         find (\<lambda>e. \<forall>e' \<in> set nn. snd e' \<le> snd e) nn = Some (dominantOfStrategy cc n))
      \<and> (\<not> real (sum_list (map snd nn)) > 0.3 * real n \<and> cc \<noteq> [] \<longrightarrow>
           (\<exists>top. find (\<lambda>e. \<forall>e' \<in> set cc. snd e' \<le> snd e) cc = Some top
              \<and> (if fst top = ''Mixed'' \<and> length cc > 1
                 then find (\<lambda>e. \<forall>e' \<in> set (remove1 top cc). snd e' \<le> snd e) (remove1 top cc)
                        = Some (dominantOfStrategy cc n)
                 else dominantOfStrategy cc n = top))))
   \<and> (cc = [] \<longrightarrow> dominantOfStrategy cc n = (''Unknown'', 0))"
proof -
  let ?nn = "filter (\<lambda>e. fst e \<notin> {''Black'', ''Dark Gray'', ''Charcoal'', ''Mixed''}) cc"
  have A: "find (\<lambda>e. \<forall>e' \<in> set ?nn. snd e' \<le> snd e) ?nn = Some (dominantOfStrategy cc n)"
    if big: "real (sum_list (map snd ?nn)) > 0.3 * real n"
  proof -
    have big': "real (totalColoredPixels (sortByCount cc)) > real n * 0.3"
      using big by (simp add: totalColoredPixels_eq)
    then have col_ne: "coloredPixels (sortByCount cc) \<noteq> []" by (rule colored_nonempty)
    then have nn_ne: "?nn \<noteq> []"
      using length_sortByCount [of ?nn] by (auto simp: coloredPixels_sorted_eq)
    have srt_ne: "sortByCount cc \<noteq> []"
      using col_ne by (auto simp: coloredPixels_def)
    have "hd (coloredPixels (sortByCount cc)) \<in> set (coloredPixels (sortByCount cc))"
      using col_ne by simp
    then have "fst (hd (coloredPixels (sortByCount cc))) \<noteq> ''Mixed''"
      by (auto simp: set_coloredPixels blackColors_def)
    then have "dominantOfStrategy cc n = hd (coloredPixels (sortByCount cc))"
      using big' col_ne srt_ne by (simp add: dominantOfStrategy_def Let_def)
    then have "dominantOfStrategy cc n = hd (sortByCount ?nn)"
      by (simp add: coloredPixels_sorted_eq)
    then show ?thesis using find_first_max [OF nn_ne] by simp
  qed
  have B: "\<exists>top. find (\<lambda>e. \<forall>e' \<in> set cc. snd e' \<le> snd e) cc = Some top
              \<and> (if fst top = ''Mixed'' \<and> length cc > 1
                 then find (\<lambda>e. \<forall>e' \<in> set (remove1 top cc). snd e' \<le> snd e) (remove1 top cc)
                        = Some (dominantOfStrategy cc n)
                 else dominantOfStrategy cc n = top)"
    if small: "\<not> real (sum_list (map snd ?nn)) > 0.3 * real n" and ne: "cc \<noteq> []"
  proof -
    let ?top = "hd (sortByCount cc)"
    have small': "\<not> real (totalColoredPixels (sortByCount cc)) > real n * 0.3"
      using small by (simp add: totalColoredPixels_eq)
    have srt_ne: "sortByCount cc \<noteq> []"
      using ne length_sortByCount [of cc] by auto
    have dom: "dominantOfStrategy cc n =
            (if fst ?top = ''Mixed'' \<and> length cc > 1 then sortByCount cc ! 1 else ?top)"
      using small' srt_ne by (simp add: dominantOfStrategy_def Let_def length_sortByCount)
    have second: "find (\<lambda>e. \<forall>e' \<in> set (remove1 ?top cc). snd e' \<le> snd e) (remove1 ?top cc)
                    = Some (sortByCount cc ! 1)" if "length cc > 1"
    proof -
      have top_in: "?top \<in> set cc"
        using srt_ne set_sortByCount [of cc] hd_in_set by blast
      have "length (remove1 ?top cc) = length cc - 1"
        using top_in by (simp add: length_remove1)
      then have rest_ne: "remove1 ?top cc \<noteq> []" using that by auto
      have "length (sortByCount cc) > 1" using that by (simp add: length_sortByCount)
      then have "sortByCount cc ! 1 = hd (tl (sortByCount cc))"
        by (cases "sortByCount cc") (auto simp: hd_conv_nth)
      then have "sortByCount cc ! 1 = hd (sortByCount (remove1 ?top cc))"
        by (simp add: tl_sortByCount [OF ne])
      then show ?thesis using find_first_max [OF rest_ne] by simp
    qed
    show ?thesis
      using find_first_max [OF ne] dom second by auto
  qed
  have C: "dominantOfStrategy cc n = (''Unknown'', 0)" if "cc = []"
    using that by (simp add: dominantOfStrategy_def sortByCount_def)
  show ?thesis unfolding Let_def using A B C by blast
qed

text \<open>Of 100 valid pixels: 40 non-neutral in two entries of 20 against 60 neutral; 20
  non-neutral in two entries of 10 against 80 neutral; a most frequent Mixed, for which
  the second-ranked Black is substituted; and the empty histogram.\<close>

theorem dominant_selection_witness:
  "dominantOfStrategy [(''Black'', 60), (''Red'', 20), (''Indigo'', 20)] 100 = (''Red'', 20)
   \<and> dominantOfStrategy [(''Red'', 10), (''Black'', 80), (''Indigo'', 10)] 100 = (''Black'', 80)
   \<and> dominantOfStrategy [(''Black'', 20), (''Mixed'', 70), (''Red'', 10)] 100 = (''Black'', 20)
   \<and> dominantOfStrategy [] 0 = (''Unknown'', 0)"
  using dominant_selection [of "[(''Black'', 60), (''Red'', 20), (''Indigo'', 20)]" 100]
        dominant_selection [of "[(''Red'', 10), (''Black'', 80), (''Indigo'', 10)]" 100]
        dominant_selection [of "[(''Black'', 20), (''Mixed'', 70), (''Red'', 10)]" 100]
        dominant_selection [of "[]" 0]
  by (simp add: Let_def)

subsection \<open>Coordinates of the sampling regions\<close>

text \<open>
  C5, as the code has it. For every bounding box the \<open>y\<close> of the first two strategy regions
  is clamped to be non-negative, and when the box has non-negative \<open>x\<close>, \<open>y\<close>, width and
  height, the \<open>x\<close> and the \<open>y\<close> of each of the three strategy regions are non-negative.
\<close>

theorem strategy_regions_nonneg:
  "0 \<le> regionY (snd (strategies box ! 0)) \<and> 0 \<le> regionY (snd (strategies box ! 1))
   \<and> (0 \<le> x \<and> 0 \<le> y \<and> 0 \<le> w \<and> 0 \<le> h \<longrightarrow>
        (\<forall>s \<in> set (strategies (x, y, w, h)). 0 \<le> regionX (snd s) \<and> 0 \<le> regionY (snd s)))"
  by (cases box) (auto simp: strategies_def)

theorem strategy_regions_nonneg_witness:
  "map (\<lambda>s. (regionX (snd s), regionY (snd s))) (strategies (100, 20, 200, 150))
     = [(100, 0), (110, 25 / 2), (120, 20)]
   \<and> list_all (\<lambda>s. 0 \<le> regionX (snd s) \<and> 0 \<le> regionY (snd s)) (strategies (100, 20, 200, 150))"
  using strategy_regions_nonneg [of "(100, 20, 200, 150)" 100 20 200 150]
  by (simp add: strategies_def)

text \<open>C5 as the claim states it fails: the centre-crop region of the box
  \<open>(0, 0, 10, 10)\<close> starts at \<open>(-5, -5)\<close>, and the \<open>x\<close> of a strategy region is the
  box's own \<open>x\<close>, shifted right, whatever its sign.\<close>

theorem region_clamp_claim_fails:
  "regionX (centerRegion (0, 0, 10, 10)) = -5 \<and> regionY (centerRegion (0, 0, 10, 10)) = -5
   \<and> regionX (snd (hd (strategies (-3, 0, 10, 10)))) = -3"
  by (simp add: centerRegion_def strategies_def Let_def)

subsection \<open>Exhaustion of the fallback chain\<close>

lemma byteAt_append_left: "i < length xs \<Longrightarrow> byteAt (xs @ ys) i = byteAt xs i"
  by (simp add: byteAt_def nth_append)

lemma byteAt_append_right: "byteAt (xs @ ys) (length xs + j) = byteAt ys j"
  by (simp add: byteAt_def nth_append)

lemma strategyVisit_append_right:
  "strategyVisit (xs @ ys) (length xs + j) acc = strategyVisit ys j acc"
  using byteAt_append_right [of xs ys j] byteAt_append_right [of xs ys "j + 1"]
        byteAt_append_right [of xs ys "j + 2"] byteAt_append_right [of xs ys "j + 3"]
  by (simp add: strategyVisit_def add.assoc)

lemma strategyVisit_append_left:
  "i + 3 < length xs \<Longrightarrow> strategyVisit (xs @ ys) i acc = strategyVisit xs i acc"
  by (simp add: strategyVisit_def byteAt_append_left)

lemma strategyLoop_shift:
  "strategyLoop (xs @ ys) (length xs + j) acc = strategyLoop ys j acc"
proof (induction ys j acc rule: strategyLoop.induct)
  case (1 ys j acc)
  show ?case
  proof (cases "j < length ys")
    case True
    have "strategyLoop (xs @ ys) (length xs + j) acc
            = strategyLoop (xs @ ys) (length xs + (j + 8)) (strategyVisit (xs @ ys) (length xs + j) acc)"
      using True by (subst strategyLoop.simps) (simp add: add.assoc)
    also have "\<dots> = strategyLoop ys (j + 8) (strategyVisit ys j acc)"
      using "1.IH" [OF True] by (simp add: strategyVisit_append_right)
    also have "\<dots> = strategyLoop ys j acc"
      using True by (subst (2) strategyLoop.simps) simp
    finally show ?thesis .
  next
    case False
    then show ?thesis
      by (subst strategyLoop.simps, subst (2) strategyLoop.simps) simp
  qed
qed

lemma strategyLoop_append_aux:
  "8 dvd length xs \<Longrightarrow> 8 dvd i \<Longrightarrow> i \<le> length xs \<Longrightarrow>
     strategyLoop (xs @ ys) i acc = strategyLoop ys 0 (strategyLoop xs i acc)"
proof (induction xs i acc rule: strategyLoop.induct)
  case (1 xs i acc)
  show ?case
  proof (cases "i < length xs")
    case True
    with "1.prems" have le: "i + 8 \<le> length xs" by (auto elim!: dvdE)
    have "strategyLoop (xs @ ys) i acc
            = strategyLoop (xs @ ys) (i + 8) (strategyVisit (xs @ ys) i acc)"
      using True by (subst strategyLoop.simps) simp
    also have "\<dots> = strategyLoop (xs @ ys) (i + 8) (strategyVisit xs i acc)"
      using le by (simp add: strategyVisit_append_left)
    also have "\<dots> = strategyLoop ys 0 (strategyLoop xs (i + 8) (strategyVisit xs i acc))"
      using "1.IH" [OF True] "1.prems" le by simp
    also have "\<dots> = strategyLoop ys 0 (strategyLoop xs i acc)"
      using True by (subst (3) strategyLoop.simps) simp
    finally show ?thesis .
  next
    case False
    with "1.prems" have "i = length xs" by simp
    then show ?thesis
      using strategyLoop_shift [of xs ys 0 acc]
      by (subst (3) strategyLoop.simps) simp
  qed
qed

lemma strategyLoop_append:
  "8 dvd length xs \<Longrightarrow> strategyLoop (xs @ ys) 0 acc = strategyLoop ys 0 (strategyLoop xs 0 acc)"
  by (rule strategyLoop_append_aux) simp_all

lemma blue_pixel: "getAdvancedColorName 30 30 200 = ''Indigo''"
  by (simp add: getAdvancedColorName_def rgbToHsl_def colorNameOfHsl_def greenBand_def blueBand_def Let_def)
lemma white_pixel: "getAdvancedColorName 250 250 250 = ''White''"
  by (simp add: getAdvancedColorName_def rgbToHsl_def colorNameOfHsl_def Let_def)
lemma gray_pixel: "getAdvancedColorName 128 128 128 = ''Gray''"
  by (simp add: getAdvancedColorName_def rgbToHsl_def colorNameOfHsl_def grayscaleName_def Let_def)
lemma black_pixel: "getAdvancedColorName 10 10 10 = ''Black''"
  by (simp add: getAdvancedColorName_def rgbToHsl_def colorNameOfHsl_def Let_def)
lemma silver_pixel: "getAdvancedColorName 200 200 200 = ''Silver''"
  by (simp add: getAdvancedColorName_def rgbToHsl_def colorNameOfHsl_def grayscaleName_def Let_def)

lemmas pixel_names = red_pixel blue_pixel white_pixel gray_pixel black_pixel silver_pixel

lemma spreadBlock_first:
  "strategyLoop spreadBlock 0 ([], 0) =
     ([(''Red'', 1), (''Indigo'', 1), (''White'', 1), (''Gray'', 1), (''Black'', 1), (''Silver'', 1)], 6)"
  by (simp add: spreadBlock_def strategyLoop.simps strategyVisit_def byteAt_def
        strategyPixelValid_def pixel_names)

lemma spreadBlock_next:
  "strategyLoop spreadBlock 0
     ([(''Red'', k), (''Indigo'', k), (''White'', k), (''Gray'', k), (''Black'', k), (''Silver'', k)], n) =
     ([(''Red'', k + 1), (''Indigo'', k + 1), (''White'', k + 1), (''Gray'', k + 1), (''Black'', k + 1),
       (''Silver'', k + 1)], n + 6)"
  by (simp add: spreadBlock_def strategyLoop.simps strategyVisit_def byteAt_def
        strategyPixelValid_def pixel_names)


lemma spreadBlock_length: "8 dvd length spreadBlock"
proof -
  have "length spreadBlock = 48" by (simp add: spreadBlock_def)
  then show ?thesis by simp
qed

lemma spread_repeat:
  "strategyLoop (concat (replicate m spreadBlock)) 0 (spreadHistogram k, n)
     = (spreadHistogram (k + m), n + 6 * m)"
proof (induction m arbitrary: k n)
  case 0
  then show ?case by (simp add: strategyLoop.simps)
next
  case (Suc m)
  note len = spreadBlock_length
  show ?case
    using Suc.IH [of "k + 1" "n + 6"] spreadBlock_next [of k n]
    by (simp add: strategyLoop_append [OF len] spreadHistogram_def)
qed

lemma spread_histogram:
  "strategyLoop spreadData 0 ([], 0) = (spreadHistogram 10, 60)"
proof -
  have eq: "spreadData = spreadBlock @ concat (replicate 9 spreadBlock)"
    by (simp add: spreadData_def numeral_eq_Suc)
  have "strategyLoop spreadData 0 ([], 0)
          = strategyLoop (spreadBlock @ concat (replicate 9 spreadBlock)) 0 ([], 0)"
    by (simp only: eq)
  also have "\<dots> = strategyLoop (concat (replicate 9 spreadBlock)) 0
                      (strategyLoop spreadBlock 0 ([], 0))"
    by (rule strategyLoop_append [OF spreadBlock_length])
  also have "\<dots> = strategyLoop (concat (replicate 9 spreadBlock)) 0 (spreadHistogram 1, 6)"
    by (simp add: spreadBlock_first spreadHistogram_def)
  also have "\<dots> = (spreadHistogram 10, 60)"
    using spread_repeat [of 9 1 6] by simp
  finally show ?thesis .
qed

lemma spread_confidence: "confidence (strategyResult name spreadData) = 1 / 6"
  by (simp add: strategyResult_def spread_histogram spreadHistogram_def dominantOfStrategy_def
        sortByCount_def coloredPixels_def totalColoredPixels_def blackColors_def
        strategyConfidence_def Let_def)

lemma keepBest_low:
  assumes "\<forall>b. best = Some b \<longrightarrow> confidence b \<le> c" and "confidence r \<le> c"
  shows "\<exists>b. keepBest best r = Some b \<and> confidence b \<le> c"
  using assms by (cases best) (auto simp: keepBest_def)

lemma strategyPass_all_low:
  assumes "\<forall>i < length ss. createContext fr (k + i) = Inr True"
      and "\<forall>s \<in> set ss. \<exists>data. readRegion fr (snd s) = Inr data
                              \<and> confidence (strategyResult (fst s) data) \<le> c"
      and "\<forall>b. best = Some b \<longrightarrow> confidence b \<le> c"
  shows "\<exists>res. strategyPass fr k ss best = Inr res
           \<and> (\<forall>b. res = Some b \<longrightarrow> confidence b \<le> c)"
  using assms
proof (induction ss arbitrary: k best)
  case Nil
  then show ?case by simp
next
  case (Cons s ss)
  from Cons.prems(1) have ctx: "createContext fr k = Inr True" by force
  from Cons.prems(2) obtain data where
    rd: "readRegion fr (snd s) = Inr data" and low: "confidence (strategyResult (fst s) data) \<le> c"
    by auto
  from keepBest_low [OF Cons.prems(3) low] obtain b where
    kb: "keepBest best (strategyResult (fst s) data) = Some b" and b: "confidence b \<le> c"
    by blast
  have ctx': "\<forall>i < length ss. createContext fr (k + 1 + i) = Inr True"
  proof (intro allI impI)
    fix i assume "i < length ss"
    then have "Suc i < length (s # ss)" by simp
    with Cons.prems(1) have "createContext fr (k + Suc i) = Inr True" by blast
    then show "createContext fr (k + 1 + i) = Inr True" by simp
  qed
  have "\<exists>res. strategyPass fr (k + 1) ss (Some b) = Inr res
           \<and> (\<forall>b'. res = Some b' \<longrightarrow> confidence b' \<le> c)"
    using Cons.IH [OF ctx', of "Some b"] Cons.prems(2) b by simp
  then show ?case using ctx rd kb by simp
qed

lemma centerFallback_few:
  assumes "readRegion fr (centerRegion bbox) = Inr cdata"
      and "snd (centerLoop cdata 0 ([], 0)) \<le> 5"
  shows "centerFallback fr bbox = None"
  using assms by (auto simp: centerFallback_def split: sum.splits prod.splits)

lemma truck_fallback:
  "getFallbackColor ''truck'' =
     \<lparr>color = ''White'', colorHex = ''#FFFFFF'', confidence = 0.3, methodUsed = Fallback,
      debugInfo = None\<rparr>"
  by (simp add: getFallbackColor_def fallbackColorMap_def toLowerCase_def toLowerCaseChar_def
        upperLetters_def lowerLetters_def)

text \<open>
  C1. Whenever each of the three region strategies draws and reads its region and yields a
  confidence of at most 0.2, and the centre-crop fallback reads its region and counts
  fewer than 5 valid pixels, the extraction for the vehicle class "truck" returns the
  colour White with hex code #FFFFFF, confidence 0.3 and method Fallback.
\<close>

theorem truck_default_after_exhaustion:
  assumes "\<forall>k < 3. createContext fr k = Inr True"
      and "\<forall>s \<in> set (strategies bbox). \<exists>data. readRegion fr (snd s) = Inr data
                              \<and> confidence (strategyResult (fst s) data) \<le> 0.2"
      and "createContext fr 3 = Inr True"
      and "readRegion fr (centerRegion bbox) = Inr cdata"
      and "snd (centerLoop cdata 0 ([], 0)) < 5"
  shows "extractDominantColorWithDebug fr bbox ''truck'' =
           \<lparr>color = ''White'', colorHex = ''#FFFFFF'', confidence = 0.3, methodUsed = Fallback,
            debugInfo = Some ''All strategies failed, using fallback''\<rparr>"
proof -
  have len: "length (strategies bbox) = 3"
    by (cases bbox) (simp add: strategies_def)
  have "\<forall>i < length (strategies bbox). createContext fr (0 + i) = Inr True"
    using assms(1) len by simp
  from strategyPass_all_low [OF this assms(2), of None]
  obtain res where pass: "strategyPass fr 0 (strategies bbox) None = Inr res"
    and low: "\<forall>b. res = Some b \<longrightarrow> confidence b \<le> 0.2"
    by auto
  have center: "centerFallback fr bbox = None"
    using centerFallback_few [OF assms(4)] assms(5) by simp
  have "extractBody fr bbox ''truck'' = Inr (finalFallback fr bbox ''truck'')"
    using pass low by (cases res) (auto simp: extractBody_def)
  then show ?thesis
    by (simp add: extractDominantColorWithDebug_def finalFallback_def center truck_fallback)
qed

lemma centerLoop_empty: "centerLoop [] 0 ([], 0) = ([], 0)"
  by (simp add: centerLoop.simps)

theorem truck_default_after_exhaustion_witness:
  "extractDominantColorWithDebug spreadFrame (0, 0, 40, 40) ''truck'' =
           \<lparr>color = ''White'', colorHex = ''#FFFFFF'', confidence = 0.3, methodUsed = Fallback,
            debugInfo = Some ''All strategies failed, using fallback''\<rparr>"
proof -
  have a1: "\<forall>k < 3. createContext spreadFrame k = Inr True"
    by (simp add: spreadFrame_def)
  have a2: "\<forall>s \<in> set (strategies (0, 0, 40, 40)). \<exists>data. readRegion spreadFrame (snd s) = Inr data
                              \<and> confidence (strategyResult (fst s) data) \<le> 0.2"
    by (simp add: strategies_def spreadFrame_def spread_confidence)
  have a3: "createContext spreadFrame 3 = Inr True"
    by (simp add: spreadFrame_def)
  have a4: "readRegion spreadFrame (centerRegion (0, 0, 40, 40)) = Inr []"
    by (simp add: spreadFrame_def centerRegion_def Let_def)
  have a5: "snd (centerLoop [] 0 ([], 0)) < 5"
    by (simp add: centerLoop_empty)
  show ?thesis
    by (rule truck_default_after_exhaustion [OF a1 a2 a3 a4 a5])
qed


subsection \<open>Regions without a valid pixel\<close>

lemma bump_nonempty: "bump cc k \<noteq> []"
  by (cases cc) (auto split: if_splits)

lemma strategyVisit_empty_iff:
  "(fst acc = [] \<longleftrightarrow> snd acc = 0) \<Longrightarrow>
     (fst (strategyVisit data i acc) = [] \<longleftrightarrow> snd (strategyVisit data i acc) = 0)"
  by (auto simp: strategyVisit_def bump_nonempty split: option.splits)

lemma foldl_strategyVisit_empty_iff:
  "(fst acc = [] \<longleftrightarrow> snd acc = 0) \<Longrightarrow>
     (fst (foldl (\<lambda>a j. strategyVisit data j a) acc js) = []
        \<longleftrightarrow> snd (foldl (\<lambda>a j. strategyVisit data j a) acc js) = 0)"
proof (induction js arbitrary: acc)
  case Nil
  then show ?case by simp
next
  case (Cons j js)
  show ?case
    using Cons.IH [OF strategyVisit_empty_iff [OF Cons.prems]] by simp
qed

lemma strategyLoop_no_pixels:
  assumes "snd (strategyLoop data 0 ([], 0)) = 0"
  shows "strategyLoop data 0 ([], 0) = ([], 0)"
proof -
  have "fst (strategyLoop data 0 ([], 0)) = [] \<longleftrightarrow> snd (strategyLoop data 0 ([], 0)) = 0"
    unfolding strategyLoop_foldl by (rule foldl_strategyVisit_empty_iff) simp
  with assms show ?thesis by (simp add: prod_eq_iff)
qed

lemma unknown_hex: "getColorHex ''Unknown'' = ''#808080''"
  by (simp add: getColorHex_def colorHexTable_def)

lemma strategyResult_no_pixels:
  assumes "snd (strategyLoop data 0 ([], 0)) = 0"
  shows "strategyResult name data =
           \<lparr>color = ''Unknown'', colorHex = ''#808080'', confidence = 0.4,
            methodUsed = PixelAnalysis,
            debugInfo = Some (''Strategy: '' @ name @ '', Pixels: 0, Top colors: '')\<rparr>"
  by (simp add: strategyResult_def strategyLoop_no_pixels [OF assms] dominantOfStrategy_def
        sortByCount_def strategyConfidence_def unknown_hex showNat.simps digitChar_def
        topColorsText_def)

lemma strategyPass_keep:
  assumes "\<forall>i < length ss. createContext fr (k + i) = Inr True"
      and "\<forall>s \<in> set ss. \<exists>data. readRegion fr (snd s) = Inr data
                              \<and> confidence (strategyResult (fst s) data) \<le> confidence b"
  shows "strategyPass fr k ss (Some b) = Inr (Some b)"
  using assms
proof (induction ss arbitrary: k)
  case Nil
  then show ?case by simp
next
  case (Cons s ss)
  from Cons.prems(1) have ctx: "createContext fr k = Inr True" by force
  from Cons.prems(2) obtain data where
    rd: "readRegion fr (snd s) = Inr data"
    and le: "confidence (strategyResult (fst s) data) \<le> confidence b"
    by auto
  have kb: "keepBest (Some b) (strategyResult (fst s) data) = Some b"
    using le by (simp add: keepBest_def)
  have ctx': "\<forall>i < length ss. createContext fr (k + 1 + i) = Inr True"
  proof (intro allI impI)
    fix i assume "i < length ss"
    then have "Suc i < length (s # ss)" by simp
    with Cons.prems(1) have "createContext fr (k + Suc i) = Inr True" by blast
    then show "createContext fr (k + 1 + i) = Inr True" by simp
  qed
  have "strategyPass fr (k + 1) ss (Some b) = Inr (Some b)"
    using Cons.IH [OF ctx'] Cons.prems(2) by simp
  then show ?case using ctx rd kb by simp
qed

text \<open>
  C3. If each of the three region strategies draws and reads its region and counts no
  valid pixel, the extraction returns, for every vehicle class, the colour name Unknown
  with hex code #808080, confidence 0.4 and method pixel-analysis: the candidate of the
  first strategy, which passes the acceptance test \<open>confidence > 0.2\<close>, so that the
  result does not depend on what the centre crop would read, and the per-class default
  is not used.
\<close>

theorem unknown_when_no_valid_pixels:
  assumes "\<forall>k < 3. createContext fr k = Inr True"
      and "\<forall>s \<in> set (strategies bbox). \<exists>data. readRegion fr (snd s) = Inr data
                              \<and> snd (strategyLoop data 0 ([], 0)) = 0"
  shows "extractDominantColorWithDebug fr bbox vehicleType =
           \<lparr>color = ''Unknown'', colorHex = ''#808080'', confidence = 0.4,
            methodUsed = PixelAnalysis,
            debugInfo = Some ''Strategy: Full Vehicle (Adjusted), Pixels: 0, Top colors: ''\<rparr>"
proof -
  obtain s0 ss where split: "strategies bbox = s0 # ss"
    and name: "fst s0 = ''Full Vehicle (Adjusted)''" and len: "length ss = 2"
    by (cases bbox) (simp add: strategies_def)
  from assms(2) obtain d0 where d0: "readRegion fr (snd s0) = Inr d0"
      and z0: "snd (strategyLoop d0 0 ([], 0)) = 0"
    unfolding split by auto
  let ?b = "strategyResult (fst s0) d0"
  have conf: "confidence ?b = 0.4"
    by (simp add: strategyResult_no_pixels [OF z0])
  have rest: "\<forall>s \<in> set ss. \<exists>data. readRegion fr (snd s) = Inr data
                              \<and> confidence (strategyResult (fst s) data) \<le> confidence ?b"
  proof
    fix s assume "s \<in> set ss"
    with assms(2) obtain data where "readRegion fr (snd s) = Inr data"
        "snd (strategyLoop data 0 ([], 0)) = 0"
      unfolding split by auto
    then show "\<exists>data. readRegion fr (snd s) = Inr data
                 \<and> confidence (strategyResult (fst s) data) \<le> confidence ?b"
      by (auto simp: strategyResult_no_pixels conf)
  qed
  have ctx: "\<forall>i < length ss. createContext fr (0 + 1 + i) = Inr True"
    using assms(1) len by simp
  have "strategyPass fr 0 (strategies bbox) None = strategyPass fr (0 + 1) ss (Some ?b)"
    using assms(1) d0 by (simp add: split keepBest_def)
  also have "\<dots> = Inr (Some ?b)"
    by (rule strategyPass_keep [OF ctx rest])
  finally have "extractBody fr bbox vehicleType = Inr ?b"
    by (simp add: extractBody_def conf)
  then show ?thesis
    by (simp add: extractDominantColorWithDebug_def strategyResult_no_pixels [OF z0] name)
qed

lemma blank_no_pixels:
  "snd (strategyLoop [0, 0, 0, 0,  0, 0, 0, 0,  0, 0, 0, 0,  0, 0, 0, 0] 0 ([], 0)) = 0"
  by (simp add: strategyLoop.simps strategyVisit_def byteAt_def strategyPixelValid_def)

theorem unknown_when_no_valid_pixels_witness:
  "extractDominantColorWithDebug blankFrame (100, 100, 200, 150) ''car'' =
           \<lparr>color = ''Unknown'', colorHex = ''#808080'', confidence = 0.4,
            methodUsed = PixelAnalysis,
            debugInfo = Some ''Strategy: Full Vehicle (Adjusted), Pixels: 0, Top colors: ''\<rparr>"
proof -
  have a1: "\<forall>k < 3. createContext blankFrame k = Inr True"
    by (simp add: blankFrame_def)
  have a2: "\<forall>s \<in> set (strategies (100, 100, 200, 150)).
              \<exists>data. readRegion blankFrame (snd s) = Inr data
                      \<and> snd (strategyLoop data 0 ([], 0)) = 0"
    by (simp add: blankFrame_def blank_no_pixels)
  show ?thesis
    by (rule unknown_when_no_valid_pixels [OF a1 a2])
qed


subsection \<open>Failures inside the extraction\<close>

lemma keepBest_cases:
  "keepBest best c = Some c \<and> (\<forall>b. best = Some b \<longrightarrow> confidence b < confidence c)
   \<or> keepBest best c = best \<and> (\<exists>b. best = Some b \<and> confidence c \<le> confidence b)"
  by (cases best) (auto simp: keepBest_def)

lemma strategyPass_best:
  assumes "strategyPass fr k ss best = Inr res"
  shows "(res = best
          \<and> (\<forall>i < length ss. \<forall>d. createContext fr (k + i) = Inr True
                 \<and> readRegion fr (snd (ss ! i)) = Inr d \<longrightarrow>
                 (\<exists>b. best = Some b \<and> confidence (strategyResult (fst (ss ! i)) d) \<le> confidence b)))
       \<or> (\<exists>j < length ss. \<exists>data. (createContext fr (k + j) = Inr True
             \<and> readRegion fr (snd (ss ! j)) = Inr data)
             \<and> res = Some (strategyResult (fst (ss ! j)) data)
             \<and> (\<forall>b. best = Some b \<longrightarrow> confidence b < confidence (strategyResult (fst (ss ! j)) data))
             \<and> (\<forall>i < length ss. \<forall>d. createContext fr (k + i) = Inr True
                   \<and> readRegion fr (snd (ss ! i)) = Inr d \<longrightarrow>
                   confidence (strategyResult (fst (ss ! i)) d)
                     \<le> confidence (strategyResult (fst (ss ! j)) data)
                   \<and> (i < j \<longrightarrow> confidence (strategyResult (fst (ss ! i)) d)
                                  < confidence (strategyResult (fst (ss ! j)) data))))"
  using assms
proof (induction ss arbitrary: k best)
  case Nil
  then show ?case by simp
next
  case (Cons s ss)
  let ?sr = "\<lambda>xs i d. strategyResult (fst (xs ! i)) d"
  let ?ok = "\<lambda>xs k i d. createContext fr (k + i) = Inr True \<and> readRegion fr (snd (xs ! i)) = Inr d"
  have shift: "\<And>i d. ?ok (s # ss) k (Suc i) d = ?ok ss (k + 1) i d" by simp
  show ?case
  proof (cases "\<exists>d0. createContext fr k = Inr True \<and> readRegion fr (snd s) = Inr d0")
    case False
    then have skip: "strategyPass fr (k + 1) ss best = Inr res"
      using Cons.prems by (auto split: sum.splits if_splits)
    have no0: "\<And>d. ?ok (s # ss) k 0 d \<Longrightarrow> False" using False by simp
    from Cons.IH [OF skip] show ?thesis
    proof
      assume h: "res = best \<and> (\<forall>i<length ss. \<forall>d. ?ok ss (k + 1) i d \<longrightarrow>
                   (\<exists>b. best = Some b \<and> confidence (?sr ss i d) \<le> confidence b))"
      have "\<forall>i<length (s # ss). \<forall>d. ?ok (s # ss) k i d \<longrightarrow>
                   (\<exists>b. best = Some b \<and> confidence (?sr (s # ss) i d) \<le> confidence b)"
      proof (intro allI impI)
        fix i d assume i: "i < length (s # ss)" and ok: "?ok (s # ss) k i d"
        show "\<exists>b. best = Some b \<and> confidence (?sr (s # ss) i d) \<le> confidence b"
        proof (cases i)
          case 0
          with ok have "?ok (s # ss) k 0 d" by simp
          then show ?thesis using no0 by blast
        next
          case (Suc i')
          with i ok h show ?thesis by simp
        qed
      qed
      with h show ?thesis by blast
    next
      assume "\<exists>j<length ss. \<exists>data. ?ok ss (k + 1) j data
             \<and> res = Some (?sr ss j data)
             \<and> (\<forall>b. best = Some b \<longrightarrow> confidence b < confidence (?sr ss j data))
             \<and> (\<forall>i<length ss. \<forall>d. ?ok ss (k + 1) i d \<longrightarrow>
                   confidence (?sr ss i d) \<le> confidence (?sr ss j data)
                   \<and> (i < j \<longrightarrow> confidence (?sr ss i d) < confidence (?sr ss j data)))"
      then obtain j data where j: "j < length ss" "?ok ss (k + 1) j data"
          "res = Some (?sr ss j data)"
          "\<forall>b. best = Some b \<longrightarrow> confidence b < confidence (?sr ss j data)"
          and others: "\<forall>i<length ss. \<forall>d. ?ok ss (k + 1) i d \<longrightarrow>
                   confidence (?sr ss i d) \<le> confidence (?sr ss j data)
                   \<and> (i < j \<longrightarrow> confidence (?sr ss i d) < confidence (?sr ss j data))"
        by blast
      have "\<forall>i<length (s # ss). \<forall>d. ?ok (s # ss) k i d \<longrightarrow>
               confidence (?sr (s # ss) i d) \<le> confidence (?sr (s # ss) (Suc j) data)
               \<and> (i < Suc j \<longrightarrow> confidence (?sr (s # ss) i d) < confidence (?sr (s # ss) (Suc j) data))"
      proof (intro allI impI)
        fix i d assume i: "i < length (s # ss)" and ok: "?ok (s # ss) k i d"
        show "confidence (?sr (s # ss) i d) \<le> confidence (?sr (s # ss) (Suc j) data)
               \<and> (i < Suc j \<longrightarrow> confidence (?sr (s # ss) i d) < confidence (?sr (s # ss) (Suc j) data))"
        proof (cases i)
          case 0
          with ok have "?ok (s # ss) k 0 d" by simp
          then show ?thesis using no0 by blast
        next
          case (Suc i')
          with i ok others show ?thesis by simp
        qed
      qed
      moreover have "Suc j < length (s # ss)" "?ok (s # ss) k (Suc j) data"
          "res = Some (?sr (s # ss) (Suc j) data)"
          "\<forall>b. best = Some b \<longrightarrow> confidence b < confidence (?sr (s # ss) (Suc j) data)"
        using j by simp_all
      ultimately show ?thesis by blast
    qed
  next
    case True
    then obtain d0 where ok0: "createContext fr k = Inr True" "readRegion fr (snd s) = Inr d0"
      by blast
    let ?c0 = "strategyResult (fst s) d0"
    have run: "strategyPass fr (k + 1) ss (keepBest best ?c0) = Inr res"
      using Cons.prems ok0 by simp
    have only0: "\<And>d. ?ok (s # ss) k 0 d \<Longrightarrow> d = d0" using ok0 by simp
    from keepBest_cases [of best ?c0] show ?thesis
    proof
      assume took: "keepBest best ?c0 = Some ?c0
                    \<and> (\<forall>b. best = Some b \<longrightarrow> confidence b < confidence ?c0)"
      from Cons.IH [OF run] show ?thesis
      proof
        assume h: "res = keepBest best ?c0 \<and> (\<forall>i<length ss. \<forall>d. ?ok ss (k + 1) i d \<longrightarrow>
                   (\<exists>b. keepBest best ?c0 = Some b \<and> confidence (?sr ss i d) \<le> confidence b))"
        have "\<forall>i<length (s # ss). \<forall>d. ?ok (s # ss) k i d \<longrightarrow>
               confidence (?sr (s # ss) i d) \<le> confidence (?sr (s # ss) 0 d0)
               \<and> (i < 0 \<longrightarrow> confidence (?sr (s # ss) i d) < confidence (?sr (s # ss) 0 d0))"
        proof (intro allI impI)
          fix i d assume i: "i < length (s # ss)" and ok: "?ok (s # ss) k i d"
          show "confidence (?sr (s # ss) i d) \<le> confidence (?sr (s # ss) 0 d0)
               \<and> (i < 0 \<longrightarrow> confidence (?sr (s # ss) i d) < confidence (?sr (s # ss) 0 d0))"
          proof (cases i)
            case 0
            with only0 [of d] ok show ?thesis by simp
          next
            case (Suc i')
            with i ok h took show ?thesis by auto
          qed
        qed
        moreover have "0 < length (s # ss)" "?ok (s # ss) k 0 d0"
            "res = Some (?sr (s # ss) 0 d0)"
            "\<forall>b. best = Some b \<longrightarrow> confidence b < confidence (?sr (s # ss) 0 d0)"
          using ok0 h took by simp_all
        ultimately show ?thesis by blast
      next
        assume "\<exists>j<length ss. \<exists>data. ?ok ss (k + 1) j data
             \<and> res = Some (?sr ss j data)
             \<and> (\<forall>b. keepBest best ?c0 = Some b \<longrightarrow> confidence b < confidence (?sr ss j data))
             \<and> (\<forall>i<length ss. \<forall>d. ?ok ss (k + 1) i d \<longrightarrow>
                   confidence (?sr ss i d) \<le> confidence (?sr ss j data)
                   \<and> (i < j \<longrightarrow> confidence (?sr ss i d) < confidence (?sr ss j data)))"
        then obtain j data where j: "j < length ss" "?ok ss (k + 1) j data"
            "res = Some (?sr ss j data)"
            "\<forall>b. keepBest best ?c0 = Some b \<longrightarrow> confidence b < confidence (?sr ss j data)"
            and others: "\<forall>i<length ss. \<forall>d. ?ok ss (k + 1) i d \<longrightarrow>
                   confidence (?sr ss i d) \<le> confidence (?sr ss j data)
                   \<and> (i < j \<longrightarrow> confidence (?sr ss i d) < confidence (?sr ss j data))"
          by blast
        have c0_less: "confidence ?c0 < confidence (?sr ss j data)" using j(4) took by simp
        have "\<forall>i<length (s # ss). \<forall>d. ?ok (s # ss) k i d \<longrightarrow>
               confidence (?sr (s # ss) i d) \<le> confidence (?sr (s # ss) (Suc j) data)
               \<and> (i < Suc j \<longrightarrow> confidence (?sr (s # ss) i d) < confidence (?sr (s # ss) (Suc j) data))"
        proof (intro allI impI)
          fix i d assume i: "i < length (s # ss)" and ok: "?ok (s # ss) k i d"
          show "confidence (?sr (s # ss) i d) \<le> confidence (?sr (s # ss) (Suc j) data)
               \<and> (i < Suc j \<longrightarrow> confidence (?sr (s # ss) i d) < confidence (?sr (s # ss) (Suc j) data))"
          proof (cases i)
            case 0
            with only0 [of d] ok c0_less show ?thesis by simp
          next
            case (Suc i')
            with i ok others show ?thesis by simp
          qed
        qed
        moreover have "Suc j < length (s # ss)" "?ok (s # ss) k (Suc j) data"
            "res = Some (?sr (s # ss) (Suc j) data)"
            "\<forall>b. best = Some b \<longrightarrow> confidence b < confidence (?sr (s # ss) (Suc j) data)"
          using j took c0_less by auto
        ultimately show ?thesis by blast
      qed
    next
      assume kept: "keepBest best ?c0 = best
                    \<and> (\<exists>b. best = Some b \<and> confidence ?c0 \<le> confidence b)"
      then obtain b where b: "best = Some b" "confidence ?c0 \<le> confidence b" by blast
      have run': "strategyPass fr (k + 1) ss best = Inr res" using run kept by simp
      from Cons.IH [OF run'] show ?thesis
      proof
        assume h: "res = best \<and> (\<forall>i<length ss. \<forall>d. ?ok ss (k + 1) i d \<longrightarrow>
                   (\<exists>b. best = Some b \<and> confidence (?sr ss i d) \<le> confidence b))"
        have "\<forall>i<length (s # ss). \<forall>d. ?ok (s # ss) k i d \<longrightarrow>
                   (\<exists>b. best = Some b \<and> confidence (?sr (s # ss) i d) \<le> confidence b)"
        proof (intro allI impI)
          fix i d assume i: "i < length (s # ss)" and ok: "?ok (s # ss) k i d"
          show "\<exists>b. best = Some b \<and> confidence (?sr (s # ss) i d) \<le> confidence b"
          proof (cases i)
            case 0
            with only0 [of d] ok b show ?thesis by simp
          next
            case (Suc i')
            with i ok h show ?thesis by simp
          qed
        qed
        with h show ?thesis by blast
      next
        assume "\<exists>j<length ss. \<exists>data. ?ok ss (k + 1) j data
             \<and> res = Some (?sr ss j data)
             \<and> (\<forall>b. best = Some b \<longrightarrow> confidence b < confidence (?sr ss j data))
             \<and> (\<forall>i<length ss. \<forall>d. ?ok ss (k + 1) i d \<longrightarrow>
                   confidence (?sr ss i d) \<le> confidence (?sr ss j data)
                   \<and> (i < j \<longrightarrow> confidence (?sr ss i d) < confidence (?sr ss j data)))"
        then obtain j data where j: "j < length ss" "?ok ss (k + 1) j data"
            "res = Some (?sr ss j data)"
            "\<forall>b. best = Some b \<longrightarrow> confidence b < confidence (?sr ss j data)"
            and others: "\<forall>i<length ss. \<forall>d. ?ok ss (k + 1) i d \<longrightarrow>
                   confidence (?sr ss i d) \<le> confidence (?sr ss j data)
                   \<and> (i < j \<longrightarrow> confidence (?sr ss i d) < confidence (?sr ss j data))"
          by blast
        have c0_less: "confidence ?c0 < confidence (?sr ss j data)" using j(4) b by simp
        have "\<forall>i<length (s # ss). \<forall>d. ?ok (s # ss) k i d \<longrightarrow>
               confidence (?sr (s # ss) i d) \<le> confidence (?sr (s # ss) (Suc j) data)
               \<and> (i < Suc j \<longrightarrow> confidence (?sr (s # ss) i d) < confidence (?sr (s # ss) (Suc j) data))"
        proof (intro allI impI)
          fix i d assume i: "i < length (s # ss)" and ok: "?ok (s # ss) k i d"
          show "confidence (?sr (s # ss) i d) \<le> confidence (?sr (s # ss) (Suc j) data)
               \<and> (i < Suc j \<longrightarrow> confidence (?sr (s # ss) i d) < confidence (?sr (s # ss) (Suc j) data))"
          proof (cases i)
            case 0
            with only0 [of d] ok c0_less show ?thesis by simp
          next
            case (Suc i')
            with i ok others show ?thesis by simp
          qed
        qed
        moreover have "Suc j < length (s # ss)" "?ok (s # ss) k (Suc j) data"
            "res = Some (?sr (s # ss) (Suc j) data)"
            "\<forall>b. best = Some b \<longrightarrow> confidence b < confidence (?sr (s # ss) (Suc j) data)"
          using j by simp_all
        ultimately show ?thesis by blast
      qed
    qed
  qed
qed


lemma strategyPass_raises:
  "j < length ss \<Longrightarrow> createContext fr (k + j) = Inl err \<Longrightarrow>
     \<forall>i < j. \<exists>c. createContext fr (k + i) = Inr c \<Longrightarrow>
     strategyPass fr k ss best = Inl err"
proof (induction ss arbitrary: k j best)
  case Nil
  then show ?case by simp
next
  case (Cons s ss)
  show ?case
  proof (cases j)
    case 0
    with Cons.prems show ?thesis by simp
  next
    case (Suc j')
    then have "0 < j" by simp
    with Cons.prems(3) have "\<exists>c. createContext fr (k + 0) = Inr c" by blast
    then obtain c where c: "createContext fr k = Inr c" by auto
    have a: "j' < length ss" using Cons.prems(1) Suc by simp
    have b: "createContext fr (k + 1 + j') = Inl err" using Cons.prems(2) Suc by simp
    have d: "\<forall>i < j'. \<exists>c. createContext fr (k + 1 + i) = Inr c"
    proof (intro allI impI)
      fix i assume "i < j'"
      then have "Suc i < j" using Suc by simp
      with Cons.prems(3) have "\<exists>c. createContext fr (k + Suc i) = Inr c" by blast
      then show "\<exists>c. createContext fr (k + 1 + i) = Inr c" by simp
    qed
    have "\<And>best'. strategyPass fr (k + 1) ss best' = Inl err"
      using Cons.IH [OF a b d] .
    then show ?thesis using c by (simp split: sum.splits)
  qed
qed

lemma strategyPass_returns:
  "\<forall>i < length ss. \<exists>c. createContext fr (k + i) = Inr c \<Longrightarrow>
     \<exists>res. strategyPass fr k ss best = Inr res"
proof (induction ss arbitrary: k best)
  case Nil
  then show ?case by simp
next
  case (Cons s ss)
  have "0 < length (s # ss)" by simp
  with Cons.prems have "\<exists>c. createContext fr (k + 0) = Inr c" by blast
  then obtain c where c: "createContext fr k = Inr c" by auto
  have d: "\<forall>i < length ss. \<exists>c. createContext fr (k + 1 + i) = Inr c"
  proof (intro allI impI)
    fix i assume "i < length ss"
    then have "Suc i < length (s # ss)" by simp
    with Cons.prems have "\<exists>c. createContext fr (k + Suc i) = Inr c" by blast
    then show "\<exists>c. createContext fr (k + 1 + i) = Inr c" by simp
  qed
  have "\<And>best'. \<exists>res. strategyPass fr (k + 1) ss best' = Inr res"
    using Cons.IH [OF d] .
  then show ?case using c by (simp split: sum.splits)
qed

lemma strategies_length: "length (strategies bbox) = 3"
  by (cases bbox) (simp add: strategies_def)

lemma centerFallback_Some:
  "centerFallback fr bbox = Some r \<Longrightarrow>
     methodUsed r = PixelAnalysis \<and> confidence r = 0.3
     \<and> debugInfo r = Some (''Fallback center sampling: '' @ color r)"
  by (auto simp: centerFallback_def split: sum.splits prod.splits if_splits option.splits)

lemma centerFallback_absorbs:
  "(\<exists>e. createContext fr 3 = Inl e) \<or> createContext fr 3 = Inr False
     \<or> (\<exists>e. readRegion fr (centerRegion bbox) = Inl e) \<Longrightarrow> centerFallback fr bbox = None"
  by (auto simp: centerFallback_def split: sum.splits)

lemma getFallbackColor_table:
  "(color (getFallbackColor vehicleType), colorHex (getFallbackColor vehicleType)) =
     (if toLowerCase vehicleType = ''car'' then (''Silver'', ''#C0C0C0'')
      else if toLowerCase vehicleType = ''truck'' then (''White'', ''#FFFFFF'')
      else if toLowerCase vehicleType = ''bus'' then (''Yellow'', ''#FFD700'')
      else if toLowerCase vehicleType = ''motorcycle'' then (''Black'', ''#333333'')
      else if toLowerCase vehicleType = ''bicycle'' then (''Blue'', ''#4169E1'')
      else if toLowerCase vehicleType = ''airplane'' then (''White'', ''#F5F5F5'')
      else if toLowerCase vehicleType = ''boat'' then (''White'', ''#FAFAFA'')
      else if toLowerCase vehicleType = ''train'' then (''Gray'', ''#808080'')
      else (''Gray'', ''#808080''))
   \<and> confidence (getFallbackColor vehicleType) = 0.3
   \<and> methodUsed (getFallbackColor vehicleType) = Fallback
   \<and> debugInfo (getFallbackColor vehicleType) = None"
  by (simp add: getFallbackColor_def fallbackColorMap_def)

lemma strategyPass_best0:
  assumes "strategyPass fr 0 ss None = Inr best"
  shows "(best = None
          \<and> (\<forall>i < length ss. \<forall>d. \<not> (createContext fr i = Inr True
                 \<and> readRegion fr (snd (ss ! i)) = Inr d)))
       \<or> (\<exists>j < length ss. \<exists>data. (createContext fr j = Inr True
             \<and> readRegion fr (snd (ss ! j)) = Inr data)
             \<and> best = Some (strategyResult (fst (ss ! j)) data)
             \<and> (\<forall>i < length ss. \<forall>d. createContext fr i = Inr True
                   \<and> readRegion fr (snd (ss ! i)) = Inr d \<longrightarrow>
                   confidence (strategyResult (fst (ss ! i)) d)
                     \<le> confidence (strategyResult (fst (ss ! j)) data)
                   \<and> (i < j \<longrightarrow> confidence (strategyResult (fst (ss ! i)) d)
                                  < confidence (strategyResult (fst (ss ! j)) data))))"
  using strategyPass_best [OF assms] by simp

lemma flakyFrame_result:
  "extractDominantColorWithDebug flakyFrame (100, 100, 200, 150) ''car'' =
     \<lparr>color = ''Unknown'', colorHex = ''#808080'', confidence = 0.4,
      methodUsed = PixelAnalysis,
      debugInfo = Some ''Strategy: Upper Body Area, Pixels: 0, Top colors: ''\<rparr>"
  by (simp add: extractDominantColorWithDebug_def extractBody_def strategies_def flakyFrame_def
        keepBest_def strategyResult_no_pixels [OF blank_no_pixels])

text \<open>C8 as the claim states it fails: reading the region of the first strategy raises,
  and the extraction does not degrade to the fallback colour of the class (Silver for a
  car). The failure is absorbed inside the strategy and the answer is the pixel analysis
  of the second strategy.\<close>

theorem extraction_failure_claim_fails:
  "readRegion flakyFrame (snd (strategies (100, 100, 200, 150) ! 0)) = Inl ''SecurityError''
   \<and> methodUsed (extractDominantColorWithDebug flakyFrame (100, 100, 200, 150) ''car'')
        = PixelAnalysis
   \<and> color (extractDominantColorWithDebug flakyFrame (100, 100, 200, 150) ''car'') = ''Unknown''
   \<and> color (getFallbackColor ''car'') = ''Silver''"
  by (simp add: flakyFrame_result)
     (simp add: flakyFrame_def strategies_def getFallbackColor_def fallbackColorMap_def
        toLowerCase_def toLowerCaseChar_def upperLetters_def lowerLetters_def)

text \<open>
  C8, as the code has it. The extraction is a total function: for every frame, box and
  class it returns a result and raises nothing. For a class whose lower-cased name is
  not a property name inherited by every object:
  \<^item> the fallback colour is the one of the class in the table (Gray for a class the
    table does not hold), at confidence 0.3 with method Fallback;
  \<^item> an exception while the canvas of a strategy is created is caught by the outer
    handler: the result is the fallback colour of the class with the diagnostic
    \<^verbatim>\<open>Error:\<close> and the message;
  \<^item> otherwise a failure inside a strategy (no context, or an exception while its
    region is read) is absorbed and the chain goes on. Either the result is the pixel
    analysis of one strategy whose region was read, namely the first among those of
    highest confidence, that confidence is above 0.2 and the diagnostic names this
    strategy; or no strategy that was read has a confidence above 0.2 and the result is
    that of the centre sampling with the diagnostic \<^verbatim>\<open>Fallback center sampling\<close>, or,
    when the centre sampling yields nothing, the fallback colour of the class with the
    diagnostic \<^verbatim>\<open>All strategies failed, using fallback\<close>;
  \<^item> a failure inside the centre sampling (an exception while its canvas is created,
    no context, or an exception while its region is read) makes it yield nothing;
  \<^item> the three strategies are named Full Vehicle (Adjusted), Upper Body Area and Main
    Body Panel.
\<close>

theorem extraction_never_raises:
  assumes "toLowerCase vehicleType \<notin> set inheritedKeys"
  shows
  "((color (getFallbackColor vehicleType), colorHex (getFallbackColor vehicleType)) =
     (if toLowerCase vehicleType = ''car'' then (''Silver'', ''#C0C0C0'')
      else if toLowerCase vehicleType = ''truck'' then (''White'', ''#FFFFFF'')
      else if toLowerCase vehicleType = ''bus'' then (''Yellow'', ''#FFD700'')
      else if toLowerCase vehicleType = ''motorcycle'' then (''Black'', ''#333333'')
      else if toLowerCase vehicleType = ''bicycle'' then (''Blue'', ''#4169E1'')
      else if toLowerCase vehicleType = ''airplane'' then (''White'', ''#F5F5F5'')
      else if toLowerCase vehicleType = ''boat'' then (''White'', ''#FAFAFA'')
      else if toLowerCase vehicleType = ''train'' then (''Gray'', ''#808080'')
      else (''Gray'', ''#808080''))
    \<and> confidence (getFallbackColor vehicleType) = 0.3
    \<and> methodUsed (getFallbackColor vehicleType) = Fallback)
   \<and> (k < 3 \<and> createContext fr k = Inl err \<and> (\<forall>i < k. \<exists>c. createContext fr i = Inr c) \<longrightarrow>
        extractDominantColorWithDebug fr bbox vehicleType =
          (getFallbackColor vehicleType) \<lparr>debugInfo := Some (''Error: '' @ err)\<rparr>)
   \<and> ((\<forall>i < 3. \<exists>c. createContext fr i = Inr c) \<longrightarrow>
        (\<exists>j < 3. \<exists>data.
            (createContext fr j = Inr True
               \<and> readRegion fr (snd (strategies bbox ! j)) = Inr data)
            \<and> extractDominantColorWithDebug fr bbox vehicleType
                 = strategyResult (fst (strategies bbox ! j)) data
            \<and> confidence (extractDominantColorWithDebug fr bbox vehicleType) > 0.2
            \<and> methodUsed (extractDominantColorWithDebug fr bbox vehicleType) = PixelAnalysis
            \<and> debugInfo (extractDominantColorWithDebug fr bbox vehicleType) =
                 Some (''Strategy: '' @ fst (strategies bbox ! j) @ '', Pixels: ''
                       @ showNat (snd (strategyLoop data 0 ([], 0))) @ '', Top colors: ''
                       @ topColorsText (fst (strategyLoop data 0 ([], 0))))
            \<and> (\<forall>i < 3. \<forall>d. createContext fr i = Inr True
                   \<and> readRegion fr (snd (strategies bbox ! i)) = Inr d \<longrightarrow>
                   confidence (strategyResult (fst (strategies bbox ! i)) d)
                     \<le> confidence (extractDominantColorWithDebug fr bbox vehicleType)
                   \<and> (i < j \<longrightarrow> confidence (strategyResult (fst (strategies bbox ! i)) d)
                                  < confidence (extractDominantColorWithDebug fr bbox vehicleType))))
        \<or> ((\<forall>i < 3. \<forall>d. createContext fr i = Inr True
                   \<and> readRegion fr (snd (strategies bbox ! i)) = Inr d \<longrightarrow>
                   confidence (strategyResult (fst (strategies bbox ! i)) d) \<le> 0.2)
            \<and> ((\<exists>r. centerFallback fr bbox = Some r
                     \<and> extractDominantColorWithDebug fr bbox vehicleType = r
                     \<and> methodUsed r = PixelAnalysis \<and> confidence r = 0.3
                     \<and> debugInfo r = Some (''Fallback center sampling: '' @ color r))
                \<or> (centerFallback fr bbox = None
                     \<and> extractDominantColorWithDebug fr bbox vehicleType =
                          (getFallbackColor vehicleType)
                            \<lparr>debugInfo := Some ''All strategies failed, using fallback''\<rparr>))))
   \<and> ((\<exists>e. createContext fr 3 = Inl e) \<or> createContext fr 3 = Inr False
          \<or> (\<exists>e. readRegion fr (centerRegion bbox) = Inl e) \<longrightarrow>
        centerFallback fr bbox = None)
   \<and> map fst (strategies bbox) =
        [''Full Vehicle (Adjusted)'', ''Upper Body Area'', ''Main Body Panel'']"
proof (intro conjI impI)
  show "map fst (strategies bbox) =
        [''Full Vehicle (Adjusted)'', ''Upper Body Area'', ''Main Body Panel'']"
    by (simp add: strategies_def split: prod.splits)
next
  show "(color (getFallbackColor vehicleType), colorHex (getFallbackColor vehicleType)) =
     (if toLowerCase vehicleType = ''car'' then (''Silver'', ''#C0C0C0'')
      else if toLowerCase vehicleType = ''truck'' then (''White'', ''#FFFFFF'')
      else if toLowerCase vehicleType = ''bus'' then (''Yellow'', ''#FFD700'')
      else if toLowerCase vehicleType = ''motorcycle'' then (''Black'', ''#333333'')
      else if toLowerCase vehicleType = ''bicycle'' then (''Blue'', ''#4169E1'')
      else if toLowerCase vehicleType = ''airplane'' then (''White'', ''#F5F5F5'')
      else if toLowerCase vehicleType = ''boat'' then (''White'', ''#FAFAFA'')
      else if toLowerCase vehicleType = ''train'' then (''Gray'', ''#808080'')
      else (''Gray'', ''#808080''))"
    "confidence (getFallbackColor vehicleType) = 0.3"
    "methodUsed (getFallbackColor vehicleType) = Fallback"
    using getFallbackColor_table [of vehicleType] by blast+
next
  assume h: "k < 3 \<and> createContext fr k = Inl err \<and> (\<forall>i < k. \<exists>c. createContext fr i = Inr c)"
  have "strategyPass fr 0 (strategies bbox) None = Inl err"
    by (rule strategyPass_raises [of k]) (use h in \<open>simp_all add: strategies_length\<close>)
  then show "extractDominantColorWithDebug fr bbox vehicleType =
          (getFallbackColor vehicleType) \<lparr>debugInfo := Some (''Error: '' @ err)\<rparr>"
    by (simp add: extractDominantColorWithDebug_def extractBody_def)
next
  assume "(\<exists>e. createContext fr 3 = Inl e) \<or> createContext fr 3 = Inr False
          \<or> (\<exists>e. readRegion fr (centerRegion bbox) = Inl e)"
  then show "centerFallback fr bbox = None" by (rule centerFallback_absorbs)
next
  let ?res = "extractDominantColorWithDebug fr bbox vehicleType"
  let ?ss = "strategies bbox"
  assume h: "\<forall>i < 3. \<exists>c. createContext fr i = Inr c"
  then have "\<forall>i < length ?ss. \<exists>c. createContext fr (0 + i) = Inr c"
    by (simp add: strategies_length)
  from strategyPass_returns [OF this] obtain best where
    pass: "strategyPass fr 0 ?ss None = Inr best" by blast
  have final: "(\<exists>r. centerFallback fr bbox = Some r
                     \<and> finalFallback fr bbox vehicleType = r
                     \<and> methodUsed r = PixelAnalysis \<and> confidence r = 0.3
                     \<and> debugInfo r = Some (''Fallback center sampling: '' @ color r))
                \<or> (centerFallback fr bbox = None
                     \<and> finalFallback fr bbox vehicleType =
                          (getFallbackColor vehicleType)
                            \<lparr>debugInfo := Some ''All strategies failed, using fallback''\<rparr>)"
    using centerFallback_Some [of fr bbox]
    by (cases "centerFallback fr bbox") (auto simp: finalFallback_def)
  let ?X = "\<exists>j < 3. \<exists>data.
            (createContext fr j = Inr True \<and> readRegion fr (snd (?ss ! j)) = Inr data)
            \<and> ?res = strategyResult (fst (?ss ! j)) data
            \<and> confidence ?res > 0.2
            \<and> methodUsed ?res = PixelAnalysis
            \<and> debugInfo ?res =
                 Some (''Strategy: '' @ fst (?ss ! j) @ '', Pixels: ''
                       @ showNat (snd (strategyLoop data 0 ([], 0))) @ '', Top colors: ''
                       @ topColorsText (fst (strategyLoop data 0 ([], 0))))
            \<and> (\<forall>i < 3. \<forall>d. createContext fr i = Inr True
                   \<and> readRegion fr (snd (?ss ! i)) = Inr d \<longrightarrow>
                   confidence (strategyResult (fst (?ss ! i)) d) \<le> confidence ?res
                   \<and> (i < j \<longrightarrow> confidence (strategyResult (fst (?ss ! i)) d) < confidence ?res))"
  let ?low = "\<forall>i < 3. \<forall>d. createContext fr i = Inr True
                   \<and> readRegion fr (snd (?ss ! i)) = Inr d \<longrightarrow>
                   confidence (strategyResult (fst (?ss ! i)) d) \<le> 0.2"
  let ?tail = "(\<exists>r. centerFallback fr bbox = Some r \<and> ?res = r
                     \<and> methodUsed r = PixelAnalysis \<and> confidence r = 0.3
                     \<and> debugInfo r = Some (''Fallback center sampling: '' @ color r))
                \<or> (centerFallback fr bbox = None
                     \<and> ?res = (getFallbackColor vehicleType)
                            \<lparr>debugInfo := Some ''All strategies failed, using fallback''\<rparr>)"
  have fall: "?tail" if "?res = finalFallback fr bbox vehicleType"
    using final unfolding that .
  from strategyPass_best0 [OF pass, unfolded strategies_length]
  show "?X \<or> (?low \<and> ?tail)"
  proof (elim disjE exE conjE)
    assume none: "best = None"
      and nok: "\<forall>i<3. \<forall>d. \<not> (createContext fr i = Inr True
                  \<and> readRegion fr (snd (?ss ! i)) = Inr d)"
    have "?res = finalFallback fr bbox vehicleType"
      using pass none by (simp add: extractDominantColorWithDebug_def extractBody_def)
    then have "?tail" by (rule fall)
    moreover have "?low" using nok by blast
    ultimately show ?thesis by blast
  next
    fix j data
    assume j: "j < 3" and ok1: "createContext fr j = Inr True"
      and ok2: "readRegion fr (snd (?ss ! j)) = Inr data"
      and best: "best = Some (strategyResult (fst (?ss ! j)) data)"
      and mx: "\<forall>i<3. \<forall>d. createContext fr i = Inr True
                   \<and> readRegion fr (snd (?ss ! i)) = Inr d \<longrightarrow>
                   confidence (strategyResult (fst (?ss ! i)) d)
                     \<le> confidence (strategyResult (fst (?ss ! j)) data)
                   \<and> (i < j \<longrightarrow> confidence (strategyResult (fst (?ss ! i)) d)
                                  < confidence (strategyResult (fst (?ss ! j)) data))"
    let ?b = "strategyResult (fst (?ss ! j)) data"
    show ?thesis
    proof (cases "confidence ?b > 0.2")
      case True
      have res: "?res = ?b"
        using pass best True by (simp add: extractDominantColorWithDebug_def extractBody_def)
      have shape: "methodUsed ?b = PixelAnalysis"
        "debugInfo ?b = Some (''Strategy: '' @ fst (?ss ! j) @ '', Pixels: ''
                       @ showNat (snd (strategyLoop data 0 ([], 0))) @ '', Top colors: ''
                       @ topColorsText (fst (strategyLoop data 0 ([], 0))))"
        by (simp_all add: strategyResult_def split: prod.splits)
      have "?X"
        unfolding res
        by (intro exI [of _ j] exI [of _ data] conjI) (use j ok1 ok2 True shape mx in simp_all)
      then show ?thesis by (rule disjI1)
    next
      case False
      have "?res = finalFallback fr bbox vehicleType"
        using pass best False by (simp add: extractDominantColorWithDebug_def extractBody_def)
      then have "?tail" by (rule fall)
      moreover have "?low"
      proof (intro allI impI)
        fix i d assume "i < 3" "createContext fr i = Inr True
                   \<and> readRegion fr (snd (?ss ! i)) = Inr d"
        with mx have "confidence (strategyResult (fst (?ss ! i)) d) \<le> confidence ?b" by blast
        with False show "confidence (strategyResult (fst (?ss ! i)) d) \<le> 0.2" by simp
      qed
      ultimately show ?thesis by blast
    qed
  qed
qed


lemma bus_lower: "toLowerCase ''Bus'' = ''bus''"
  by (simp add: toLowerCase_def toLowerCaseChar_def upperLetters_def lowerLetters_def)

lemma unevenFrame_reads:
  "readRegion unevenFrame (snd (strategies (100, 100, 200, 150) ! 0)) = Inr spreadData"
  "readRegion unevenFrame (snd (strategies (100, 100, 200, 150) ! 1))
     = Inr [0, 0, 0, 0,  0, 0, 0, 0,  0, 0, 0, 0,  0, 0, 0, 0]"
  "readRegion unevenFrame (snd (strategies (100, 100, 200, 150) ! 2))
     = Inr [0, 0, 0, 0,  0, 0, 0, 0,  0, 0, 0, 0,  0, 0, 0, 0]"
  "fst (strategies (100, 100, 200, 150) ! 1) = ''Upper Body Area''"
  by (simp_all add: unevenFrame_def strategies_def)

lemma car_lower: "toLowerCase ''car'' = ''car''"
  by (simp add: toLowerCase_def toLowerCaseChar_def upperLetters_def lowerLetters_def)

text \<open>A bus on a host where creating a canvas raises: the fallback colour of the class
  with the error. A bus on a surface whose pixels may not be read: every strategy and the
  centre sampling fail, and the result is the fallback colour of the class. A car on a
  surface whose first strategy reads sixty pixels of six colours (confidence 1/6) and
  whose second and third strategy read no valid pixel (confidence 0.4 each): the result
  is that of the second strategy, the first of highest confidence, and the diagnostic
  names it.\<close>

theorem extraction_never_raises_witness:
  "extractDominantColorWithDebug raisingFrame (100, 100, 200, 150) ''Bus'' =
     \<lparr>color = ''Yellow'', colorHex = ''#FFD700'', confidence = 0.3, methodUsed = Fallback,
      debugInfo = Some ''Error: ReferenceError: document is not defined''\<rparr>
   \<and> extractDominantColorWithDebug taintedFrame (100, 100, 200, 150) ''Bus'' =
     \<lparr>color = ''Yellow'', colorHex = ''#FFD700'', confidence = 0.3, methodUsed = Fallback,
      debugInfo = Some ''All strategies failed, using fallback''\<rparr>
   \<and> extractDominantColorWithDebug unevenFrame (100, 100, 200, 150) ''car'' =
     \<lparr>color = ''Unknown'', colorHex = ''#808080'', confidence = 0.4,
      methodUsed = PixelAnalysis,
      debugInfo = Some ''Strategy: Upper Body Area, Pixels: 0, Top colors: ''\<rparr>"
proof -
  have key: "toLowerCase ''Bus'' \<notin> set inheritedKeys"
    by (simp add: bus_lower inheritedKeys_def)
  note t1 = extraction_never_raises
              [OF key, where k = 0 and fr = raisingFrame
                and err = "''ReferenceError: document is not defined''"
                and bbox = "(100, 100, 200, 150)"]
  note t2 = extraction_never_raises
              [OF key, where fr = taintedFrame and bbox = "(100, 100, 200, 150)"]
  have dflt: "getFallbackColor ''Bus'' =
     \<lparr>color = ''Yellow'', colorHex = ''#FFD700'', confidence = 0.3, methodUsed = Fallback,
      debugInfo = None\<rparr>"
  proof -
    from t1 have "color (getFallbackColor ''Bus'') = ''Yellow''"
       "colorHex (getFallbackColor ''Bus'') = ''#FFD700''"
       "confidence (getFallbackColor ''Bus'') = 0.3"
       "methodUsed (getFallbackColor ''Bus'') = Fallback"
      by (simp_all add: bus_lower)
    moreover have "debugInfo (getFallbackColor ''Bus'') = None"
      by (simp add: getFallbackColor_def split: prod.splits)
    ultimately show ?thesis by simp
  qed
  have raise0: "(0::nat) < 3 \<and> createContext raisingFrame 0
                  = Inl ''ReferenceError: document is not defined''
                \<and> (\<forall>i < (0::nat). \<exists>c. createContext raisingFrame i = Inr c)"
    by (simp add: raisingFrame_def)
  from t1 raise0
  have r1: "extractDominantColorWithDebug raisingFrame (100, 100, 200, 150) ''Bus'' =
              (getFallbackColor ''Bus'')
                \<lparr>debugInfo := Some (''Error: '' @ ''ReferenceError: document is not defined'')\<rparr>"
    by blast
  have ctxs: "\<forall>i < 3. \<exists>c. createContext taintedFrame i = Inr c"
    by (auto simp: taintedFrame_def)
  have reads: "\<And>r d. readRegion taintedFrame r \<noteq> Inr d"
    by (simp add: taintedFrame_def)
  have centre: "\<exists>e. readRegion taintedFrame (centerRegion (100, 100, 200, 150)) = Inl e"
    by (simp add: taintedFrame_def)
  from t2 centre have none: "centerFallback taintedFrame (100, 100, 200, 150) = None"
    by blast
  note t3 = t2 [THEN conjunct2, THEN conjunct2, THEN conjunct1, THEN mp, OF ctxs]
  from t3 reads none
  have r2: "extractDominantColorWithDebug taintedFrame (100, 100, 200, 150) ''Bus'' =
              (getFallbackColor ''Bus'')
                \<lparr>debugInfo := Some ''All strategies failed, using fallback''\<rparr>"
    by auto
  let ?bb = "(100, 100, 200, 150) :: bbox"
  let ?blank = "[0, 0, 0, 0,  0, 0, 0, 0,  0, 0, 0, 0,  0, 0, 0, 0] :: nat list"
  let ?res = "extractDominantColorWithDebug unevenFrame ?bb ''car''"
  let ?expected = "\<lparr>color = ''Unknown'', colorHex = ''#808080'', confidence = 0.4,
      methodUsed = PixelAnalysis,
      debugInfo = Some ''Strategy: Upper Body Area, Pixels: 0, Top colors: ''\<rparr>"
  have keyc: "toLowerCase ''car'' \<notin> set inheritedKeys"
    by (simp add: car_lower inheritedKeys_def)
  have ctxsu: "\<forall>i < 3. \<exists>c. createContext unevenFrame i = Inr c"
    by (auto simp: unevenFrame_def)
  have ctx: "\<And>i. createContext unevenFrame i = Inr True"
    by (simp add: unevenFrame_def)
  note tu = extraction_never_raises
             [OF keyc, where fr = unevenFrame and bbox = ?bb,
              THEN conjunct2, THEN conjunct2, THEN conjunct1, THEN mp, OF ctxsu]
  have blank: "\<And>name. strategyResult name ?blank =
           \<lparr>color = ''Unknown'', colorHex = ''#808080'', confidence = 0.4,
            methodUsed = PixelAnalysis,
            debugInfo = Some (''Strategy: '' @ name @ '', Pixels: 0, Top colors: '')\<rparr>"
    by (rule strategyResult_no_pixels [OF blank_no_pixels])
  have cb: "\<And>name. confidence (strategyResult name ?blank) = 0.4" by (simp add: blank)
  let ?low = "\<forall>i<3. \<forall>d. createContext unevenFrame i = Inr True
                   \<and> readRegion unevenFrame (snd (strategies ?bb ! i)) = Inr d \<longrightarrow>
                   confidence (strategyResult (fst (strategies ?bb ! i)) d) \<le> 0.2"
  have nlow: "\<not> ?low"
  proof
    assume low: "?low"
    have "(1::nat) < 3" by simp
    with low ctx unevenFrame_reads(2)
    have "confidence (strategyResult (fst (strategies ?bb ! 1)) ?blank) \<le> 0.2" by blast
    then show False by (simp add: cb)
  qed
  from tu have r3: "?res = ?expected"
  proof (elim disjE exE conjE)
    fix j data
    assume j: "j < 3"
      and rd: "readRegion unevenFrame (snd (strategies ?bb ! j)) = Inr data"
      and res: "?res = strategyResult (fst (strategies ?bb ! j)) data"
      and conf: "0.2 < confidence ?res"
      and mx: "\<forall>i<3. \<forall>d. createContext unevenFrame i = Inr True
                   \<and> readRegion unevenFrame (snd (strategies ?bb ! i)) = Inr d \<longrightarrow>
                   confidence (strategyResult (fst (strategies ?bb ! i)) d) \<le> confidence ?res
                   \<and> (i < j \<longrightarrow> confidence (strategyResult (fst (strategies ?bb ! i)) d)
                                  < confidence ?res)"
    from j consider "j = 0" | "j = 1" | "j = 2" by linarith
    then show ?thesis
    proof cases
      case 1
      from rd 1 unevenFrame_reads(1) have "data = spreadData" by simp
      with res conf have False by (simp add: spread_confidence)
      then show ?thesis ..
    next
      case 2
      from rd 2 unevenFrame_reads(2) have "data = ?blank" by simp
      with res 2 unevenFrame_reads(4) show ?thesis by (simp add: blank)
    next
      case 3
      from rd 3 unevenFrame_reads(3) have d: "data = ?blank" by simp
      have "(1::nat) < 3" by simp
      with mx ctx unevenFrame_reads(2)
      have "1 < j \<longrightarrow> confidence (strategyResult (fst (strategies ?bb ! 1)) ?blank)
                         < confidence ?res"
        by blast
      with 3 res d have False by (simp add: cb)
      then show ?thesis ..
    qed
  next
    assume "?low"
    then show ?thesis using nlow by blast
  next
    assume "?low"
    then show ?thesis using nlow by blast
  qed
  show ?thesis using r1 r2 r3 by (simp add: dflt)
qed

subsection \<open>Rescaling of bounding boxes\<close>

text \<open>When the canvas is as large as the image was drawn, that is when the computed
  \<^verbatim>\<open>newWidth\<close> and \<^verbatim>\<open>newHeight\<close> are whole numbers, rescaling undoes the drawing
  exactly.\<close>

lemma rescale_roundtrip_exact:
  assumes "naturalWidth img > 0" "naturalHeight img > 0"
      and "real (canvasWidth cv) = nw" "real (canvasHeight cv) = nh" "nw > 0" "nh > 0"
  shows "adjustBbox img cv (drawnBox img (nw, nh) box) = box"
  using assms by (cases box) (simp add: adjustBbox_def drawnBox_def Let_def)

lemma photo_canvas:
  "standardizeImage True photo 800 600 =
     \<lparr>canvasWidth = 800, canvasHeight = 560, drawnSize = Some (800, 2804 / 5)\<rparr>"
  by (simp add: standardizeImage_def photo_def toUnsignedLong_def Let_def)

text \<open>
  C7 at a photograph of 1000 by 701 pixels. It is drawn at 800 by 560.8 on a canvas of 800
  by 560, so the box \<open>(100, 350, 200, 140)\<close> of the photograph lies at
  \<open>(80, 280, 160, 112)\<close> on the canvas; rescaling that box with
  \<^verbatim>\<open>scaleY = naturalHeight / canvas.height = 701 / 560\<close> gives
  \<open>(100, 350.5, 200, 140.2)\<close>, not the original box.
\<close>

theorem rescale_roundtrip_off:
  "drawnSize (standardizeImage True photo 800 600) = Some (800, 2804 / 5)
   \<and> drawnBox photo (800, 2804 / 5) (100, 350, 200, 140) = (80, 280, 160, 112)
   \<and> adjustBbox photo (standardizeImage True photo 800 600) (80, 280, 160, 112)
        = (100, 701 / 2, 200, 701 / 5)"
  by (simp add: photo_canvas) (simp add: photo_def drawnBox_def adjustBbox_def Let_def)

subsection \<open>Detection passes and the continuous loop\<close>

lemmas loop_defs = toggleContinuousDetection_def detectVehiclesInVideo_begin_def
  detectVehiclesInVideo_finish_def detectVehiclesInVideo_continue_def
  detectCurrentVideoFrame_begin_def detectCurrentVideoFrame_finish_def requestFrame_def
  cancelAnimationFrame_def truthy_def handlePause_def handlePlay_def videoPauses_def
  videoPlays_def frameFires_def videoVehicles_def

text \<open>
  C10 at a run of the handlers (\<open>doubleArmed\<close>). Continuous detection is started on a
  playing video and its first iteration waits for the detector; the video is paused and
  played again, and the \<^verbatim>\<open>play\<close> listener starts a second iteration; both iterations
  resume and each schedules a frame callback (handles 1 and 2, of which
  \<open>animationFrameRef\<close> keeps 2); then continuous detection is stopped. The stop clears the
  running flag and cancels handle 2 only: the callback with handle 1 is still scheduled.
\<close>

theorem stop_leaves_iteration_pending:
  "continuousDetection doubleArmed \<and> continuousDetectionRef doubleArmed
   \<and> awaitingDetector doubleArmed = 0
   \<and> pendingFrames doubleArmed = [1, 2] \<and> animationFrameRef doubleArmed = Some 2
   \<and> continuousDetectionRef (toggleContinuousDetection doubleArmed) = False
   \<and> animationFrameRef (toggleContinuousDetection doubleArmed) = None
   \<and> pendingFrames (toggleContinuousDetection doubleArmed) = [1]"
  by (simp add: doubleArmed_def loop_defs idleVideo_def Let_def)

theorem stop_leaves_iteration_pending_witness:
  "1 \<in> set (pendingFrames (toggleContinuousDetection doubleArmed))"
  using stop_leaves_iteration_pending by simp

text \<open>C9 as the claim states it fails for a pass of the continuous loop: after the
  detector has rejected, \<open>analyzing\<close> is still set and the next iteration is scheduled.\<close>

theorem analyzing_stays_set_in_continuous_pass:
  "analyzing (detectVehiclesInVideo_finish blankFrame (Inl ''detector failed'')
       (toggleContinuousDetection idleVideo))
   \<and> awaitingDetector (toggleContinuousDetection idleVideo) = 1
   \<and> pendingFrames (detectVehiclesInVideo_finish blankFrame (Inl ''detector failed'')
       (toggleContinuousDetection idleVideo)) = [1]"
  by (simp add: loop_defs idleVideo_def Let_def)

text \<open>
  C9, as the code has it. When the detector call rejects during a detection pass, the
  record set is left as it was and the alert is shown with the error message of the pass.
  After a still-image pass and after a manually requested pass on the current video frame
  the flag \<open>analyzing\<close> is cleared. A pass of the continuous loop leaves \<open>analyzing\<close>
  as it was; it schedules the next iteration (one more frame callback, whose handle
  \<open>animationFrameRef\<close> takes) exactly when continuous detection is still on, the video
  is neither paused nor ended, and model and media are still there; otherwise it
  schedules nothing.
\<close>

theorem detector_failure_aborts_pass:
  "(hasModel st \<and> hasMedia st \<longrightarrow>
      detectedVehicles (detectVehiclesInImage fr img ctx (Inl err) st) = detectedVehicles st
      \<and> showAlert (detectVehiclesInImage fr img ctx (Inl err) st)
      \<and> alertMessage (detectVehiclesInImage fr img ctx (Inl err) st)
           = ''An error occurred during detection. Please try another image.''
      \<and> \<not> analyzing (detectVehiclesInImage fr img ctx (Inl err) st))
   \<and> (hasModel st \<and> hasMedia st \<and> isVideo st \<longrightarrow>
      detectedVehicles (handleDetectCurrentFrame fr (Inl err) st) = detectedVehicles st
      \<and> showAlert (handleDetectCurrentFrame fr (Inl err) st)
      \<and> alertMessage (handleDetectCurrentFrame fr (Inl err) st)
           = ''An error occurred during detection.''
      \<and> \<not> analyzing (handleDetectCurrentFrame fr (Inl err) st))
   \<and> (awaitingDetector st > 0 \<longrightarrow>
      detectedVehicles (detectVehiclesInVideo_finish fr (Inl err) st) = detectedVehicles st
      \<and> showAlert (detectVehiclesInVideo_finish fr (Inl err) st)
      \<and> alertMessage (detectVehiclesInVideo_finish fr (Inl err) st)
           = ''An error occurred during detection.''
      \<and> analyzing (detectVehiclesInVideo_finish fr (Inl err) st) = analyzing st
      \<and> (continuousDetectionRef st \<and> \<not> videoPaused st \<and> \<not> videoEnded st
           \<and> hasModel st \<and> hasMedia st \<longrightarrow>
           pendingFrames (detectVehiclesInVideo_finish fr (Inl err) st)
             = pendingFrames st @ [Suc (framesRequested st)]
           \<and> animationFrameRef (detectVehiclesInVideo_finish fr (Inl err) st)
             = Some (Suc (framesRequested st)))
      \<and> (\<not> (continuousDetectionRef st \<and> \<not> videoPaused st \<and> \<not> videoEnded st
              \<and> hasModel st \<and> hasMedia st) \<longrightarrow>
           pendingFrames (detectVehiclesInVideo_finish fr (Inl err) st) = pendingFrames st
           \<and> animationFrameRef (detectVehiclesInVideo_finish fr (Inl err) st)
             = animationFrameRef st))"
  by (auto simp: detectVehiclesInImage_def handleDetectCurrentFrame_def
        detectCurrentVideoFrame_def detectCurrentVideoFrame_begin_def
        detectCurrentVideoFrame_finish_def detectVehiclesInVideo_finish_def
        detectVehiclesInVideo_continue_def requestFrame_def Let_def)


lemma begin_when_stopped:
  assumes "\<not> continuousDetectionRef st"
  shows "pendingFrames (detectVehiclesInVideo_begin st) = pendingFrames st"
    and "awaitingDetector (detectVehiclesInVideo_begin st) = awaitingDetector st"
    and "animationFrameRef (detectVehiclesInVideo_begin st) = animationFrameRef st"
    and "detectedVehicles (detectVehiclesInVideo_begin st) = detectedVehicles st"
    and "\<not> continuousDetectionRef (detectVehiclesInVideo_begin st)"
  using assms by (simp_all add: detectVehiclesInVideo_begin_def)

lemma finish_when_stopped:
  assumes "\<not> continuousDetectionRef st"
  shows "pendingFrames (detectVehiclesInVideo_finish fr outcome st) = pendingFrames st"
    and "animationFrameRef (detectVehiclesInVideo_finish fr outcome st) = animationFrameRef st"
    and "\<not> continuousDetectionRef (detectVehiclesInVideo_finish fr outcome st)"
  using assms
  by (simp_all add: detectVehiclesInVideo_finish_def detectVehiclesInVideo_continue_def
        detectCurrentVideoFrame_finish_def Let_def split: sum.splits)

lemma frameFires_when_stopped:
  assumes "\<not> continuousDetectionRef st"
  shows "pendingFrames (frameFires h st) = removeAll h (pendingFrames st)"
    and "awaitingDetector (frameFires h st) = awaitingDetector st"
    and "\<not> continuousDetectionRef (frameFires h st)"
  using assms by (simp_all add: frameFires_def begin_when_stopped)

lemma stop_effect:
  assumes "isVideo st" "hasMedia st" "continuousDetection st"
  shows "\<not> continuousDetectionRef (toggleContinuousDetection st)"
    and "\<not> continuousDetection (toggleContinuousDetection st)"
    and "\<not> truthy (animationFrameRef (toggleContinuousDetection st))"
    and "pendingFrames (toggleContinuousDetection st) =
           (if truthy (animationFrameRef st)
            then removeAll (the (animationFrameRef st)) (pendingFrames st)
            else pendingFrames st)"
  using assms
  by (auto simp: toggleContinuousDetection_def truthy_def cancelAnimationFrame_def Let_def
        split: option.splits)

text \<open>
  The checks of the running flag. While \<open>continuousDetectionRef\<close> is false, an iteration
  that starts, an iteration that resumes after the detector, and a frame callback that
  fires schedule nothing, start no detection and leave the flag false. Stopping sets the
  flag to false, clears \<open>animationFrameRef\<close> and cancels the callback recorded there; if
  no other callback was scheduled, none is scheduled afterwards.
\<close>

theorem stopped_loop_schedules_nothing:
  "(\<not> continuousDetectionRef st \<longrightarrow>
      pendingFrames (detectVehiclesInVideo_begin st) = pendingFrames st
      \<and> awaitingDetector (detectVehiclesInVideo_begin st) = awaitingDetector st
      \<and> \<not> continuousDetectionRef (detectVehiclesInVideo_begin st)
      \<and> pendingFrames (detectVehiclesInVideo_finish fr outcome st) = pendingFrames st
      \<and> \<not> continuousDetectionRef (detectVehiclesInVideo_finish fr outcome st)
      \<and> pendingFrames (frameFires h st) = removeAll h (pendingFrames st)
      \<and> awaitingDetector (frameFires h st) = awaitingDetector st
      \<and> \<not> continuousDetectionRef (frameFires h st))
   \<and> (isVideo st \<and> hasMedia st \<and> continuousDetection st \<longrightarrow>
      \<not> continuousDetectionRef (toggleContinuousDetection st)
      \<and> \<not> truthy (animationFrameRef (toggleContinuousDetection st))
      \<and> (\<forall>k. animationFrameRef st = Some k \<and> k \<noteq> 0 \<longrightarrow>
             k \<notin> set (pendingFrames (toggleContinuousDetection st)))
      \<and> set (pendingFrames (toggleContinuousDetection st)) \<subseteq> set (pendingFrames st)
      \<and> (set (pendingFrames st) \<subseteq> {k. animationFrameRef st = Some k \<and> k \<noteq> 0} \<longrightarrow>
             pendingFrames (toggleContinuousDetection st) = []))"
proof (intro conjI impI)
  assume off: "\<not> continuousDetectionRef st"
  show "pendingFrames (detectVehiclesInVideo_begin st) = pendingFrames st"
    "awaitingDetector (detectVehiclesInVideo_begin st) = awaitingDetector st"
    "\<not> continuousDetectionRef (detectVehiclesInVideo_begin st)"
    using begin_when_stopped [OF off] by simp_all
  show "pendingFrames (detectVehiclesInVideo_finish fr outcome st) = pendingFrames st"
    "\<not> continuousDetectionRef (detectVehiclesInVideo_finish fr outcome st)"
    using finish_when_stopped [OF off] by simp_all
  show "pendingFrames (frameFires h st) = removeAll h (pendingFrames st)"
    "awaitingDetector (frameFires h st) = awaitingDetector st"
    "\<not> continuousDetectionRef (frameFires h st)"
    using frameFires_when_stopped [OF off] by simp_all
next
  assume on: "isVideo st \<and> hasMedia st \<and> continuousDetection st"
  then have a: "isVideo st" "hasMedia st" "continuousDetection st" by simp_all
  note eff = stop_effect [OF a]
  show "\<not> continuousDetectionRef (toggleContinuousDetection st)" by (rule eff(1))
  show "\<not> truthy (animationFrameRef (toggleContinuousDetection st))" by (rule eff(3))
  show "\<forall>k. animationFrameRef st = Some k \<and> k \<noteq> 0 \<longrightarrow>
             k \<notin> set (pendingFrames (toggleContinuousDetection st))"
    by (auto simp: eff(4) truthy_def)
  show "set (pendingFrames (toggleContinuousDetection st)) \<subseteq> set (pendingFrames st)"
    by (auto simp: eff(4))
  show "pendingFrames (toggleContinuousDetection st) = []"
    if "set (pendingFrames st) \<subseteq> {k. animationFrameRef st = Some k \<and> k \<noteq> 0}"
  proof (cases "truthy (animationFrameRef st)")
    case True
    then obtain k where k: "animationFrameRef st = Some k" "k \<noteq> 0"
      by (auto simp: truthy_def split: option.splits)
    with that have "set (pendingFrames st) \<subseteq> {k}" by auto
    then have "removeAll k (pendingFrames st) = []"
      by (auto simp: removeAll_filter_not_eq filter_empty_conv)
    then show ?thesis using True k by (simp add: eff(4))
  next
    case False
    then have "{k. animationFrameRef st = Some k \<and> k \<noteq> 0} = {}"
      by (auto simp: truthy_def split: option.splits)
    with that have "set (pendingFrames st) = {}" by (metis subset_empty)
    then have "pendingFrames st = []" by simp
    then show ?thesis using False by (simp add: eff(4))
  qed
qed

lemma runningVideo_state:
  "isVideo runningVideo \<and> hasMedia runningVideo \<and> continuousDetection runningVideo
   \<and> continuousDetectionRef runningVideo
   \<and> animationFrameRef runningVideo = Some 1 \<and> pendingFrames runningVideo = [1]"
  by (simp add: runningVideo_def loop_defs idleVideo_def Let_def)

theorem stopped_loop_schedules_nothing_witness:
  "pendingFrames (toggleContinuousDetection runningVideo) = []
   \<and> \<not> continuousDetectionRef (toggleContinuousDetection runningVideo)
   \<and> pendingFrames (frameFires 1 (toggleContinuousDetection runningVideo)) = []
   \<and> pendingFrames (detectVehiclesInVideo_begin idleVideo) = []
   \<and> awaitingDetector (detectVehiclesInVideo_begin idleVideo) = 0"
proof -
  have sub: "set (pendingFrames runningVideo)
               \<subseteq> {k. animationFrameRef runningVideo = Some k \<and> k \<noteq> 0}"
    using runningVideo_state by simp
  from stopped_loop_schedules_nothing [of runningVideo] runningVideo_state sub
  have stop: "pendingFrames (toggleContinuousDetection runningVideo) = []"
      "\<not> continuousDetectionRef (toggleContinuousDetection runningVideo)"
    by blast+
  from stopped_loop_schedules_nothing [of "toggleContinuousDetection runningVideo" _ _ 1] stop(2)
  have "pendingFrames (frameFires 1 (toggleContinuousDetection runningVideo))
          = removeAll 1 (pendingFrames (toggleContinuousDetection runningVideo))"
    by blast
  then have fire: "pendingFrames (frameFires 1 (toggleContinuousDetection runningVideo)) = []"
    using stop(1) by simp
  have idle: "\<not> continuousDetectionRef idleVideo" "pendingFrames idleVideo = []"
      "awaitingDetector idleVideo = 0"
    by (simp_all add: idleVideo_def)
  from stopped_loop_schedules_nothing [of idleVideo] idle(1)
  have "pendingFrames (detectVehiclesInVideo_begin idleVideo) = pendingFrames idleVideo"
    "awaitingDetector (detectVehiclesInVideo_begin idleVideo) = awaitingDetector idleVideo"
    by blast+
  then show ?thesis using stop fire idle by simp
qed

text \<open>The three passes after a detection that found a car: the record of the car is
  still there after the detector has rejected. The continuous pass schedules its next
  iteration; stopped while it waited for the detector, it schedules none.\<close>

lemma analyzedPhoto_state:
  "hasModel analyzedPhoto \<and> hasMedia analyzedPhoto
   \<and> map dv_class (detectedVehicles analyzedPhoto) = [''car'']
   \<and> map dv_id (detectedVehicles analyzedPhoto) = [0]"
  by (simp add: analyzedPhoto_def detectVehiclesInImage_def idlePhoto_def idleVideo_def
        imageVehicles_def vehicleOf_def vehicleClasses_def carDetection_def Let_def)

lemma analyzedVideo_state:
  "hasModel analyzedVideo \<and> hasMedia analyzedVideo \<and> isVideo analyzedVideo
   \<and> \<not> continuousDetection analyzedVideo \<and> \<not> videoPaused analyzedVideo
   \<and> \<not> videoEnded analyzedVideo \<and> animationFrameRef analyzedVideo = None
   \<and> pendingFrames analyzedVideo = [] \<and> framesRequested analyzedVideo = 0
   \<and> awaitingDetector analyzedVideo = 0
   \<and> map dv_class (detectedVehicles analyzedVideo) = [''car'']"
  by (simp add: analyzedVideo_def handleDetectCurrentFrame_def detectCurrentVideoFrame_def
        detectCurrentVideoFrame_begin_def detectCurrentVideoFrame_finish_def idleVideo_def
        videoVehicles_def vehicleOf_def vehicleClasses_def carDetection_def Let_def)

lemma started_state:
  "awaitingDetector (toggleContinuousDetection analyzedVideo) = 1
   \<and> continuousDetectionRef (toggleContinuousDetection analyzedVideo)
   \<and> continuousDetection (toggleContinuousDetection analyzedVideo)
   \<and> isVideo (toggleContinuousDetection analyzedVideo)
   \<and> \<not> videoPaused (toggleContinuousDetection analyzedVideo)
   \<and> \<not> videoEnded (toggleContinuousDetection analyzedVideo)
   \<and> hasModel (toggleContinuousDetection analyzedVideo)
   \<and> hasMedia (toggleContinuousDetection analyzedVideo)
   \<and> analyzing (toggleContinuousDetection analyzedVideo)
   \<and> animationFrameRef (toggleContinuousDetection analyzedVideo) = None
   \<and> pendingFrames (toggleContinuousDetection analyzedVideo) = []
   \<and> framesRequested (toggleContinuousDetection analyzedVideo) = 0
   \<and> detectedVehicles (toggleContinuousDetection analyzedVideo) = detectedVehicles analyzedVideo"
  using analyzedVideo_state
  by (simp add: toggleContinuousDetection_def detectVehiclesInVideo_begin_def
        detectCurrentVideoFrame_begin_def truthy_def Let_def)

lemma stopped_during_await_state:
  "awaitingDetector (toggleContinuousDetection (toggleContinuousDetection analyzedVideo)) = 1
   \<and> \<not> continuousDetectionRef (toggleContinuousDetection (toggleContinuousDetection analyzedVideo))
   \<and> pendingFrames (toggleContinuousDetection (toggleContinuousDetection analyzedVideo)) = []
   \<and> detectedVehicles (toggleContinuousDetection (toggleContinuousDetection analyzedVideo))
        = detectedVehicles analyzedVideo"
  using started_state
  by (simp add: toggleContinuousDetection_def [of "toggleContinuousDetection analyzedVideo"]
        truthy_def Let_def)

theorem detector_failure_aborts_pass_witness:
  "map dv_class (detectedVehicles
       (detectVehiclesInImage blankFrame photo True (Inl ''detector failed'') analyzedPhoto)) = [''car'']
   \<and> showAlert (detectVehiclesInImage blankFrame photo True (Inl ''detector failed'') analyzedPhoto)
   \<and> \<not> analyzing (detectVehiclesInImage blankFrame photo True (Inl ''detector failed'') analyzedPhoto)
   \<and> map dv_class (detectedVehicles
       (handleDetectCurrentFrame blankFrame (Inl ''detector failed'') analyzedVideo)) = [''car'']
   \<and> showAlert (handleDetectCurrentFrame blankFrame (Inl ''detector failed'') analyzedVideo)
   \<and> \<not> analyzing (handleDetectCurrentFrame blankFrame (Inl ''detector failed'') analyzedVideo)
   \<and> map dv_class (detectedVehicles
       (detectVehiclesInVideo_finish blankFrame (Inl ''detector failed'')
          (toggleContinuousDetection analyzedVideo))) = [''car'']
   \<and> showAlert (detectVehiclesInVideo_finish blankFrame (Inl ''detector failed'')
          (toggleContinuousDetection analyzedVideo))
   \<and> analyzing (detectVehiclesInVideo_finish blankFrame (Inl ''detector failed'')
          (toggleContinuousDetection analyzedVideo))
   \<and> pendingFrames (detectVehiclesInVideo_finish blankFrame (Inl ''detector failed'')
          (toggleContinuousDetection analyzedVideo)) = [1]
   \<and> pendingFrames (detectVehiclesInVideo_finish blankFrame (Inl ''detector failed'')
          (toggleContinuousDetection (toggleContinuousDetection analyzedVideo))) = []"
proof -
  note t1 = detector_failure_aborts_pass
              [of analyzedPhoto blankFrame photo True "''detector failed''"]
  note t2 = detector_failure_aborts_pass
              [of analyzedVideo blankFrame photo True "''detector failed''"]
  note t3 = detector_failure_aborts_pass
              [of "toggleContinuousDetection analyzedVideo" blankFrame photo True
                  "''detector failed''"]
  note t4 = detector_failure_aborts_pass
              [of "toggleContinuousDetection (toggleContinuousDetection analyzedVideo)"
                  blankFrame photo True "''detector failed''"]
  have r1: "detectedVehicles (detectVehiclesInImage blankFrame photo True (Inl ''detector failed'') analyzedPhoto)
              = detectedVehicles analyzedPhoto"
      "showAlert (detectVehiclesInImage blankFrame photo True (Inl ''detector failed'') analyzedPhoto)"
      "\<not> analyzing (detectVehiclesInImage blankFrame photo True (Inl ''detector failed'') analyzedPhoto)"
    using t1 analyzedPhoto_state by simp_all
  have r2: "detectedVehicles (handleDetectCurrentFrame blankFrame (Inl ''detector failed'') analyzedVideo)
              = detectedVehicles analyzedVideo"
      "showAlert (handleDetectCurrentFrame blankFrame (Inl ''detector failed'') analyzedVideo)"
      "\<not> analyzing (handleDetectCurrentFrame blankFrame (Inl ''detector failed'') analyzedVideo)"
    using t2 analyzedVideo_state by simp_all
  have r3: "detectedVehicles (detectVehiclesInVideo_finish blankFrame (Inl ''detector failed'')
                (toggleContinuousDetection analyzedVideo)) = detectedVehicles analyzedVideo"
      "showAlert (detectVehiclesInVideo_finish blankFrame (Inl ''detector failed'')
          (toggleContinuousDetection analyzedVideo))"
      "analyzing (detectVehiclesInVideo_finish blankFrame (Inl ''detector failed'')
          (toggleContinuousDetection analyzedVideo))"
      "pendingFrames (detectVehiclesInVideo_finish blankFrame (Inl ''detector failed'')
          (toggleContinuousDetection analyzedVideo)) = [1]"
    using t3 started_state by simp_all
  have r4: "pendingFrames (detectVehiclesInVideo_finish blankFrame (Inl ''detector failed'')
          (toggleContinuousDetection (toggleContinuousDetection analyzedVideo))) = []"
    using t4 stopped_during_await_state by simp
  show ?thesis using r1 r2 r3 r4 analyzedPhoto_state analyzedVideo_state by simp
qed


end
